theory Spec2Isabelle
  imports Main "HOL-Library.Char_ord" "HOL-Library.List_Lexorder"
begin

section \<open>Data model\<close>

text \<open>
  The orchestrator of \<^verbatim>\<open>productcomposer/cli.py\<close> works on selectors, packages, a pool and
  the parsed product description. The classes \<^verbatim>\<open>PkgSet\<close>, \<^verbatim>\<open>Package\<close> and \<^verbatim>\<open>Pool\<close> live in
  \<^verbatim>\<open>productcomposer/core\<close>, which is not part of the sources at hand; their data is
  modelled from the specification and their lookups are parameters.
\<close>

text \<open>Modelled from the spec: the Selector of section 3 (class \<^verbatim>\<open>PkgSelect\<close> of the core
  package is missing). A selector-spec string of the product description is represented
  by the selector it parses into.\<close>

record selector =
  sel_name :: string
  sel_op :: "string option"
  sel_epoch :: "int option"
  sel_version :: "string option"
  sel_release :: "string option"
  sel_supportstatus :: "string option"

text \<open>Modelled from the spec: the source package reference of a Package, as returned by
  \<^verbatim>\<open>get_src_package()\<close>; the code reads its \<^verbatim>\<open>arch\<close>, \<^verbatim>\<open>name\<close>, \<^verbatim>\<open>version\<close> and \<^verbatim>\<open>release\<close>.\<close>

record srcref =
  src_name :: string
  src_arch :: string
  src_version :: string
  src_release :: string

text \<open>Modelled from the spec: the Package of section 3 (class \<^verbatim>\<open>Package\<close> of the core
  package is missing).\<close>

record package =
  pkg_name :: string
  pkg_epoch :: "int option"
  pkg_version :: string
  pkg_release :: string
  pkg_arch :: string
  pkg_location :: string
  pkg_origin :: string
  pkg_buildtime :: "int option"
  pkg_disturl :: "string option"
  pkg_license :: "string option"
  pkg_product_cpeid :: "string option"
  pkg_src :: "srcref option"

text \<open>The pool is built once and only read afterwards. Its two lookups
  \<^verbatim>\<open>lookup_rpm(arch, name, op, epoch, version, release)\<close> and \<^verbatim>\<open>lookup_all_rpms(...)\<close>
  are taken as they are.\<close>

record pool =
  lookup_rpm :: "string \<Rightarrow> string \<Rightarrow> string option \<Rightarrow> int option \<Rightarrow> string option
                  \<Rightarrow> string option \<Rightarrow> package option"
  lookup_all_rpms :: "string \<Rightarrow> string \<Rightarrow> string option \<Rightarrow> int option \<Rightarrow> string option
                  \<Rightarrow> string option \<Rightarrow> package list"

text \<open>One element of \<^verbatim>\<open>yml['packagesets']\<close> (a dictionary). The keys the code reads by name
  are fields; \<open>ent_keys\<close> holds every other key of the dictionary with its list value,
  among them \<^verbatim>\<open>add\<close>, \<^verbatim>\<open>sub\<close> and \<^verbatim>\<open>intersect\<close>.\<close>

record entry =
  ent_name :: "string option"
  ent_flavors :: "string list option"
  ent_architectures :: "string list option"
  ent_supportstatus :: "string option"
  ent_packages :: "selector list option"
  ent_keys :: "(string \<times> string list) list"

text \<open>One element of the legacy lists \<^verbatim>\<open>packages\<close> and \<^verbatim>\<open>unpack_packages\<close>: a dictionary
  or a plain selector-spec string.\<close>

datatype compat_entry = CompatDict entry | CompatSpec selector

text \<open>The product description after \<^verbatim>\<open>parse_yaml\<close>, which guarantees the keys
  \<^verbatim>\<open>architectures\<close> and \<^verbatim>\<open>build_options\<close>. \<open>yml_version\<close> is \<^verbatim>\<open>str(yml['version'])\<close>.\<close>

record yml =
  yml_name :: "string option"
  yml_version :: "string option"
  product_directory_name :: "string option"
  build_options :: "string list"
  architectures :: "string list"
  packagesets :: "entry list option"
  packages :: "compat_entry list option"
  unpack_packages :: "compat_entry list option"
  unpack :: "string list option"
  source :: "string option"
  debug :: "string option"

text \<open>\<^verbatim>\<open>die\<close> prints the message and raises \<^verbatim>\<open>SystemExit(1)\<close>; the others are the
  Python exceptions the modelled code can raise by itself.\<close>

datatype error = Die string | KeyError string | FileExistsError string | IndexError

text \<open>The lines \<^verbatim>\<open>warn\<close> prints, kept structured: the formatting of a selector or a
  package (\<^verbatim>\<open>__str__\<close>) belongs to the missing classes.\<close>

datatype message =
    Warn_not_found_for selector string
  | Warn_no_source package
  | Warn_source_not_found srcref package
  | Warn_not_found selector

text \<open>A path of the file system is a directory, a file or symbolic link that was there
  before, or a file the composer made with \<^verbatim>\<open>os.link\<close> or \<^verbatim>\<open>shutil.copyfile\<close> from the
  given path. Failures of the operating system other than \<^verbatim>\<open>FileExistsError\<close> of
  \<^verbatim>\<open>os.mkdir\<close> are outside the model.\<close>

datatype fsnode = Dir | Regular | Symlink | HardLink string | Copy string

text \<open>The module's global dictionaries \<^verbatim>\<open>tree_report\<close>, \<^verbatim>\<open>supportstatus\<close> and
  \<^verbatim>\<open>supportstatus_override\<close>, the file system, the printed warnings and the meta packages
  handed to \<^verbatim>\<open>unrpm\<close>. \<^verbatim>\<open>tree_report\<close> keeps the insertion order of a Python dictionary.\<close>

record state =
  fs :: "string \<rightharpoonup> fsnode"
  tree_report :: "(string \<times> package) list"
  supportstatus :: "string \<rightharpoonup> string option"
  supportstatus_override :: "string \<rightharpoonup> string"
  warnings :: "message list"
  unpacked :: "(string \<times> package \<times> nat) list"

definition warn :: "message \<Rightarrow> state \<Rightarrow> state" where
  "warn m st = st\<lparr>warnings := warnings st @ [m]\<rparr>"

definition exists :: "state \<Rightarrow> string \<Rightarrow> bool" where
  "exists st p = (fs st p \<noteq> None)"

definition islink :: "state \<Rightarrow> string \<Rightarrow> bool" where
  "islink st p = (fs st p = Some Symlink)"


definition basename :: "string \<Rightarrow> string" where
  "basename p = rev (takeWhile (\<lambda>c. c \<noteq> CHR ''/'') (rev p))"

definition startswith :: "string \<Rightarrow> string \<Rightarrow> bool" where
  "startswith s p = (take (length p) s = p)"

definition endswith :: "string \<Rightarrow> string \<Rightarrow> bool" where
  "endswith s p = (length p \<le> length s \<and> drop (length s - length p) s = p)"

definition removesuffix :: "string \<Rightarrow> string \<Rightarrow> string" where
  "removesuffix s p = (if p \<noteq> [] \<and> endswith s p then take (length s - length p) s else s)"


section \<open>Package sets\<close>

text \<open>Modelled from the spec: the PkgSet of sections 3 and 4.2 (class \<^verbatim>\<open>PkgSet\<close> of the core
  package is missing): a named collection with at most one Selector per package name.
  The code calls the operations \<^verbatim>\<open>add_specs\<close>, \<^verbatim>\<open>add\<close> (union), \<^verbatim>\<open>sub\<close> (difference) and
  \<^verbatim>\<open>intersect\<close> (intersection), sets the attribute \<^verbatim>\<open>supportstatus\<close> and iterates over
  the set.\<close>

record pkgset =
  set_name :: string
  elements :: "(string \<times> selector) list"
  set_supportstatus :: "string option"

definition PkgSet :: "string \<Rightarrow> pkgset" where
  "PkgSet n = \<lparr>set_name = n, elements = [], set_supportstatus = None\<rparr>"

fun insert_sel :: "selector \<Rightarrow> (string \<times> selector) list \<Rightarrow> (string \<times> selector) list" where
  "insert_sel s [] = [(sel_name s, s)]"
| "insert_sel s ((n, t) # al) = (if n = sel_name s then (n, s) # al else (n, t) # insert_sel s al)"

text \<open>Modelled from the spec: \<^verbatim>\<open>add_specs\<close> inserts by name, overwriting a Selector of the
  same name; the Selector carries the status declared on its owning set.\<close>

definition add_specs :: "selector list \<Rightarrow> pkgset \<Rightarrow> pkgset" where
  "add_specs specs p =
     p\<lparr>elements := fold (\<lambda>s al. insert_sel (s\<lparr>sel_supportstatus := set_supportstatus p\<rparr>) al)
                       specs (elements p)\<rparr>"

text \<open>Modelled from the spec: union inserts every Selector of the other set whose name is
  not present; what is present is kept.\<close>

definition pkgset_add :: "pkgset \<Rightarrow> pkgset \<Rightarrow> pkgset" where
  "pkgset_add p other =
     p\<lparr>elements := fold (\<lambda>(n, s) al. if n \<in> fst ` set al then al else al @ [(n, s)])
                       (elements other) (elements p)\<rparr>"

text \<open>Modelled from the spec: difference removes every Selector whose name appears in the
  other set.\<close>

definition pkgset_sub :: "pkgset \<Rightarrow> pkgset \<Rightarrow> pkgset" where
  "pkgset_sub p other =
     p\<lparr>elements := filter (\<lambda>(n, s). n \<notin> fst ` set (elements other)) (elements p)\<rparr>"

text \<open>Modelled from the spec: intersection retains the Selectors whose name appears in the
  other set, with the payload of this set.\<close>

definition pkgset_intersect :: "pkgset \<Rightarrow> pkgset \<Rightarrow> pkgset" where
  "pkgset_intersect p other =
     p\<lparr>elements := filter (\<lambda>(n, s). n \<in> fst ` set (elements other)) (elements p)\<rparr>"

text \<open>Modelled from the spec: iteration over a set is in sorted order (section 5).\<close>

definition selectors :: "pkgset \<Rightarrow> selector list" where
  "selectors p = map snd (sort_key fst (elements p))"

text \<open>\<^verbatim>\<open>create_package_set_compat\<close>: the legacy lists \<^verbatim>\<open>packages\<close> and \<^verbatim>\<open>unpack_packages\<close>.\<close>

fun compat_entries :: "string \<Rightarrow> string option \<Rightarrow> compat_entry list \<Rightarrow> pkgset \<Rightarrow> error + pkgset" where
  "compat_entries arch flavor [] p = Inr p"
| "compat_entries arch flavor (CompatSpec s # es) p = compat_entries arch flavor es (add_specs [s] p)"
| "compat_entries arch flavor (CompatDict e # es) p =
     (if (case ent_flavors e of None \<Rightarrow> False
          | Some fl \<Rightarrow> (case flavor of None \<Rightarrow> True | Some f \<Rightarrow> f \<notin> set fl))
      then compat_entries arch flavor es p
      else if (case ent_architectures e of None \<Rightarrow> False | Some al \<Rightarrow> arch \<notin> set al)
      then compat_entries arch flavor es p
      else (case ent_packages e of
              None \<Rightarrow> Inl (KeyError ''packages'')
            | Some specs \<Rightarrow> compat_entries arch flavor es (add_specs specs p)))"

definition create_package_set_compat ::
  "yml \<Rightarrow> string \<Rightarrow> string option \<Rightarrow> string \<Rightarrow> error + pkgset option" where
  "create_package_set_compat y arch flavor setname =
     (if setname = ''main'' then
        (case packages y of
           None \<Rightarrow> Inr None
         | Some es \<Rightarrow> map_sum id Some (compat_entries arch flavor es (PkgSet setname)))
      else if setname = ''unpack'' then
        (case unpack_packages y of
           None \<Rightarrow> Inr (Some (PkgSet setname))
         | Some es \<Rightarrow> map_sum id Some (compat_entries arch flavor es (PkgSet setname)))
      else Inr None)"

text \<open>\<^verbatim>\<open>create_package_set\<close>, structured description. \<open>pkgsets\<close> is the local dictionary: a
  name maps to \<open>None\<close> when it is declared but not instantiated. The set under
  construction is stored in the dictionary before it is filled (the dictionary holds the
  object itself), so every change of it is written back.\<close>

type_synonym pkgsets = "string \<rightharpoonup> pkgset option"

definition entry_name :: "entry \<Rightarrow> string" where
  "entry_name e = (case ent_name e of Some n \<Rightarrow> n | None \<Rightarrow> ''main'')"

text \<open>The body of \<^verbatim>\<open>for oname in entry[setop]\<close>.\<close>

fun apply_setop :: "string \<Rightarrow> string \<Rightarrow> string list \<Rightarrow> pkgsets \<times> pkgset \<Rightarrow> error + pkgsets \<times> pkgset" where
  "apply_setop setop name [] (pkgsets, p) = Inr (pkgsets, p)"
| "apply_setop setop name (oname # onames) (pkgsets, p) =
     (if oname = name then Inl (Die (''package set '' @ oname @ '' does not exist''))
      else case pkgsets oname of
        None \<Rightarrow> Inl (Die (''package set '' @ oname @ '' does not exist''))
      | Some v \<Rightarrow>
          let other = (case v of None \<Rightarrow> PkgSet oname | Some q \<Rightarrow> q);
              pkgsets1 = pkgsets(oname \<mapsto> Some other)
          in if setop = ''add'' then
               (let p' = pkgset_add p other
                in apply_setop setop name onames (pkgsets1(name \<mapsto> Some p'), p'))
             else if setop = ''sub'' then
               (let p' = pkgset_sub p other
                in apply_setop setop name onames (pkgsets1(name \<mapsto> Some p'), p'))
             else if setop = ''intersect'' then
               (let p' = pkgset_intersect p other
                in apply_setop setop name onames (pkgsets1(name \<mapsto> Some p'), p'))
             else Inl (Die (''unsupported package set operation '' @ [CHR 0x27] @ setop @ [CHR 0x27])))"

text \<open>\<^verbatim>\<open>for setop in 'add', 'sub', 'intersect'\<close>: only these three keys of the entry are
  looked up.\<close>

fun apply_setops :: "string list \<Rightarrow> entry \<Rightarrow> string \<Rightarrow> pkgsets \<times> pkgset \<Rightarrow> error + pkgsets \<times> pkgset" where
  "apply_setops [] e name s = Inr s"
| "apply_setops (setop # setops) e name s =
     (case map_of (ent_keys e) setop of
        None \<Rightarrow> apply_setops setops e name s
      | Some onames \<Rightarrow>
          (case apply_setop setop name onames s of
             Inl err \<Rightarrow> Inl err
           | Inr s' \<Rightarrow> apply_setops setops e name s'))"

text \<open>Whether the entry is skipped by its \<^verbatim>\<open>flavors\<close> or \<^verbatim>\<open>architectures\<close> filter.\<close>

definition skipped :: "string \<Rightarrow> string option \<Rightarrow> entry \<Rightarrow> bool" where
  "skipped arch flavor e =
     ((case ent_flavors e of None \<Rightarrow> False
       | Some fl \<Rightarrow> (case flavor of None \<Rightarrow> True | Some f \<Rightarrow> f \<notin> set fl))
      \<or> (case ent_architectures e of None \<Rightarrow> False | Some al \<Rightarrow> arch \<notin> set al))"

text \<open>\<^verbatim>\<open>name in pkgsets and pkgsets[name] is not None\<close>.\<close>

definition instantiated :: "pkgsets \<Rightarrow> string \<Rightarrow> bool" where
  "instantiated pkgsets name = (case pkgsets name of Some (Some q) \<Rightarrow> True | _ \<Rightarrow> False)"

text \<open>The set an entry that is not skipped starts from: \<^verbatim>\<open>PkgSet(name)\<close> with the support
  status and the packages of the entry.\<close>

definition new_pkgset :: "entry \<Rightarrow> string \<Rightarrow> pkgset" where
  "new_pkgset e name =
     (let p0 = PkgSet name;
          p1 = (case ent_supportstatus e of None \<Rightarrow> p0
                | Some s \<Rightarrow> p0\<lparr>set_supportstatus := Some s\<rparr>)
      in case ent_packages e of None \<Rightarrow> p1
         | Some specs \<Rightarrow> if specs = [] then p1 else add_specs specs p1)"

text \<open>The body of \<^verbatim>\<open>for entry in list(yml['packagesets'])\<close>.\<close>

definition process_entry :: "string \<Rightarrow> string option \<Rightarrow> entry \<Rightarrow> pkgsets \<Rightarrow> error + pkgsets" where
  "process_entry arch flavor e pkgsets =
     (let name = entry_name e in
      if instantiated pkgsets name
      then Inl (Die (''package set '' @ name @ '' is already defined''))
      else
        let pkgsets1 = pkgsets(name \<mapsto> None) in
        if skipped arch flavor e then Inr pkgsets1
        else
          let p = new_pkgset e name
          in map_sum id fst
               (apply_setops [''add'', ''sub'', ''intersect''] e name (pkgsets1(name \<mapsto> Some p), p)))"

fun process_entries :: "string \<Rightarrow> string option \<Rightarrow> entry list \<Rightarrow> pkgsets \<Rightarrow> error + pkgsets" where
  "process_entries arch flavor [] pkgsets = Inr pkgsets"
| "process_entries arch flavor (e # es) pkgsets =
     (case process_entry arch flavor e pkgsets of
        Inl err \<Rightarrow> Inl err
      | Inr pkgsets' \<Rightarrow> process_entries arch flavor es pkgsets')"

definition create_package_set :: "yml \<Rightarrow> string \<Rightarrow> string option \<Rightarrow> string \<Rightarrow> error + pkgset" where
  "create_package_set y arch flavor setname =
     (case packagesets y of
        None \<Rightarrow>
          (case create_package_set_compat y arch flavor setname of
             Inl err \<Rightarrow> Inl err
           | Inr None \<Rightarrow> Inl (Die (''package set '' @ setname @ '' is not defined''))
           | Inr (Some p) \<Rightarrow> Inr p)
      | Some es \<Rightarrow>
          (case process_entries arch flavor es Map.empty of
             Inl err \<Rightarrow> Inl err
           | Inr pkgsets \<Rightarrow>
               (case pkgsets setname of
                  None \<Rightarrow> Inl (Die (''package set '' @ setname @ '' is not defined''))
                | Some None \<Rightarrow> Inr (PkgSet setname)
                | Some (Some p) \<Rightarrow> Inr p)))"

section \<open>Linking and the provenance manifest\<close>

text \<open>\<^verbatim>\<open>add_entry_to_report\<close>: first one wins.\<close>

definition add_entry_to_report :: "package \<Rightarrow> string \<Rightarrow> state \<Rightarrow> state" where
  "add_entry_to_report entry outname st =
     (if outname \<notin> fst ` set (tree_report st)
      then st\<lparr>tree_report := tree_report st @ [(outname, entry)]\<rparr>
      else st)"

text \<open>\<^verbatim>\<open>link_file_into_dir\<close>: a symbolic link of the pool is copied, any other file is
  hard-linked, and an existing output name is left alone. Paths are compared as strings.\<close>

definition link_file_into_dir :: "string \<Rightarrow> string \<Rightarrow> state \<Rightarrow> state" where
  "link_file_into_dir filename directory st =
     (let st1 = (if \<not> exists st directory then st\<lparr>fs := (fs st)(directory \<mapsto> Dir)\<rparr> else st);
          outname = directory @ ''/'' @ basename filename
      in if \<not> exists st1 outname then
           (if islink st1 filename
            then st1\<lparr>fs := (fs st1)(outname \<mapsto> Copy filename)\<rparr>
            else st1\<lparr>fs := (fs st1)(outname \<mapsto> HardLink filename)\<rparr>)
         else st1)"

text \<open>The output path of a package below a directory, as \<^verbatim>\<open>link_entry_into_dir\<close> computes it.\<close>

definition outname_of :: "package \<Rightarrow> string \<Rightarrow> string" where
  "outname_of entry directory = directory @ ''/'' @ pkg_arch entry @ ''/'' @ basename (pkg_location entry)"

definition link_entry_into_dir :: "package \<Rightarrow> string \<Rightarrow> bool \<Rightarrow> state \<Rightarrow> state" where
  "link_entry_into_dir entry directory add_slsa st =
     (let outname = outname_of entry directory
      in if \<not> exists st outname then
           (let st1 = link_file_into_dir (pkg_location entry) (directory @ ''/'' @ pkg_arch entry) st;
                st2 = add_entry_to_report entry outname st1
            in if add_slsa then
                 (let slsaname = removesuffix (pkg_location entry) ''.rpm'' @ ''.slsa_provenance.json''
                  in if exists st2 slsaname
                     then link_file_into_dir slsaname (directory @ ''/'' @ pkg_arch entry) st2
                     else st2)
               else st2)
         else st)"

section \<open>Resolution of the main package set\<close>

text \<open>The lookup at the head of the selector loop of \<^verbatim>\<open>link_rpms_to_tree\<close>: one best match
  in single mode, all matches otherwise.\<close>

definition lookup_sel :: "bool \<Rightarrow> pool \<Rightarrow> string \<Rightarrow> selector \<Rightarrow> package list" where
  "lookup_sel singlemode pl arch sel =
     (if singlemode then
        (case lookup_rpm pl arch (sel_name sel) (sel_op sel) (sel_epoch sel) (sel_version sel) (sel_release sel) of
           None \<Rightarrow> []
         | Some rpm \<Rightarrow> [rpm])
      else lookup_all_rpms pl arch (sel_name sel) (sel_op sel) (sel_epoch sel) (sel_version sel) (sel_release sel))"

text \<open>The lookup of the source package of a binary package: exact match on version and
  release, without epoch, in the architecture of the source reference.\<close>

definition lookup_src :: "pool \<Rightarrow> srcref \<Rightarrow> package option" where
  "lookup_src pl srcrpm =
     lookup_rpm pl (src_arch srcrpm) (src_name srcrpm) (Some ''='') None
       (Some (src_version srcrpm)) (Some (src_release srcrpm))"

text \<open>The debug part of the loop body: both lookups are tried, a hit is linked, a miss
  is passed over in silence.\<close>

definition link_debug :: "bool \<Rightarrow> pool \<Rightarrow> string \<Rightarrow> string \<Rightarrow> srcref \<Rightarrow> package \<Rightarrow> state \<Rightarrow> state" where
  "link_debug add_slsa pl arch debugdir srcrpm rpm st =
     (let st1 = (case lookup_rpm pl arch (src_name srcrpm @ ''-debugsource'') (Some ''='') None
                        (Some (src_version srcrpm)) (Some (src_release srcrpm)) of
                   Some drpm \<Rightarrow> link_entry_into_dir drpm debugdir add_slsa st
                 | None \<Rightarrow> st)
      in case lookup_rpm pl arch (pkg_name rpm @ ''-debuginfo'') (Some ''='') (pkg_epoch rpm)
                (Some (pkg_version rpm)) (Some (pkg_release rpm)) of
           Some drpm \<Rightarrow> link_entry_into_dir drpm debugdir add_slsa st1
         | None \<Rightarrow> st1)"

text \<open>A directory argument counts when it is neither \<^verbatim>\<open>None\<close> nor the empty string.\<close>

definition truthy :: "string option \<Rightarrow> bool" where
  "truthy d = (case d of None \<Rightarrow> False | Some s \<Rightarrow> s \<noteq> [])"

text \<open>The body of \<^verbatim>\<open>for rpm in rpms\<close>; the flag is \<^verbatim>\<open>missing_package\<close>.\<close>

definition link_rpm ::
  "bool \<Rightarrow> pool \<Rightarrow> string \<Rightarrow> string \<Rightarrow> string option \<Rightarrow> string option \<Rightarrow> selector \<Rightarrow> package
     \<Rightarrow> state \<times> bool \<Rightarrow> state \<times> bool" where
  "link_rpm add_slsa pl arch rpmdir debugdir sourcedir sel rpm = (\<lambda>(st, missing).
     let st1 = link_entry_into_dir rpm rpmdir add_slsa st;
         st2 = st1\<lparr>supportstatus := (supportstatus st1)(pkg_name rpm \<mapsto>
                   (case supportstatus_override st1 (pkg_name rpm) of
                      Some s \<Rightarrow> Some s
                    | None \<Rightarrow> sel_supportstatus sel))\<rparr>
     in case pkg_src rpm of
          None \<Rightarrow> (warn (Warn_no_source rpm) st2, missing)
        | Some srcrpm \<Rightarrow>
            let (st3, missing3) =
                  (case sourcedir of
                     None \<Rightarrow> (st2, missing)
                   | Some sd \<Rightarrow>
                       if sd = [] then (st2, missing)
                       else (case lookup_src pl srcrpm of
                               Some srpm \<Rightarrow> (link_entry_into_dir srpm sd add_slsa st2, missing)
                             | None \<Rightarrow> (warn (Warn_source_not_found srcrpm rpm) st2, True)));
                st4 = (case debugdir of
                         None \<Rightarrow> st3
                       | Some dd \<Rightarrow>
                           if dd = [] then st3
                           else link_debug add_slsa pl arch dd srcrpm rpm st3)
            in (st4, missing3))"

text \<open>The body of \<^verbatim>\<open>for sel in main_pkgset\<close>.\<close>

definition link_sel ::
  "bool \<Rightarrow> bool \<Rightarrow> pool \<Rightarrow> string \<Rightarrow> string \<Rightarrow> string option \<Rightarrow> string option \<Rightarrow> selector
     \<Rightarrow> state \<times> bool \<Rightarrow> state \<times> bool" where
  "link_sel singlemode add_slsa pl arch rpmdir debugdir sourcedir sel = (\<lambda>(st, missing).
     let rpms = lookup_sel singlemode pl arch sel
     in if rpms = [] then (warn (Warn_not_found_for sel arch) st, True)
        else fold (link_rpm add_slsa pl arch rpmdir debugdir sourcedir sel) rpms (st, missing))"

definition link_rpms_to_tree ::
  "string \<Rightarrow> yml \<Rightarrow> pool \<Rightarrow> string \<Rightarrow> string option \<Rightarrow> string option \<Rightarrow> string option
     \<Rightarrow> state \<Rightarrow> error option \<times> state" where
  "link_rpms_to_tree rpmdir y pl arch flavor debugdir sourcedir st =
     (let singlemode = (''take_all_available_versions'' \<notin> set (build_options y));
          add_slsa = (''add_slsa_provenance'' \<in> set (build_options y))
      in case create_package_set y arch flavor ''main'' of
           Inl err \<Rightarrow> (Some err, st)
         | Inr main_pkgset \<Rightarrow>
             (case fold (link_sel singlemode add_slsa pl arch rpmdir debugdir sourcedir)
                     (selectors main_pkgset) (st, False) of
                (st', missing_package) \<Rightarrow>
                  if missing_package \<and> ''ignore_missing_packages'' \<notin> set (build_options y)
                  then (Some (Die ''Abort due to missing packages''), st')
                  else (None, st')))"

section \<open>Meta packages\<close>





section \<open>The product tree\<close>







section \<open>Support status overrides\<close>

text \<open>The characters that \<^verbatim>\<open>str.strip()\<close> removes, among the ASCII characters: blank, tab,
  line feed, vertical tab, form feed, carriage return and the four separators
  \<^verbatim>\<open>\x1c\<close> to \<^verbatim>\<open>\x1f\<close>. The lines of the file are taken to be ASCII.\<close>

definition isspace :: "char \<Rightarrow> bool" where
  "isspace c = (c \<in> set [CHR '' '', CHR 0x09, CHR 0x0A, CHR 0x0B, CHR 0x0C, CHR 0x0D,
                           CHR 0x1C, CHR 0x1D, CHR 0x1E, CHR 0x1F])"

definition strip :: "string \<Rightarrow> string" where
  "strip s = rev (dropWhile isspace (rev (dropWhile isspace s)))"

text \<open>\<^verbatim>\<open>str.split(' ')\<close>: every single blank separates.\<close>

definition split_blank :: "string \<Rightarrow> string list" where
  "split_blank s = foldr (\<lambda>c acc. if c = CHR '' '' then [] # acc else (c # hd acc) # tl acc) s [[]]"

text \<open>\<^verbatim>\<open>parse_supportstatus\<close> over the lines of the file; a line with less than two fields
  raises \<^verbatim>\<open>IndexError\<close>.\<close>

fun parse_supportstatus :: "string list \<Rightarrow> state \<Rightarrow> error + state" where
  "parse_supportstatus [] st = Inr st"
| "parse_supportstatus (line # lines) st =
     (case split_blank (strip line) of
        a0 # a1 # rest \<Rightarrow>
          parse_supportstatus lines (st\<lparr>supportstatus_override := (supportstatus_override st)(a0 \<mapsto> a1)\<rparr>)
      | _ \<Rightarrow> Inl IndexError)"

text \<open>The reader of the support status table in \<^verbatim>\<open>create_susedata_xml\<close>: a keyword is
  written for a name that is in the table with a value other than \<^verbatim>\<open>None\<close>.\<close>

definition support_keyword :: "state \<Rightarrow> string \<Rightarrow> string option" where
  "support_keyword st name =
     (case supportstatus st name of
        Some (Some s) \<Rightarrow> Some (''support_'' @ s)
      | _ \<Rightarrow> None)"

section \<open>The report file\<close>

text \<open>The value of an attribute of a package as \<^verbatim>\<open>getattr(entry, tag, None)\<close> yields it, and
  \<^verbatim>\<open>str\<close> of it.\<close>

datatype pyval = PyNone | PyStr string | PyInt int

definition getattr :: "package \<Rightarrow> string \<Rightarrow> pyval" where
  "getattr entry tag =
     (if tag = ''name'' then PyStr (pkg_name entry)
      else if tag = ''epoch'' then (case pkg_epoch entry of None \<Rightarrow> PyNone | Some i \<Rightarrow> PyInt i)
      else if tag = ''version'' then PyStr (pkg_version entry)
      else if tag = ''release'' then PyStr (pkg_release entry)
      else if tag = ''arch'' then PyStr (pkg_arch entry)
      else if tag = ''buildtime'' then (case pkg_buildtime entry of None \<Rightarrow> PyNone | Some i \<Rightarrow> PyInt i)
      else if tag = ''disturl'' then (case pkg_disturl entry of None \<Rightarrow> PyNone | Some s \<Rightarrow> PyStr s)
      else if tag = ''license'' then (case pkg_license entry of None \<Rightarrow> PyNone | Some s \<Rightarrow> PyStr s)
      else PyNone)"

fun str_nat :: "nat \<Rightarrow> string" where
  "str_nat n = (if n < 10 then [char_of (48 + n)] else str_nat (n div 10) @ [char_of (48 + n mod 10)])"

definition str :: "pyval \<Rightarrow> string" where
  "str v = (case v of
              PyNone \<Rightarrow> ''None''
            | PyStr s \<Rightarrow> s
            | PyInt i \<Rightarrow> if i < 0 then ''-'' @ str_nat (nat (- i)) else str_nat (nat i))"

text \<open>One \<^verbatim>\<open>binary\<close> element of the report: its text and its attributes in the order
  they are set.\<close>

record binary =
  bin_text :: string
  bin_attrs :: "(string \<times> string) list"

definition binary_attr :: "package \<Rightarrow> string \<Rightarrow> (string \<times> string) list" where
  "binary_attr entry tag =
     (let val = getattr entry tag
      in if val = PyNone \<or> val = PyStr [] then []
         else if tag = ''epoch'' \<and> val = PyInt 0 then []
         else if tag = ''arch'' then [(''binaryarch'', str val)]
         else [(tag, str val)])"

definition binary_of :: "package \<Rightarrow> binary" where
  "binary_of entry =
     \<lparr>bin_text = ''obs://'' @ pkg_origin entry,
      bin_attrs = concat (map (binary_attr entry)
                [''name'', ''epoch'', ''version'', ''release'', ''arch'', ''buildtime'', ''disturl'', ''license''])
              @ (if endswith (pkg_name entry) ''-release''
                 then (case pkg_product_cpeid entry of
                         None \<Rightarrow> []
                       | Some cpeid \<Rightarrow> if cpeid \<noteq> [] then [(''cpeid'', cpeid)] else [])
                 else [])\<rparr>"

text \<open>The entries of the manifest that \<^verbatim>\<open>write_report_file\<close> visits for a directory, in
  the order of the visit: \<^verbatim>\<open>sorted(tree_report.items())\<close> filtered by the prefix test. The
  keys of a dictionary are distinct, so the order of the items is the order of the paths.\<close>

definition report_items :: "string \<Rightarrow> state \<Rightarrow> (string \<times> package) list" where
  "report_items directory st =
     (let directory' = (if \<not> endswith directory ''/'' then directory @ ''/'' else directory)
      in filter (\<lambda>(fn, entry). startswith fn directory') (sort_key fst (tree_report st)))"

text \<open>\<^verbatim>\<open>write_report_file\<close>: the children of the root element \<^verbatim>\<open>report\<close>.\<close>

definition write_report_file :: "string \<Rightarrow> state \<Rightarrow> binary list" where
  "write_report_file directory st = map (\<lambda>(fn, entry). binary_of entry) (report_items directory st)"

section \<open>Conditions of the resolution loop\<close>

text \<open>The condition under which the body of the package loop of \<^verbatim>\<open>link_rpms_to_tree\<close> sets
  \<^verbatim>\<open>missing_package\<close>: the package names a source package, a source tree is asked for, and
  the lookup of the source package fails.\<close>

definition source_missing :: "pool \<Rightarrow> string option \<Rightarrow> package \<Rightarrow> bool" where
  "source_missing pl sourcedir rpm =
     (case pkg_src rpm of
        None \<Rightarrow> False
      | Some srcrpm \<Rightarrow> truthy sourcedir \<and> lookup_src pl srcrpm = None)"

text \<open>The warnings of the form \<^verbatim>\<open>package SEL not found for ARCH\<close>.\<close>

fun is_not_found_for :: "message \<Rightarrow> bool" where
  "is_not_found_for (Warn_not_found_for sel arch) = True"
| "is_not_found_for m = False"

text \<open>The operand names that the loops over \<^verbatim>\<open>'add', 'sub', 'intersect'\<close> and over
  \<^verbatim>\<open>entry[setop]\<close> of \<^verbatim>\<open>create_package_set\<close> visit for an entry, in the order of the visit.\<close>

definition operands :: "entry \<Rightarrow> string list" where
  "operands e =
     concat (map (\<lambda>setop. case map_of (ent_keys e) setop of None \<Rightarrow> [] | Some onames \<Rightarrow> onames)
               [''add'', ''sub'', ''intersect''])"

section \<open>Sample data\<close>

text \<open>Small inputs on which the definitions are evaluated: a selector without version
  constraint, a package set entry with packages only, a product description with
  package set entries only, a package without source reference, and the state at the
  start of a run on an empty file system.\<close>

definition plain_sel :: "string \<Rightarrow> selector" where
  "plain_sel n = \<lparr>sel_name = n, sel_op = None, sel_epoch = None, sel_version = None,
                  sel_release = None, sel_supportstatus = None\<rparr>"

definition plain_entry :: "string option \<Rightarrow> string list \<Rightarrow> entry" where
  "plain_entry n specs = \<lparr>ent_name = n, ent_flavors = None, ent_architectures = None,
      ent_supportstatus = None, ent_packages = Some (map plain_sel specs), ent_keys = []\<rparr>"

definition plain_yml :: "entry list \<Rightarrow> yml" where
  "plain_yml es = \<lparr>yml_name = Some ''prod'', yml_version = Some ''1'', product_directory_name = None,
      build_options = [], architectures = [''x86_64''], packagesets = Some es, packages = None,
      unpack_packages = None, unpack = None, source = None, debug = None\<rparr>"

definition plain_pkg :: "string \<Rightarrow> string \<Rightarrow> string \<Rightarrow> string \<Rightarrow> package" where
  "plain_pkg n v a loc = \<lparr>pkg_name = n, pkg_epoch = None, pkg_version = v, pkg_release = ''1'',
      pkg_arch = a, pkg_location = loc, pkg_origin = ''prj/repo/'' @ a @ ''/'' @ n,
      pkg_buildtime = None, pkg_disturl = None, pkg_license = None, pkg_product_cpeid = None,
      pkg_src = None\<rparr>"

definition empty_state :: state where
  "empty_state = \<lparr>fs = Map.empty, tree_report = [], supportstatus = Map.empty,
      supportstatus_override = Map.empty, warnings = [], unpacked = []\<rparr>"

text \<open>A package that names its source package, and the source package.\<close>

definition with_src :: "package \<Rightarrow> package" where
  "with_src rpm = rpm\<lparr>pkg_src := Some \<lparr>src_name = pkg_name rpm, src_arch = ''src'',
      src_version = pkg_version rpm, src_release = pkg_release rpm\<rparr>\<rparr>"

text \<open>A pool over a list of packages that is in descending order of version: a lookup
  without operator matches architecture and name, a lookup with the operator \<^verbatim>\<open>=\<close> also
  version and release.\<close>

definition sample_match ::
  "string \<Rightarrow> string \<Rightarrow> string option \<Rightarrow> string option \<Rightarrow> string option \<Rightarrow> package \<Rightarrow> bool" where
  "sample_match arch n op v r p =
     (pkg_arch p = arch \<and> pkg_name p = n
      \<and> (op = None \<or> (op = Some ''='' \<and> v = Some (pkg_version p) \<and> r = Some (pkg_release p))))"

definition sample_pool :: "package list \<Rightarrow> pool" where
  "sample_pool ps =
     \<lparr>lookup_rpm = (\<lambda>arch n op e v r. find (sample_match arch n op v r) ps),
      lookup_all_rpms = (\<lambda>arch n op e v r. filter (sample_match arch n op v r) ps)\<rparr>"

section \<open>Evaluation on the sample data\<close>

lemmas eval_defs = create_package_set_def process_entry_def new_pkgset_def entry_name_def
  skipped_def instantiated_def plain_entry_def plain_yml_def plain_sel_def PkgSet_def add_specs_def
  pkgset_add_def pkgset_sub_def pkgset_intersect_def Let_def

lemmas link_defs = link_entry_into_dir_def link_file_into_dir_def add_entry_to_report_def
  outname_of_def basename_def removesuffix_def endswith_def exists_def islink_def warn_def
  plain_pkg_def empty_state_def Let_def

lemmas pool_defs = sample_pool_def sample_match_def with_src_def lookup_sel_def lookup_src_def
  source_missing_def truthy_def selectors_def

section \<open>Package set declarations\<close>

subsection \<open>Instantiated names stay instantiated\<close>

lemma instantiated_upd_Some [simp]:
  "instantiated (ps(k \<mapsto> Some q)) n = (n = k \<or> instantiated ps n)"
  by (simp add: instantiated_def)

lemma instantiated_upd_None [simp]:
  "instantiated (ps(k \<mapsto> None)) n = (n \<noteq> k \<and> instantiated ps n)"
  by (simp add: instantiated_def)

lemma process_entries_append:
  "process_entries arch flavor (xs @ ys) ps =
     (case process_entries arch flavor xs ps of Inl err \<Rightarrow> Inl err
      | Inr ps' \<Rightarrow> process_entries arch flavor ys ps')"
  by (induction xs arbitrary: ps) (auto split: sum.splits)

lemma apply_setop_inst:
  "apply_setop setop name onames (ps, p) = Inr (ps', p') \<Longrightarrow> instantiated ps n \<Longrightarrow> instantiated ps' n"
proof (induction onames arbitrary: ps p)
  case Nil
  then show ?case by simp
next
  case (Cons oname onames)
  from Cons.prems(1) have ne: "oname \<noteq> name" by (auto split: if_splits)
  from Cons.prems(1) ne obtain v where v: "ps oname = Some v" by (auto split: option.splits)
  define other where "other = (case v of None \<Rightarrow> PkgSet oname | Some q \<Rightarrow> q)"
  from Cons.prems(1) ne v obtain q where
    step: "apply_setop setop name onames (ps(oname \<mapsto> Some other, name \<mapsto> Some q), q) = Inr (ps', p')"
    by (auto simp: Let_def other_def split: if_splits)
  have "instantiated (ps(oname \<mapsto> Some other, name \<mapsto> Some q)) n"
    using Cons.prems(2) by simp
  with Cons.IH step show ?case by blast
qed

lemma apply_setops_inst:
  "apply_setops setops e name s = Inr s' \<Longrightarrow> instantiated (fst s) n \<Longrightarrow> instantiated (fst s') n"
proof (induction setops arbitrary: s)
  case Nil
  then show ?case by simp
next
  case (Cons setop setops)
  show ?case
  proof (cases "map_of (ent_keys e) setop")
    case None
    with Cons show ?thesis by simp
  next
    case (Some onames)
    with Cons.prems obtain s1 where s1: "apply_setop setop name onames s = Inr s1"
      and rest: "apply_setops setops e name s1 = Inr s'"
      by (auto split: sum.splits)
    from s1 Cons.prems(2) have "instantiated (fst s1) n"
      using apply_setop_inst [of setop name onames "fst s" "snd s" "fst s1" "snd s1" n] by simp
    with Cons.IH rest show ?thesis by blast
  qed
qed

lemma process_entry_inst:
  assumes "process_entry arch flavor e ps = Inr ps'"
  shows "instantiated ps n \<Longrightarrow> instantiated ps' n"
    and "\<not> skipped arch flavor e \<Longrightarrow> instantiated ps' (entry_name e)"
proof -
  from assms have ni: "\<not> instantiated ps (entry_name e)"
    by (auto simp: process_entry_def Let_def split: if_splits)
  {
    assume sk: "skipped arch flavor e"
    with assms ni have "ps' = ps(entry_name e \<mapsto> None)"
      by (simp add: process_entry_def Let_def)
  } note skip = this
  {
    assume nsk: "\<not> skipped arch flavor e"
    define p2 where "p2 = new_pkgset e (entry_name e)"
    from assms ni nsk have
      "map_sum id fst (apply_setops [''add'', ''sub'', ''intersect''] e (entry_name e)
             (ps(entry_name e \<mapsto> Some p2), p2)) = Inr ps'"
      by (simp add: process_entry_def Let_def p2_def del: apply_setops.simps)
    then obtain s' where
      ap: "apply_setops [''add'', ''sub'', ''intersect''] e (entry_name e)
             (ps(entry_name e \<mapsto> Some p2), p2) = Inr s'" and ps': "ps' = fst s'"
      by (cases "apply_setops [''add'', ''sub'', ''intersect''] e (entry_name e)
             (ps(entry_name e \<mapsto> Some p2), p2)") auto
    have "\<And>m. instantiated (ps(entry_name e \<mapsto> Some p2)) m \<Longrightarrow> instantiated ps' m"
      using apply_setops_inst [OF ap] ps' by simp
  } note act = this
  show "instantiated ps n \<Longrightarrow> instantiated ps' n"
  proof (cases "skipped arch flavor e")
    case True
    assume "instantiated ps n"
    with ni skip [OF True] show ?thesis by auto
  next
    case False
    assume "instantiated ps n"
    with act [OF False] show ?thesis by simp
  qed
  show "\<not> skipped arch flavor e \<Longrightarrow> instantiated ps' (entry_name e)"
    using act by simp
qed

lemma process_entries_inst:
  "process_entries arch flavor es ps = Inr ps' \<Longrightarrow> instantiated ps n \<Longrightarrow> instantiated ps' n"
proof (induction es arbitrary: ps)
  case Nil
  then show ?case by simp
next
  case (Cons e es)
  from Cons.prems(1) obtain ps1 where e: "process_entry arch flavor e ps = Inr ps1"
    and es: "process_entries arch flavor es ps1 = Inr ps'"
    by (auto split: sum.splits)
  from process_entry_inst(1) [OF e] Cons.prems(2) have "instantiated ps1 n" by blast
  with Cons.IH es show ?case by blast
qed

lemma process_entry_redeclared:
  "instantiated ps (entry_name e) \<Longrightarrow>
   process_entry arch flavor e ps = Inl (Die (''package set '' @ entry_name e @ '' is already defined''))"
  by (simp add: process_entry_def Let_def)

subsection \<open>Operands of the set operations\<close>

lemma apply_setop_dom:
  "apply_setop setop name onames (ps, p) = Inr (ps', p') \<Longrightarrow> name \<in> dom ps \<Longrightarrow> dom ps' = dom ps"
proof (induction onames arbitrary: ps p)
  case Nil
  then show ?case by simp
next
  case (Cons oname onames)
  from Cons.prems(1) have ne: "oname \<noteq> name" by (auto split: if_splits)
  from Cons.prems(1) ne obtain v where v: "ps oname = Some v" by (auto split: option.splits)
  define other where "other = (case v of None \<Rightarrow> PkgSet oname | Some q \<Rightarrow> q)"
  from Cons.prems(1) ne v obtain q where
    step: "apply_setop setop name onames (ps(oname \<mapsto> Some other, name \<mapsto> Some q), q) = Inr (ps', p')"
    by (auto simp: Let_def other_def split: if_splits)
  define ps2 where "ps2 = ps(oname \<mapsto> Some other, name \<mapsto> Some q)"
  have d: "dom ps2 = dom ps"
    using v Cons.prems(2) by (auto simp: ps2_def)
  have n: "name \<in> dom ps2" by (simp add: ps2_def)
  from step have "apply_setop setop name onames (ps2, q) = Inr (ps', p')" by (simp only: ps2_def)
  from Cons.IH [OF this n] have "dom ps' = dom ps2" .
  with d show ?case by simp
qed

lemma apply_setop_error:
  "apply_setop setop name onames (ps, p) = Inl err \<Longrightarrow> setop \<in> {''add'', ''sub'', ''intersect''} \<Longrightarrow>
   \<exists>x\<in>set onames. (x = name \<or> ps x = None) \<and> err = Die (''package set '' @ x @ '' does not exist'')"
proof (induction onames arbitrary: ps p)
  case Nil
  then show ?case by simp
next
  case (Cons oname onames)
  show ?case
  proof (cases "oname = name \<or> ps oname = None")
    case True
    with Cons.prems(1) have "err = Die (''package set '' @ oname @ '' does not exist'')"
      by (auto split: if_splits)
    with True show ?thesis by auto
  next
    case False
    then obtain v where ne: "oname \<noteq> name" and v: "ps oname = Some v" by auto
    define other where "other = (case v of None \<Rightarrow> PkgSet oname | Some q \<Rightarrow> q)"
    from Cons.prems ne v obtain q where
      step: "apply_setop setop name onames (ps(oname \<mapsto> Some other, name \<mapsto> Some q), q) = Inl err"
      by (auto simp: Let_def other_def split: if_splits)
    from Cons.IH [OF step Cons.prems(2)] obtain x where x: "x \<in> set onames"
      and off: "x = name \<or> (ps(oname \<mapsto> Some other, name \<mapsto> Some q)) x = None"
      and err: "err = Die (''package set '' @ x @ '' does not exist'')" by blast
    from off have "x = name \<or> ps x = None" by (auto split: if_splits)
    with x err show ?thesis by auto
  qed
qed

lemma apply_setop_offending:
  "x \<in> set onames \<Longrightarrow> x = name \<or> ps x = None \<Longrightarrow> setop \<in> {''add'', ''sub'', ''intersect''} \<Longrightarrow>
   \<exists>err. apply_setop setop name onames (ps, p) = Inl err"
proof (induction onames arbitrary: ps p)
  case Nil
  then show ?case by simp
next
  case (Cons oname onames)
  show ?case
  proof (cases "oname = name \<or> ps oname = None")
    case True
    then show ?thesis by auto
  next
    case False
    then obtain v where ne: "oname \<noteq> name" and v: "ps oname = Some v" by auto
    define other where "other = (case v of None \<Rightarrow> PkgSet oname | Some q \<Rightarrow> q)"
    from Cons.prems(3) ne v obtain q where
      step: "apply_setop setop name (oname # onames) (ps, p) =
             apply_setop setop name onames (ps(oname \<mapsto> Some other, name \<mapsto> Some q), q)"
      by (auto simp: Let_def other_def)
    from False Cons.prems(1,2) have x: "x \<in> set onames" by auto
    from False Cons.prems(2) v have "x = name \<or> (ps(oname \<mapsto> Some other, name \<mapsto> Some q)) x = None"
      by auto
    from Cons.IH [of "ps(oname \<mapsto> Some other, name \<mapsto> Some q)" q, OF x this Cons.prems(3)]
    obtain err where "apply_setop setop name onames (ps(oname \<mapsto> Some other, name \<mapsto> Some q), q) = Inl err"
      by blast
    with step have "apply_setop setop name (oname # onames) (ps, p) = Inl err" by (rule trans)
    then show ?thesis by blast
  qed
qed

lemma apply_setops_error:
  "apply_setops setops e name s = Inl err \<Longrightarrow> set setops \<subseteq> {''add'', ''sub'', ''intersect''} \<Longrightarrow>
   name \<in> dom (fst s) \<Longrightarrow>
   \<exists>setop\<in>set setops. \<exists>onames. map_of (ent_keys e) setop = Some onames \<and>
     (\<exists>x\<in>set onames. (x = name \<or> fst s x = None) \<and> err = Die (''package set '' @ x @ '' does not exist''))"
proof (induction setops arbitrary: s)
  case Nil
  then show ?case by simp
next
  case (Cons setop setops)
  show ?case
  proof (cases "map_of (ent_keys e) setop")
    case None
    with Cons.prems have "apply_setops setops e name s = Inl err" by simp
    from Cons.IH [OF this] Cons.prems show ?thesis by auto
  next
    case (Some onames)
    show ?thesis
    proof (cases "apply_setop setop name onames s")
      case (Inl err')
      with Some Cons.prems(1) have e: "err' = err" by simp
      from Cons.prems(2) have "setop \<in> {''add'', ''sub'', ''intersect''}" by simp
      from apply_setop_error [of setop name onames "fst s" "snd s" err] Inl e this
      have "\<exists>x\<in>set onames. (x = name \<or> fst s x = None) \<and> err = Die (''package set '' @ x @ '' does not exist'')"
        by simp
      with Some show ?thesis by auto
    next
      case (Inr s1)
      with Some Cons.prems(1) have rest: "apply_setops setops e name s1 = Inl err" by simp
      from apply_setop_dom [of setop name onames "fst s" "snd s" "fst s1" "snd s1"] Inr Cons.prems(3)
      have d: "dom (fst s1) = dom (fst s)" by simp
      with Cons.prems(3) have n: "name \<in> dom (fst s1)" by simp
      from Cons.prems(2) have sub: "set setops \<subseteq> {''add'', ''sub'', ''intersect''}" by simp
      from Cons.IH [OF rest sub n] obtain so on x where so: "so \<in> set setops"
        and on: "map_of (ent_keys e) so = Some on" and x: "x \<in> set on"
        and off: "x = name \<or> fst s1 x = None"
        and err: "err = Die (''package set '' @ x @ '' does not exist'')" by blast
      from d have "fst s1 x = None \<longleftrightarrow> fst s x = None" by (metis domIff)
      with off have "x = name \<or> fst s x = None" by simp
      with so on x err show ?thesis by auto
    qed
  qed
qed

lemma apply_setops_offending:
  "setop \<in> set setops \<Longrightarrow> map_of (ent_keys e) setop = Some onames \<Longrightarrow> x \<in> set onames \<Longrightarrow>
   x = name \<or> fst s x = None \<Longrightarrow> set setops \<subseteq> {''add'', ''sub'', ''intersect''} \<Longrightarrow>
   name \<in> dom (fst s) \<Longrightarrow> \<exists>err. apply_setops setops e name s = Inl err"
proof (induction setops arbitrary: s)
  case Nil
  then show ?case by simp
next
  case (Cons so setops)
  show ?case
  proof (cases "map_of (ent_keys e) so")
    case None
    with Cons.prems(1,2) have "setop \<in> set setops" by auto
    from Cons.IH [OF this Cons.prems(2,3,4)] Cons.prems(5,6) None show ?thesis by simp
  next
    case (Some on)
    show ?thesis
    proof (cases "apply_setop so name on s")
      case (Inl err')
      with Some show ?thesis by simp
    next
      case (Inr s1)
      from apply_setop_dom [of so name on "fst s" "snd s" "fst s1" "snd s1"] Inr Cons.prems(6)
      have d: "dom (fst s1) = dom (fst s)" by simp
      with Cons.prems(6) have n: "name \<in> dom (fst s1)" by simp
      from d have "fst s1 x = None \<longleftrightarrow> fst s x = None" by (metis domIff)
      with Cons.prems(4) have off: "x = name \<or> fst s1 x = None" by simp
      have "setop \<noteq> so"
      proof
        assume "setop = so"
        with Some Cons.prems(2) have "on = onames" by simp
        with Cons.prems(3,4,5) have "\<exists>err. apply_setop so name on (fst s, snd s) = Inl err"
          using apply_setop_offending [of x on name "fst s" so "snd s"] by simp
        with Inr show False by simp
      qed
      with Cons.prems(1) have "setop \<in> set setops" by simp
      from Cons.IH [OF this Cons.prems(2,3) off _ n] Cons.prems(5) Some Inr show ?thesis by simp
    qed
  qed
qed

subsection \<open>Which names are declared and which are instantiated\<close>

lemma apply_setop_inst_iff:
  "apply_setop setop name onames (ps, p) = Inr (ps', p') \<Longrightarrow> instantiated ps name \<Longrightarrow>
   instantiated ps' n \<longleftrightarrow> instantiated ps n \<or> n \<in> set onames"
proof (induction onames arbitrary: ps p)
  case Nil
  then show ?case by simp
next
  case (Cons oname onames)
  from Cons.prems(1) have ne: "oname \<noteq> name" by (auto split: if_splits)
  from Cons.prems(1) ne obtain v where v: "ps oname = Some v" by (auto split: option.splits)
  define other where "other = (case v of None \<Rightarrow> PkgSet oname | Some q \<Rightarrow> q)"
  from Cons.prems(1) ne v obtain q where
    step: "apply_setop setop name onames (ps(oname \<mapsto> Some other, name \<mapsto> Some q), q) = Inr (ps', p')"
    by (auto simp: Let_def other_def split: if_splits)
  define ps2 where "ps2 = ps(oname \<mapsto> Some other, name \<mapsto> Some q)"
  have i2: "instantiated ps2 m \<longleftrightarrow> m = name \<or> m = oname \<or> instantiated ps m" for m
    by (auto simp: ps2_def)
  from i2 have n2: "instantiated ps2 name" by simp
  from step have "apply_setop setop name onames (ps2, q) = Inr (ps', p')" by (simp only: ps2_def)
  from Cons.IH [OF this n2] have "instantiated ps' n \<longleftrightarrow> instantiated ps2 n \<or> n \<in> set onames" .
  with i2 [of n] Cons.prems(2) show ?case by auto
qed

lemma apply_setops_inst_iff:
  "apply_setops setops e name s = Inr s' \<Longrightarrow> instantiated (fst s) name \<Longrightarrow>
   instantiated (fst s') n \<longleftrightarrow>
     instantiated (fst s) n
     \<or> n \<in> set (concat (map (\<lambda>setop. case map_of (ent_keys e) setop of None \<Rightarrow> [] | Some onames \<Rightarrow> onames)
                           setops))"
proof (induction setops arbitrary: s)
  case Nil
  then show ?case by simp
next
  case (Cons setop setops)
  show ?case
  proof (cases "map_of (ent_keys e) setop")
    case None
    with Cons.prems have "apply_setops setops e name s = Inr s'" by simp
    from Cons.IH [OF this Cons.prems(2)] None show ?thesis by simp
  next
    case (Some onames)
    with Cons.prems(1) obtain s1 where s1: "apply_setop setop name onames s = Inr s1"
      and rest: "apply_setops setops e name s1 = Inr s'"
      by (auto split: sum.splits)
    from apply_setop_inst_iff [of setop name onames "fst s" "snd s" "fst s1" "snd s1"] s1 Cons.prems(2)
    have a: "instantiated (fst s1) m \<longleftrightarrow> instantiated (fst s) m \<or> m \<in> set onames" for m by simp
    from a [of name] Cons.prems(2) have "instantiated (fst s1) name" by simp
    from Cons.IH [OF rest this] a [of n] Some show ?thesis by auto
  qed
qed

lemma process_entry_skipped:
  "\<not> instantiated ps (entry_name e) \<Longrightarrow> skipped arch flavor e \<Longrightarrow>
   process_entry arch flavor e ps = Inr (ps(entry_name e \<mapsto> None))"
  by (simp add: process_entry_def Let_def)

lemma process_entry_active:
  "\<not> instantiated ps (entry_name e) \<Longrightarrow> \<not> skipped arch flavor e \<Longrightarrow>
   process_entry arch flavor e ps
   = map_sum id fst (apply_setops [''add'', ''sub'', ''intersect''] e (entry_name e)
       (ps(entry_name e \<mapsto> Some (new_pkgset e (entry_name e))), new_pkgset e (entry_name e)))"
  by (simp add: process_entry_def Let_def del: apply_setops.simps)

lemma process_entry_fresh:
  "process_entry arch flavor e ps = Inr ps' \<Longrightarrow> \<not> instantiated ps (entry_name e)"
  by (auto simp: process_entry_def Let_def split: if_splits)

lemma process_entry_inst_iff:
  assumes ok: "process_entry arch flavor e ps = Inr ps'"
  shows "instantiated ps' n \<longleftrightarrow>
     instantiated ps n \<or> (\<not> skipped arch flavor e \<and> (entry_name e = n \<or> n \<in> set (operands e)))"
proof -
  note fresh = process_entry_fresh [OF ok]
  show ?thesis
  proof (cases "skipped arch flavor e")
    case True
    from ok process_entry_skipped [OF fresh True] have "ps' = ps(entry_name e \<mapsto> None)" by simp
    with fresh True show ?thesis by auto
  next
    case False
    define p where "p = new_pkgset e (entry_name e)"
    define s where "s = (ps(entry_name e \<mapsto> Some p), p)"
    from ok process_entry_active [OF fresh False]
    have "map_sum id fst (apply_setops [''add'', ''sub'', ''intersect''] e (entry_name e) s) = Inr ps'"
      by (simp add: p_def s_def)
    then obtain s' where ap: "apply_setops [''add'', ''sub'', ''intersect''] e (entry_name e) s = Inr s'"
      and ps': "ps' = fst s'"
      by (cases "apply_setops [''add'', ''sub'', ''intersect''] e (entry_name e) s") auto
    have "instantiated (fst s) (entry_name e)" by (simp add: s_def)
    from apply_setops_inst_iff [OF ap this, of n]
    have "instantiated ps' n \<longleftrightarrow> instantiated (fst s) n \<or> n \<in> set (operands e)"
      by (simp add: ps' operands_def)
    with False show ?thesis by (auto simp: s_def)
  qed
qed

lemma process_entries_inst_iff:
  "process_entries arch flavor es ps = Inr ps' \<Longrightarrow>
   instantiated ps' n \<longleftrightarrow>
     instantiated ps n
     \<or> (\<exists>e\<in>set es. \<not> skipped arch flavor e \<and> (entry_name e = n \<or> n \<in> set (operands e)))"
proof (induction es arbitrary: ps)
  case Nil
  then show ?case by simp
next
  case (Cons e es)
  from Cons.prems obtain ps1 where e: "process_entry arch flavor e ps = Inr ps1"
    and es: "process_entries arch flavor es ps1 = Inr ps'"
    by (auto split: sum.splits)
  from Cons.IH [OF es] process_entry_inst_iff [OF e, of n] show ?case by auto
qed

lemma apply_setops_dom:
  "apply_setops setops e name s = Inr s' \<Longrightarrow> name \<in> dom (fst s) \<Longrightarrow> dom (fst s') = dom (fst s)"
proof (induction setops arbitrary: s)
  case Nil
  then show ?case by simp
next
  case (Cons setop setops)
  show ?case
  proof (cases "map_of (ent_keys e) setop")
    case None
    with Cons show ?thesis by simp
  next
    case (Some onames)
    with Cons.prems(1) obtain s1 where s1: "apply_setop setop name onames s = Inr s1"
      and rest: "apply_setops setops e name s1 = Inr s'"
      by (auto split: sum.splits)
    from apply_setop_dom [of setop name onames "fst s" "snd s" "fst s1" "snd s1"] s1 Cons.prems(2)
    have d: "dom (fst s1) = dom (fst s)" by simp
    with Cons.prems(2) have "name \<in> dom (fst s1)" by simp
    from Cons.IH [OF rest this] d show ?thesis by simp
  qed
qed

lemma process_entry_dom:
  assumes ok: "process_entry arch flavor e ps = Inr ps'"
  shows "dom ps' = insert (entry_name e) (dom ps)"
proof -
  note fresh = process_entry_fresh [OF ok]
  show ?thesis
  proof (cases "skipped arch flavor e")
    case True
    from ok process_entry_skipped [OF fresh True] have "ps' = ps(entry_name e \<mapsto> None)" by simp
    then show ?thesis by simp
  next
    case False
    define p where "p = new_pkgset e (entry_name e)"
    define s where "s = (ps(entry_name e \<mapsto> Some p), p)"
    from ok process_entry_active [OF fresh False]
    have "map_sum id fst (apply_setops [''add'', ''sub'', ''intersect''] e (entry_name e) s) = Inr ps'"
      by (simp add: p_def s_def)
    then obtain s' where ap: "apply_setops [''add'', ''sub'', ''intersect''] e (entry_name e) s = Inr s'"
      and ps': "ps' = fst s'"
      by (cases "apply_setops [''add'', ''sub'', ''intersect''] e (entry_name e) s") auto
    have "entry_name e \<in> dom (fst s)" by (simp add: s_def)
    from apply_setops_dom [OF ap this] ps' show ?thesis by (simp add: s_def)
  qed
qed

lemma process_entries_dom:
  "process_entries arch flavor es ps = Inr ps' \<Longrightarrow> dom ps' = dom ps \<union> entry_name ` set es"
proof (induction es arbitrary: ps)
  case Nil
  then show ?case by simp
next
  case (Cons e es)
  from Cons.prems obtain ps1 where e: "process_entry arch flavor e ps = Inr ps1"
    and es: "process_entries arch flavor es ps1 = Inr ps'"
    by (auto split: sum.splits)
  from Cons.IH [OF es] process_entry_dom [OF e] show ?case by auto
qed

lemma operands_iff:
  "x \<in> set (operands e) \<longleftrightarrow>
   (\<exists>setop\<in>set [''add'', ''sub'', ''intersect'']. \<exists>onames. map_of (ent_keys e) setop = Some onames \<and> x \<in> set onames)"
  by (auto simp: operands_def split: option.splits)

lemma process_entry_offending:
  assumes fresh: "\<not> instantiated ps (entry_name e)" and active: "\<not> skipped arch flavor e"
    and op: "oname \<in> set (operands e)" and off: "oname = entry_name e \<or> ps oname = None"
  shows "\<exists>x\<in>set (operands e). (x = entry_name e \<or> ps x = None)
           \<and> process_entry arch flavor e ps = Inl (Die (''package set '' @ x @ '' does not exist''))"
proof -
  define name where "name = entry_name e"
  define p where "p = new_pkgset e name"
  define s where "s = (ps(name \<mapsto> Some p), p)"
  have pe: "process_entry arch flavor e ps =
      map_sum id fst (apply_setops [''add'', ''sub'', ''intersect''] e name s)"
    using process_entry_active [OF fresh active] by (simp add: name_def p_def s_def)
  have n: "name \<in> dom (fst s)" by (simp add: s_def)
  have off': "oname = name \<or> fst s oname = None" using off by (auto simp: s_def name_def)
  have sub: "set [''add'', ''sub'', ''intersect''] \<subseteq> {''add'', ''sub'', ''intersect''}" by simp
  from op obtain setop onames where so: "setop \<in> set [''add'', ''sub'', ''intersect'']"
    and mo: "map_of (ent_keys e) setop = Some onames" and on: "oname \<in> set onames"
    unfolding operands_iff by blast
  from apply_setops_offending [OF so mo on off' sub n]
  obtain err where err: "apply_setops [''add'', ''sub'', ''intersect''] e name s = Inl err" by blast
  from apply_setops_error [OF err sub n] obtain so' on' x where
    so': "so' \<in> set [''add'', ''sub'', ''intersect'']" and mo': "map_of (ent_keys e) so' = Some on'"
    and x: "x \<in> set on'" and xo: "x = name \<or> fst s x = None"
    and e: "err = Die (''package set '' @ x @ '' does not exist'')"
    by blast
  from so' mo' x have "x \<in> set (operands e)" unfolding operands_iff by blast
  moreover from xo have "x = entry_name e \<or> ps x = None" by (auto simp: s_def name_def split: if_splits)
  moreover from pe err e have "process_entry arch flavor e ps = Inl (Die (''package set '' @ x @ '' does not exist''))"
    by simp
  ultimately show ?thesis by blast
qed

lemma create_package_set_at_entry:
  assumes pre: "process_entries arch flavor pre Map.empty = Inr ps"
    and decl: "packagesets y = Some (pre @ e # post)"
    and err: "process_entry arch flavor e ps = Inl err"
  shows "create_package_set y arch flavor setname = Inl err"
proof -
  have "process_entries arch flavor (pre @ e # post) Map.empty = Inl err"
    using pre err by (simp add: process_entries_append)
  with decl show ?thesis by (simp add: create_package_set_def)
qed

lemma undeclared_iff:
  assumes pre: "process_entries arch flavor pre Map.empty = Inr ps"
  shows "ps x = None \<longleftrightarrow> x \<notin> entry_name ` set pre"
proof -
  from process_entries_dom [OF pre] have "dom ps = entry_name ` set pre" by simp
  then have "(x \<in> dom ps) = (x \<in> entry_name ` set pre)" by (simp only:)
  then show ?thesis by (auto simp: domIff)
qed

text \<open>
  C5, as stated: referencing an operand set that has not been declared is fatal, except a
  set referencing itself, which is allowed and treated as an empty set. The guard of the
  code is \<^verbatim>\<open>if oname == name or oname not in pkgsets: die(...)\<close>: a set that names itself
  as an operand is rejected like an undeclared one.
\<close>

theorem self_reference_counterexample:
  "create_package_set
     (plain_yml [(plain_entry (Some ''main'') [''foo''])\<lparr>ent_keys := [(''add'', [''main''])]\<rparr>])
     ''x86_64'' None ''main''
   = Inl (Die ''package set main does not exist'')"
  by (simp add: eval_defs)

text \<open>
  C5, amended: let the entries before an entry be processed without error, and let the
  entry be evaluated: its name is not instantiated (otherwise the duplicate error comes
  first) and it is not skipped for the architecture or the flavor. Then an operand of
  \<^verbatim>\<open>add\<close>, \<^verbatim>\<open>sub\<close> or \<^verbatim>\<open>intersect\<close> that is the set itself, or that no earlier entry has
  declared, is a fatal configuration error of \<^verbatim>\<open>create_package_set\<close>:
  \<^verbatim>\<open>package set X does not exist\<close>, where X is such an operand of the entry. The operands of
  an entry that is skipped are not looked at: it only leaves its name declared. An operand
  that is declared but not instantiated (an earlier entry of that name was skipped) is
  allowed and is treated as an empty set: the operation goes on as if the dictionary held
  \<^verbatim>\<open>PkgSet(oname)\<close> for it.
\<close>

theorem operand_self_or_undeclared_fatal:
  "(process_entries arch flavor pre Map.empty = Inr pkgsets \<and> packagesets y = Some (pre @ e # post)
      \<and> \<not> instantiated pkgsets (entry_name e) \<and> \<not> skipped arch flavor e
      \<and> oname \<in> set (operands e) \<and> (oname = entry_name e \<or> oname \<notin> entry_name ` set pre)
    \<longrightarrow> (\<exists>x\<in>set (operands e). (x = entry_name e \<or> x \<notin> entry_name ` set pre)
           \<and> process_entry arch flavor e pkgsets = Inl (Die (''package set '' @ x @ '' does not exist''))
           \<and> create_package_set y arch flavor setname = Inl (Die (''package set '' @ x @ '' does not exist''))))
   \<and> (\<not> instantiated pkgsetsb (entry_name eb) \<and> skipped archb flavorb eb
    \<longrightarrow> process_entry archb flavorb eb pkgsetsb = Inr (pkgsetsb(entry_name eb \<mapsto> None)))
   \<and> (oname' \<noteq> name \<and> pkgsets' oname' = Some None
    \<longrightarrow> apply_setop setop' name (oname' # rest) (pkgsets', p)
        = apply_setop setop' name (oname' # rest) (pkgsets'(oname' \<mapsto> Some (PkgSet oname')), p))"
proof (intro conjI impI)
  assume a: "process_entries arch flavor pre Map.empty = Inr pkgsets \<and> packagesets y = Some (pre @ e # post)
      \<and> \<not> instantiated pkgsets (entry_name e) \<and> \<not> skipped arch flavor e
      \<and> oname \<in> set (operands e) \<and> (oname = entry_name e \<or> oname \<notin> entry_name ` set pre)"
  then have pre: "process_entries arch flavor pre Map.empty = Inr pkgsets"
    and decl: "packagesets y = Some (pre @ e # post)"
    and fresh: "\<not> instantiated pkgsets (entry_name e)" and active: "\<not> skipped arch flavor e"
    and op: "oname \<in> set (operands e)" and off: "oname = entry_name e \<or> oname \<notin> entry_name ` set pre"
    by simp_all
  note un = undeclared_iff [OF pre]
  from off un [of oname] have "oname = entry_name e \<or> pkgsets oname = None" by simp
  from process_entry_offending [OF fresh active op this] obtain x where
    x: "x \<in> set (operands e)" and xo: "x = entry_name e \<or> pkgsets x = None"
    and pe: "process_entry arch flavor e pkgsets = Inl (Die (''package set '' @ x @ '' does not exist''))"
    by blast
  from xo un [of x] have "x = entry_name e \<or> x \<notin> entry_name ` set pre" by simp
  moreover note x pe create_package_set_at_entry [OF pre decl pe, of setname]
  ultimately show "\<exists>x\<in>set (operands e). (x = entry_name e \<or> x \<notin> entry_name ` set pre)
           \<and> process_entry arch flavor e pkgsets = Inl (Die (''package set '' @ x @ '' does not exist''))
           \<and> create_package_set y arch flavor setname = Inl (Die (''package set '' @ x @ '' does not exist''))"
    by blast
next
  assume "\<not> instantiated pkgsetsb (entry_name eb) \<and> skipped archb flavorb eb"
  then show "process_entry archb flavorb eb pkgsetsb = Inr (pkgsetsb(entry_name eb \<mapsto> None))"
    by (simp add: process_entry_skipped)
next
  assume "oname' \<noteq> name \<and> pkgsets' oname' = Some None"
  then show "apply_setop setop' name (oname' # rest) (pkgsets', p)
        = apply_setop setop' name (oname' # rest) (pkgsets'(oname' \<mapsto> Some (PkgSet oname')), p)"
    by (simp add: Let_def)
qed

theorem operand_self_or_undeclared_fatal_witness:
  "(process_entries ''x86_64'' None [plain_entry (Some ''base'') [''bar'']] Map.empty
      = Inr [''base'' \<mapsto> Some (new_pkgset (plain_entry (Some ''base'') [''bar'']) ''base'')]
    \<and> packagesets (plain_yml [plain_entry (Some ''base'') [''bar''],
                               (plain_entry None [''foo''])\<lparr>ent_keys := [(''sub'', [''base'', ''nosuchset''])]\<rparr>])
      = Some ([plain_entry (Some ''base'') [''bar'']]
              @ (plain_entry None [''foo''])\<lparr>ent_keys := [(''sub'', [''base'', ''nosuchset''])]\<rparr> # [])
    \<and> \<not> instantiated [''base'' \<mapsto> Some (new_pkgset (plain_entry (Some ''base'') [''bar'']) ''base'')]
          (entry_name ((plain_entry None [''foo''])\<lparr>ent_keys := [(''sub'', [''base'', ''nosuchset''])]\<rparr>))
    \<and> \<not> skipped ''x86_64'' None ((plain_entry None [''foo''])\<lparr>ent_keys := [(''sub'', [''base'', ''nosuchset''])]\<rparr>)
    \<and> ''nosuchset'' \<in> set (operands ((plain_entry None [''foo''])\<lparr>ent_keys := [(''sub'', [''base'', ''nosuchset''])]\<rparr>))
    \<and> ''nosuchset'' \<notin> entry_name ` set [plain_entry (Some ''base'') [''bar'']])
   \<and> create_package_set (plain_yml [plain_entry (Some ''base'') [''bar''],
                               (plain_entry None [''foo''])\<lparr>ent_keys := [(''sub'', [''base'', ''nosuchset''])]\<rparr>])
        ''x86_64'' None ''main''
      = Inl (Die ''package set nosuchset does not exist'')
   \<and> (\<not> instantiated Map.empty (entry_name ((plain_entry None [''foo''])\<lparr>ent_architectures := Some [''aarch64''],
                                                 ent_keys := [(''add'', [''main'', ''nosuchset''])]\<rparr>))
      \<and> skipped ''x86_64'' None ((plain_entry None [''foo''])\<lparr>ent_architectures := Some [''aarch64''],
                                     ent_keys := [(''add'', [''main'', ''nosuchset''])]\<rparr>))
   \<and> process_entry ''x86_64'' None ((plain_entry None [''foo''])\<lparr>ent_architectures := Some [''aarch64''],
                                     ent_keys := [(''add'', [''main'', ''nosuchset''])]\<rparr>) Map.empty
      = Inr [''main'' \<mapsto> None]
   \<and> (''base'' \<noteq> ''main'' \<and> [''base'' \<mapsto> None] ''base'' = Some None)
   \<and> apply_setop ''add'' ''main'' [''base''] ([''base'' \<mapsto> None], PkgSet ''main'')
       = Inr ([''base'' \<mapsto> Some (PkgSet ''base''), ''main'' \<mapsto> Some (PkgSet ''main'')], PkgSet ''main'')"
proof -
  let ?b = "plain_entry (Some ''base'') [''bar'']"
  let ?e = "(plain_entry None [''foo''])\<lparr>ent_keys := [(''sub'', [''base'', ''nosuchset''])]\<rparr>"
  let ?s = "(plain_entry None [''foo''])\<lparr>ent_architectures := Some [''aarch64''],
      ent_keys := [(''add'', [''main'', ''nosuchset''])]\<rparr>"
  let ?ps = "[''base'' \<mapsto> Some (new_pkgset ?b ''base'')]"
  let ?y = "plain_yml [?b, ?e]"
  have h1: "process_entries ''x86_64'' None [?b] Map.empty = Inr ?ps"
    by (simp add: process_entry_def entry_name_def skipped_def instantiated_def plain_entry_def Let_def)
  have h2: "packagesets ?y = Some ([?b] @ ?e # [])" by (simp add: plain_yml_def)
  have h3: "\<not> instantiated ?ps (entry_name ?e)" by (simp add: instantiated_def entry_name_def plain_entry_def)
  have h4: "\<not> skipped ''x86_64'' None ?e" by (simp add: skipped_def plain_entry_def)
  have h5: "''nosuchset'' \<in> set (operands ?e)" by (simp add: operands_def)
  have h6: "''nosuchset'' \<notin> entry_name ` set [?b]" by (simp add: entry_name_def plain_entry_def)
  have h7: "\<not> instantiated Map.empty (entry_name ?s) \<and> skipped ''x86_64'' None ?s"
    by (simp add: instantiated_def skipped_def plain_entry_def)
  have h8: "''base'' \<noteq> ''main'' \<and> [''base'' \<mapsto> None] ''base'' = Some None" by simp
  have ops: "set (operands ?e) = {''base'', ''nosuchset''}" by (auto simp: operands_def)
  have names: "entry_name ?e = ''main''" "entry_name ` set [?b] = {''base''}" "entry_name ?s = ''main''"
    by (simp_all add: entry_name_def plain_entry_def)
  note t = operand_self_or_undeclared_fatal [where arch = "''x86_64''" and flavor = None and pre = "[?b]"
      and pkgsets = ?ps and y = ?y and e = ?e and post = "[]" and oname = "''nosuchset''"
      and setname = "''main''" and eb = ?s and pkgsetsb = Map.empty and archb = "''x86_64''"
      and flavorb = None and oname' = "''base''" and name = "''main''"
      and pkgsets' = "[''base'' \<mapsto> None]" and setop' = "''add''" and rest = "[]" and p = "PkgSet ''main''"]
  from t h1 h2 h3 h4 h5 h6 obtain x where x: "x \<in> set (operands ?e)"
    and xo: "x = entry_name ?e \<or> x \<notin> entry_name ` set [?b]"
    and c: "create_package_set ?y ''x86_64'' None ''main'' = Inl (Die (''package set '' @ x @ '' does not exist''))"
    by blast
  from x xo have "x = ''nosuchset''" unfolding ops names by auto
  with c have c1: "create_package_set ?y ''x86_64'' None ''main'' = Inl (Die ''package set nosuchset does not exist'')"
    by simp
  from t h7 have c2: "process_entry ''x86_64'' None ?s Map.empty = Inr [''main'' \<mapsto> None]"
    unfolding names by blast
  from t h8 have "apply_setop ''add'' ''main'' [''base''] ([''base'' \<mapsto> None], PkgSet ''main'')
      = apply_setop ''add'' ''main'' [''base''] ([''base'' \<mapsto> None](''base'' \<mapsto> Some (PkgSet ''base'')), PkgSet ''main'')"
    by blast
  then have c3: "apply_setop ''add'' ''main'' [''base''] ([''base'' \<mapsto> None], PkgSet ''main'')
       = Inr ([''base'' \<mapsto> Some (PkgSet ''base''), ''main'' \<mapsto> Some (PkgSet ''main'')], PkgSet ''main'')"
    by (simp add: pkgset_add_def PkgSet_def)
  from h1 h2 h3 h4 h5 h6 c1 h7 c2 h8 c3 show ?thesis by blast
qed

subsection \<open>Keys of an entry that are not set operations\<close>

lemma map_of_unknown_key:
  "k \<notin> {''add'', ''sub'', ''intersect''} \<Longrightarrow> setop \<in> {''add'', ''sub'', ''intersect''} \<Longrightarrow>
   map_of ((k, v) # ks) setop = map_of ks setop"
  by auto

lemma apply_setops_unknown_key:
  "k \<notin> {''add'', ''sub'', ''intersect''} \<Longrightarrow> set setops \<subseteq> {''add'', ''sub'', ''intersect''} \<Longrightarrow>
   apply_setops setops (e\<lparr>ent_keys := (k, v) # ent_keys e\<rparr>) name s = apply_setops setops e name s"
proof (induction setops arbitrary: s)
  case Nil
  then show ?case by simp
next
  case (Cons setop setops)
  then have "map_of ((k, v) # ent_keys e) setop = map_of (ent_keys e) setop"
    by (intro map_of_unknown_key) auto
  with Cons show ?case by (simp split: option.splits sum.splits)
qed

lemma process_entry_unknown_key:
  assumes "k \<notin> {''add'', ''sub'', ''intersect''}"
  shows "process_entry arch flavor (e\<lparr>ent_keys := (k, v) # ent_keys e\<rparr>) = process_entry arch flavor e"
proof
  fix ps
  have "apply_setops [''add'', ''sub'', ''intersect''] (e\<lparr>ent_keys := (k, v) # ent_keys e\<rparr>) name s
      = apply_setops [''add'', ''sub'', ''intersect''] e name s" for name s
    using assms by (intro apply_setops_unknown_key) auto
  then show "process_entry arch flavor (e\<lparr>ent_keys := (k, v) # ent_keys e\<rparr>) ps = process_entry arch flavor e ps"
    by (simp add: process_entry_def Let_def entry_name_def skipped_def new_pkgset_def del: apply_setops.simps)
qed

lemma process_entries_cong:
  "process_entry arch flavor e' = process_entry arch flavor e \<Longrightarrow>
   process_entries arch flavor (pre @ e' # post) ps = process_entries arch flavor (pre @ e # post) ps"
  by (induction pre arbitrary: ps) (auto split: sum.splits)

lemma process_entry_errors:
  "process_entry arch flavor e ps = Inl err \<Longrightarrow>
   err = Die (''package set '' @ entry_name e @ '' is already defined'')
   \<or> (\<exists>x. err = Die (''package set '' @ x @ '' does not exist''))"
proof (cases "instantiated ps (entry_name e)")
  case True
  assume "process_entry arch flavor e ps = Inl err"
  with True show ?thesis by (simp add: process_entry_def Let_def)
next
  case False
  assume a: "process_entry arch flavor e ps = Inl err"
  define name where "name = entry_name e"
  define p where "p = new_pkgset e name"
  define s where "s = (ps(name \<mapsto> Some p), p)"
  from a False have "\<not> skipped arch flavor e" by (auto simp: process_entry_def Let_def)
  with a False have "map_sum id fst (apply_setops [''add'', ''sub'', ''intersect''] e name s) = Inl err"
    by (simp add: process_entry_def Let_def name_def p_def s_def del: apply_setops.simps)
  then have err: "apply_setops [''add'', ''sub'', ''intersect''] e name s = Inl err"
    by (cases "apply_setops [''add'', ''sub'', ''intersect''] e name s") auto
  have "name \<in> dom (fst s)" by (simp add: s_def)
  from apply_setops_error [OF err _ this] show ?thesis by auto
qed

lemma process_entries_errors:
  "process_entries arch flavor es ps = Inl err \<Longrightarrow>
   (\<exists>x. err = Die (''package set '' @ x @ '' is already defined''))
   \<or> (\<exists>x. err = Die (''package set '' @ x @ '' does not exist''))"
proof (induction es arbitrary: ps)
  case Nil
  then show ?case by simp
next
  case (Cons e es)
  show ?case
  proof (cases "process_entry arch flavor e ps")
    case (Inl err')
    with Cons.prems have "err' = err" by simp
    with process_entry_errors [OF Inl] show ?thesis by auto
  next
    case (Inr ps')
    with Cons.prems have "process_entries arch flavor es ps' = Inl err" by simp
    from Cons.IH [OF this] show ?thesis .
  qed
qed

lemma compat_entries_errors:
  "compat_entries arch flavor es p = Inl err \<Longrightarrow> err = KeyError ''packages''"
  by (induction arch flavor es p rule: compat_entries.induct) (auto split: if_splits option.splits)

lemma create_package_set_compat_errors:
  assumes "create_package_set_compat y arch flavor setname = Inl err"
  shows "err = KeyError ''packages''"
proof -
  have m: "map_sum id Some r = Inl err \<Longrightarrow> r = Inl err" for r :: "error + pkgset"
    by (cases r) auto
  from assms show ?thesis
    by (auto simp: create_package_set_compat_def split: if_splits option.splits
        dest!: m compat_entries_errors)
qed

lemma create_package_set_errors:
  assumes "create_package_set y arch flavor setname = Inl err"
  shows "err = KeyError ''packages''
   \<or> err = Die (''package set '' @ setname @ '' is not defined'')
   \<or> (\<exists>x. err = Die (''package set '' @ x @ '' is already defined''))
   \<or> (\<exists>x. err = Die (''package set '' @ x @ '' does not exist''))"
proof (cases "packagesets y")
  case None
  show ?thesis
  proof (cases "create_package_set_compat y arch flavor setname")
    case (Inl err')
    with None assms have "err' = err" by (simp add: create_package_set_def)
    with create_package_set_compat_errors [OF Inl] show ?thesis by simp
  next
    case (Inr r)
    with None assms show ?thesis by (cases r) (simp_all add: create_package_set_def)
  qed
next
  case (Some es)
  show ?thesis
  proof (cases "process_entries arch flavor es Map.empty")
    case (Inl err')
    with Some assms have "err' = err" by (simp add: create_package_set_def)
    with process_entries_errors [OF Inl] show ?thesis by auto
  next
    case (Inr ps)
    with Some assms show ?thesis
      by (auto simp: create_package_set_def split: option.splits)
  qed
qed

text \<open>
  C6, as stated: an operation name outside \<^verbatim>\<open>add\<close>, \<^verbatim>\<open>sub\<close>, \<^verbatim>\<open>intersect\<close> is rejected as a
  fatal configuration error rather than ignored. The code loops over the fixed tuple
  \<^verbatim>\<open>'add', 'sub', 'intersect'\<close> and looks only these keys up in the entry; a key \<^verbatim>\<open>union\<close>,
  even with an operand that does not exist, is never read.
\<close>

theorem unknown_operation_counterexample:
  "create_package_set
     (plain_yml [(plain_entry (Some ''main'') [''foo''])\<lparr>ent_keys := [(''union'', [''nosuchset''])]\<rparr>])
     ''x86_64'' None ''main''
   = Inr \<lparr>set_name = ''main'', elements = [(''foo'', plain_sel ''foo'')], set_supportstatus = None\<rparr>"
  by (simp add: eval_defs)

text \<open>
  C6, amended: of the keys of a packageset entry only \<^verbatim>\<open>add\<close>, \<^verbatim>\<open>sub\<close> and \<^verbatim>\<open>intersect\<close> are
  evaluated as set operations. Any other key, whatever its operand list, is ignored: the
  result of \<^verbatim>\<open>create_package_set\<close> is the same with and without it. The error
  \<^verbatim>\<open>unsupported package set operation\<close> is never raised.
\<close>

theorem unknown_operation_ignored:
  "(k \<notin> {''add'', ''sub'', ''intersect''} \<longrightarrow>
      create_package_set (y\<lparr>packagesets := Some (pre @ e\<lparr>ent_keys := (k, onames) # ent_keys e\<rparr> # post)\<rparr>)
        arch flavor setname
      = create_package_set (y\<lparr>packagesets := Some (pre @ e # post)\<rparr>) arch flavor setname)
   \<and> create_package_set y' arch' flavor' setname'
        \<noteq> Inl (Die (''unsupported package set operation '' @ [CHR 0x27] @ setop @ [CHR 0x27]))"
proof (intro conjI impI)
  assume "k \<notin> {''add'', ''sub'', ''intersect''}"
  from process_entries_cong [OF process_entry_unknown_key [OF this]]
  show "create_package_set (y\<lparr>packagesets := Some (pre @ e\<lparr>ent_keys := (k, onames) # ent_keys e\<rparr> # post)\<rparr>)
        arch flavor setname
      = create_package_set (y\<lparr>packagesets := Some (pre @ e # post)\<rparr>) arch flavor setname"
    by (simp add: create_package_set_def)
next
  show "create_package_set y' arch' flavor' setname'
        \<noteq> Inl (Die (''unsupported package set operation '' @ [CHR 0x27] @ setop @ [CHR 0x27]))"
  proof
    assume "create_package_set y' arch' flavor' setname'
        = Inl (Die (''unsupported package set operation '' @ [CHR 0x27] @ setop @ [CHR 0x27]))"
    from create_package_set_errors [OF this] show False by auto
  qed
qed

theorem unknown_operation_ignored_witness:
  "''union'' \<notin> {''add'', ''sub'', ''intersect''}
   \<and> create_package_set
       (plain_yml ([] @ (plain_entry (Some ''main'') [''foo''])\<lparr>ent_keys := [(''union'', [''nosuchset''])]\<rparr> # []))
       ''x86_64'' None ''main''
     = create_package_set (plain_yml ([] @ plain_entry (Some ''main'') [''foo''] # [])) ''x86_64'' None ''main''
   \<and> create_package_set (plain_yml [(plain_entry None [''foo''])\<lparr>ent_keys := [(''add'', [''main''])]\<rparr>])
        ''x86_64'' None ''main''
     \<noteq> Inl (Die (''unsupported package set operation '' @ [CHR 0x27] @ ''add'' @ [CHR 0x27]))"
  using unknown_operation_ignored [where k = "''union''" and y = "plain_yml []" and pre = "[]"
      and e = "plain_entry (Some ''main'') [''foo'']" and onames = "[''nosuchset'']" and post = "[]"
      and arch = "''x86_64''" and flavor = None and setname = "''main''"
      and y' = "plain_yml [(plain_entry None [''foo''])\<lparr>ent_keys := [(''add'', [''main''])]\<rparr>]"
      and arch' = "''x86_64''" and flavor' = None and setname' = "''main''" and setop = "''add''"]
  by (simp add: eval_defs)

subsection \<open>Declaring a name twice\<close>

lemma duplicate_after_active_entry:
  assumes decl: "packagesets y = Some (pre @ e1 # mid @ e2 # post)"
    and same: "entry_name e1 = entry_name e2"
    and active: "\<not> skipped arch flavor e1"
  shows "create_package_set y arch flavor setname =
           (case process_entries arch flavor (pre @ e1 # mid) Map.empty of
              Inl err \<Rightarrow> Inl err
            | Inr pkgsets \<Rightarrow> Inl (Die (''package set '' @ entry_name e2 @ '' is already defined'')))"
proof (cases "process_entries arch flavor (pre @ e1 # mid) Map.empty")
  case (Inl err)
  have "process_entries arch flavor ((pre @ e1 # mid) @ e2 # post) Map.empty = Inl err"
    by (simp only: process_entries_append [of arch flavor "pre @ e1 # mid"] Inl sum.case)
  then show ?thesis using decl Inl by (simp add: create_package_set_def)
next
  case (Inr ps)
  then obtain ps0 ps1 where pre: "process_entries arch flavor pre Map.empty = Inr ps0"
    and e1: "process_entry arch flavor e1 ps0 = Inr ps1"
    and mid: "process_entries arch flavor mid ps1 = Inr ps"
    by (auto simp: process_entries_append split: sum.splits)
  from process_entry_inst(2) [OF e1 active] have "instantiated ps1 (entry_name e1)" .
  with process_entries_inst [OF mid] same have "instantiated ps (entry_name e2)" by simp
  then have "process_entries arch flavor (e2 # post) ps =
      Inl (Die (''package set '' @ entry_name e2 @ '' is already defined''))"
    by (simp add: process_entry_redeclared)
  then have "process_entries arch flavor ((pre @ e1 # mid) @ e2 # post) Map.empty =
      Inl (Die (''package set '' @ entry_name e2 @ '' is already defined''))"
    by (simp only: process_entries_append [of arch flavor "pre @ e1 # mid"] Inr sum.case)
  then show ?thesis using decl Inr by (simp add: create_package_set_def)
qed

lemma process_entry_errors_fresh:
  assumes fresh: "\<not> instantiated ps (entry_name e)" and err: "process_entry arch flavor e ps = Inl err"
  shows "\<exists>x. err = Die (''package set '' @ x @ '' does not exist'')"
proof -
  define name where "name = entry_name e"
  define p where "p = new_pkgset e name"
  define s where "s = (ps(name \<mapsto> Some p), p)"
  from err fresh have active: "\<not> skipped arch flavor e" by (auto simp: process_entry_def Let_def)
  from err process_entry_active [OF fresh active]
  have "map_sum id fst (apply_setops [''add'', ''sub'', ''intersect''] e name s) = Inl err"
    by (simp add: name_def p_def s_def)
  then have e: "apply_setops [''add'', ''sub'', ''intersect''] e name s = Inl err"
    by (cases "apply_setops [''add'', ''sub'', ''intersect''] e name s") auto
  have "name \<in> dom (fst s)" by (simp add: s_def)
  from apply_setops_error [OF e _ this] show ?thesis by auto
qed

lemma messages_differ:
  "''package set '' @ x @ '' does not exist'' \<noteq> ''package set '' @ x' @ '' is already defined''"
proof
  assume "''package set '' @ x @ '' does not exist'' = ''package set '' @ x' @ '' is already defined''"
  then have "x @ '' does not exist'' = x' @ '' is already defined''" by simp
  then have "last (x @ '' does not exist'') = last (x' @ '' is already defined'')" by (rule arg_cong)
  then show False by simp
qed

text \<open>
  C8, as stated: declaring two packageset entries with the same name (the implicit name
  \<^verbatim>\<open>main\<close> included) is a fatal configuration error. The test of the code is
  \<^verbatim>\<open>name in pkgsets and pkgsets[name] is not None\<close>: an earlier entry of that name that was
  skipped for the architecture or the flavor leaves \<open>None\<close> behind, which does not count.
  Here the first entry \<^verbatim>\<open>main\<close> is restricted to x86_64, the second has no name, and the
  set for aarch64 is built from the second without any error.
\<close>

theorem duplicate_name_counterexample:
  "create_package_set
     (plain_yml [(plain_entry (Some ''main'') [''foo''])\<lparr>ent_architectures := Some [''x86_64'']\<rparr>,
                 plain_entry None [''bar'']])
     ''aarch64'' None ''main''
   = Inr \<lparr>set_name = ''main'', elements = [(''bar'', plain_sel ''bar'')], set_supportstatus = None\<rparr>"
  by (simp add: eval_defs)

text \<open>
  C8, amended: let the entries before an entry be processed without error. Declaring the
  entry is the fatal, immediate configuration error \<^verbatim>\<open>package set NAME is already defined\<close>
  of \<^verbatim>\<open>create_package_set\<close>, whatever follows the entry, when its name (the implicit name
  \<^verbatim>\<open>main\<close> included) is instantiated; and a name is instantiated exactly when an earlier
  entry that is not skipped for the architecture and the flavor has declared it or has
  named it as an operand of \<^verbatim>\<open>add\<close>, \<^verbatim>\<open>sub\<close> or \<^verbatim>\<open>intersect\<close>. When the name is not
  instantiated (it was never declared, or only by skipped entries and no evaluated entry
  has used it as an operand), declaring the entry does not raise this error. Without the
  proviso on the earlier entries: after an entry that is not skipped, a later entry of
  the same name makes \<^verbatim>\<open>create_package_set\<close> fail, with this error if all entries before
  the later one are processed without error, and nothing after the later one is looked
  at.
\<close>

theorem duplicate_name_fatal:
  "(process_entries arch flavor pre Map.empty = Inr pkgsets \<longrightarrow>
      (instantiated pkgsets n \<longleftrightarrow>
         (\<exists>e'\<in>set pre. \<not> skipped arch flavor e' \<and> (entry_name e' = n \<or> n \<in> set (operands e'))))
      \<and> (packagesets y = Some (pre @ e # post) \<and> instantiated pkgsets (entry_name e) \<longrightarrow>
           create_package_set y arch flavor setname
           = Inl (Die (''package set '' @ entry_name e @ '' is already defined'')))
      \<and> (\<not> instantiated pkgsets (entry_name e) \<longrightarrow>
           process_entry arch flavor e pkgsets \<noteq> Inl (Die (''package set '' @ x @ '' is already defined''))))
   \<and> (packagesets yb = Some (preb @ ea # mid @ eb # postb) \<and> entry_name ea = entry_name eb
        \<and> \<not> skipped archb flavorb ea \<longrightarrow>
      create_package_set yb archb flavorb setnameb
      = (case process_entries archb flavorb (preb @ ea # mid) Map.empty of
           Inl err \<Rightarrow> Inl err
         | Inr ps \<Rightarrow> Inl (Die (''package set '' @ entry_name eb @ '' is already defined''))))"
proof (intro conjI impI)
  assume pre: "process_entries arch flavor pre Map.empty = Inr pkgsets"
  from process_entries_inst_iff [OF pre, of n]
  show "instantiated pkgsets n \<longleftrightarrow>
         (\<exists>e'\<in>set pre. \<not> skipped arch flavor e' \<and> (entry_name e' = n \<or> n \<in> set (operands e')))"
    by (simp add: instantiated_def)
next
  assume pre: "process_entries arch flavor pre Map.empty = Inr pkgsets"
    and a: "packagesets y = Some (pre @ e # post) \<and> instantiated pkgsets (entry_name e)"
  from a have "process_entry arch flavor e pkgsets
      = Inl (Die (''package set '' @ entry_name e @ '' is already defined''))"
    by (simp add: process_entry_redeclared)
  from create_package_set_at_entry [OF pre _ this] a
  show "create_package_set y arch flavor setname
           = Inl (Die (''package set '' @ entry_name e @ '' is already defined''))"
    by blast
next
  assume pre: "process_entries arch flavor pre Map.empty = Inr pkgsets"
    and fresh: "\<not> instantiated pkgsets (entry_name e)"
  show "process_entry arch flavor e pkgsets \<noteq> Inl (Die (''package set '' @ x @ '' is already defined''))"
  proof
    assume "process_entry arch flavor e pkgsets = Inl (Die (''package set '' @ x @ '' is already defined''))"
    from process_entry_errors_fresh [OF fresh this] messages_differ show False by auto
  qed
next
  assume "packagesets yb = Some (preb @ ea # mid @ eb # postb) \<and> entry_name ea = entry_name eb
        \<and> \<not> skipped archb flavorb ea"
  then show "create_package_set yb archb flavorb setnameb
      = (case process_entries archb flavorb (preb @ ea # mid) Map.empty of
           Inl err \<Rightarrow> Inl err
         | Inr ps \<Rightarrow> Inl (Die (''package set '' @ entry_name eb @ '' is already defined'')))"
    using duplicate_after_active_entry [of yb preb ea mid eb postb archb flavorb setnameb] by blast
qed

text \<open>For aarch64 the set \<^verbatim>\<open>base\<close> is skipped. Declared again right away, it is accepted;
  declared again after \<^verbatim>\<open>main\<close> has added it, it is already defined.\<close>

lemma base_main_sample:
  "process_entries ''aarch64'' None
     [(plain_entry (Some ''base'') [''bar''])\<lparr>ent_architectures := Some [''x86_64'']\<rparr>,
      (plain_entry None [''foo''])\<lparr>ent_keys := [(''add'', [''base''])]\<rparr>] Map.empty
   = Inr [''base'' \<mapsto> Some (PkgSet ''base''),
          ''main'' \<mapsto> Some (pkgset_add (new_pkgset ((plain_entry None [''foo''])\<lparr>ent_keys := [(''add'', [''base''])]\<rparr>) ''main'')
                              (PkgSet ''base''))]"
  by (simp add: process_entry_def entry_name_def skipped_def instantiated_def plain_entry_def Let_def
      fun_eq_iff)

theorem duplicate_name_fatal_witness:
  "process_entries ''aarch64'' None
     [(plain_entry (Some ''base'') [''bar''])\<lparr>ent_architectures := Some [''x86_64'']\<rparr>,
      (plain_entry None [''foo''])\<lparr>ent_keys := [(''add'', [''base''])]\<rparr>] Map.empty
   = Inr [''base'' \<mapsto> Some (PkgSet ''base''),
          ''main'' \<mapsto> Some (pkgset_add (new_pkgset ((plain_entry None [''foo''])\<lparr>ent_keys := [(''add'', [''base''])]\<rparr>) ''main'')
                              (PkgSet ''base''))]
   \<and> instantiated [''base'' \<mapsto> Some (PkgSet ''base''),
          ''main'' \<mapsto> Some (pkgset_add (new_pkgset ((plain_entry None [''foo''])\<lparr>ent_keys := [(''add'', [''base''])]\<rparr>) ''main'')
                              (PkgSet ''base''))] ''base''
   \<and> create_package_set
        (plain_yml [(plain_entry (Some ''base'') [''bar''])\<lparr>ent_architectures := Some [''x86_64'']\<rparr>,
                    (plain_entry None [''foo''])\<lparr>ent_keys := [(''add'', [''base''])]\<rparr>,
                    plain_entry (Some ''base'') [''baz'']])
        ''aarch64'' None ''main''
      = Inl (Die ''package set base is already defined'')
   \<and> process_entries ''aarch64'' None
        [(plain_entry (Some ''base'') [''bar''])\<lparr>ent_architectures := Some [''x86_64'']\<rparr>] Map.empty
      = Inr [''base'' \<mapsto> None]
   \<and> \<not> instantiated [''base'' \<mapsto> None] ''base''
   \<and> process_entry ''aarch64'' None (plain_entry (Some ''base'') [''baz'']) [''base'' \<mapsto> None]
      \<noteq> Inl (Die ''package set base is already defined'')
   \<and> create_package_set (plain_yml [plain_entry (Some ''main'') [''foo''], plain_entry None [''bar'']])
        ''x86_64'' None ''main''
      = Inl (Die ''package set main is already defined'')"
proof -
  let ?b = "(plain_entry (Some ''base'') [''bar''])\<lparr>ent_architectures := Some [''x86_64'']\<rparr>"
  let ?m = "(plain_entry None [''foo''])\<lparr>ent_keys := [(''add'', [''base''])]\<rparr>"
  let ?b2 = "plain_entry (Some ''base'') [''baz'']"
  let ?ps = "[''base'' \<mapsto> Some (PkgSet ''base''),
      ''main'' \<mapsto> Some (pkgset_add (new_pkgset ?m ''main'') (PkgSet ''base''))]"
  let ?y = "plain_yml [?b, ?m, ?b2]"
  let ?y2 = "plain_yml [plain_entry (Some ''main'') [''foo''], plain_entry None [''bar'']]"
  have nb: "entry_name ?b2 = ''base''" by (simp add: entry_name_def plain_entry_def)
  have h2: "packagesets ?y = Some ([?b, ?m] @ ?b2 # [])" by (simp add: plain_yml_def)
  have h3: "process_entries ''aarch64'' None [?b] Map.empty = Inr [''base'' \<mapsto> None]"
    by (simp add: process_entry_def entry_name_def skipped_def instantiated_def plain_entry_def Let_def)
  have h4: "\<not> skipped ''aarch64'' None ?m \<and> ''base'' \<in> set (operands ?m)"
    by (simp add: skipped_def plain_entry_def operands_def)
  have h5: "packagesets ?y2 = Some ([] @ plain_entry (Some ''main'') [''foo''] # [] @ plain_entry None [''bar''] # [])
      \<and> entry_name (plain_entry (Some ''main'') [''foo'']) = entry_name (plain_entry None [''bar''])
      \<and> \<not> skipped ''x86_64'' None (plain_entry (Some ''main'') [''foo''])"
    by (simp add: plain_yml_def entry_name_def skipped_def plain_entry_def)
  have h6: "process_entries ''x86_64'' None ([] @ plain_entry (Some ''main'') [''foo''] # []) Map.empty
      = Inr [''main'' \<mapsto> Some (new_pkgset (plain_entry (Some ''main'') [''foo'']) ''main'')]"
    by (simp add: process_entry_def entry_name_def skipped_def instantiated_def plain_entry_def Let_def)
  note t1 = duplicate_name_fatal [where arch = "''aarch64''" and flavor = None and pre = "[?b, ?m]"
      and pkgsets = ?ps and n = "''base''" and y = ?y and e = ?b2 and post = "[]" and setname = "''main''"]
  note t2 = duplicate_name_fatal [where arch = "''aarch64''" and flavor = None and pre = "[?b]"
      and pkgsets = "[''base'' \<mapsto> None]" and n = "''base''" and e = ?b2 and x = "''base''"
      and yb = ?y2 and preb = "[]" and ea = "plain_entry (Some ''main'') [''foo'']" and mid = "[]"
      and eb = "plain_entry None [''bar'']" and postb = "[]" and archb = "''x86_64''" and flavorb = None
      and setnameb = "''main''"]
  from t1 base_main_sample h4 have i1: "instantiated ?ps ''base''" by auto
  from t1 base_main_sample h2 i1 nb
  have c1: "create_package_set ?y ''aarch64'' None ''main'' = Inl (Die ''package set base is already defined'')"
    by simp
  from t2 h3 have i2: "\<not> instantiated [''base'' \<mapsto> None] ''base''"
    by (simp add: skipped_def plain_entry_def)
  from t2 h3 i2 nb
  have c2: "process_entry ''aarch64'' None ?b2 [''base'' \<mapsto> None] \<noteq> Inl (Die ''package set base is already defined'')"
    by simp
  from t2 h5 h6
  have c3: "create_package_set ?y2 ''x86_64'' None ''main'' = Inl (Die ''package set main is already defined'')"
    by (simp add: entry_name_def plain_entry_def)
  from base_main_sample i1 c1 h3 i2 c2 c3 show ?thesis by blast
qed

section \<open>Linking\<close>

subsection \<open>What linking leaves alone\<close>

lemma link_file_fs:
  "fs st q = Some n \<Longrightarrow> fs (link_file_into_dir f d st) q = Some n"
  by (auto simp: link_file_into_dir_def Let_def exists_def)

lemma link_file_frame [simp]:
  "tree_report (link_file_into_dir f d st) = tree_report st"
  "supportstatus (link_file_into_dir f d st) = supportstatus st"
  "supportstatus_override (link_file_into_dir f d st) = supportstatus_override st"
  "warnings (link_file_into_dir f d st) = warnings st"
  "unpacked (link_file_into_dir f d st) = unpacked st"
  by (simp_all add: link_file_into_dir_def Let_def)

lemma link_file_exists:
  "exists (link_file_into_dir f d st) (d @ ''/'' @ basename f)"
  by (auto simp: link_file_into_dir_def Let_def exists_def)

lemma add_entry_frame [simp]:
  "fs (add_entry_to_report e p st) = fs st"
  "supportstatus (add_entry_to_report e p st) = supportstatus st"
  "supportstatus_override (add_entry_to_report e p st) = supportstatus_override st"
  "warnings (add_entry_to_report e p st) = warnings st"
  "unpacked (add_entry_to_report e p st) = unpacked st"
  by (simp_all add: add_entry_to_report_def)

lemma add_entry_present:
  "map_of (tree_report st) p = Some e0 \<Longrightarrow> add_entry_to_report e p st = st"
  by (auto simp: add_entry_to_report_def map_of_eq_None_iff [symmetric])

lemma add_entry_absent:
  "map_of (tree_report st) p = None \<Longrightarrow> map_of (tree_report (add_entry_to_report e p st)) p = Some e"
proof -
  assume a: "map_of (tree_report st) p = None"
  then have "p \<notin> fst ` set (tree_report st)" by (simp add: map_of_eq_None_iff)
  with a show ?thesis by (simp add: add_entry_to_report_def map_add_def)
qed

lemma add_entry_keeps:
  "map_of (tree_report st) q = Some e0 \<Longrightarrow> map_of (tree_report (add_entry_to_report e p st)) q = Some e0"
  by (auto simp: add_entry_to_report_def map_add_def split: option.splits)

lemma link_entry_noop:
  "exists st (outname_of e dir) \<Longrightarrow> link_entry_into_dir e dir slsa st = st"
  by (simp add: link_entry_into_dir_def Let_def)

lemma link_entry_fs:
  "fs st q = Some n \<Longrightarrow> fs (link_entry_into_dir e dir slsa st) q = Some n"
  by (auto simp: link_entry_into_dir_def Let_def link_file_fs)

lemma link_entry_report:
  "map_of (tree_report st) q = Some e0 \<Longrightarrow>
   map_of (tree_report (link_entry_into_dir e dir slsa st)) q = Some e0"
  by (auto simp: link_entry_into_dir_def Let_def add_entry_keeps)

lemma link_entry_frame [simp]:
  "supportstatus (link_entry_into_dir e dir slsa st) = supportstatus st"
  "supportstatus_override (link_entry_into_dir e dir slsa st) = supportstatus_override st"
  "warnings (link_entry_into_dir e dir slsa st) = warnings st"
  "unpacked (link_entry_into_dir e dir slsa st) = unpacked st"
  by (simp_all add: link_entry_into_dir_def Let_def)

lemma link_entry_exists:
  "exists (link_entry_into_dir e dir slsa st) (outname_of e dir)"
proof (cases "exists st (outname_of e dir)")
  case True
  then show ?thesis by (simp add: link_entry_noop)
next
  case False
  have "exists (link_file_into_dir (pkg_location e) (dir @ ''/'' @ pkg_arch e) st) (outname_of e dir)"
    using link_file_exists [of "pkg_location e" "dir @ ''/'' @ pkg_arch e" st]
    by (simp add: outname_of_def)
  then obtain n where
    "fs (link_file_into_dir (pkg_location e) (dir @ ''/'' @ pkg_arch e) st) (outname_of e dir) = Some n"
    by (auto simp: exists_def)
  with False show ?thesis
    by (auto simp: link_entry_into_dir_def Let_def exists_def link_file_fs)
qed

lemma link_entry_first:
  assumes "\<not> exists st (outname_of e dir)" and "map_of (tree_report st) (outname_of e dir) = None"
  shows "map_of (tree_report (link_entry_into_dir e dir slsa st)) (outname_of e dir) = Some e"
  using assms by (auto simp: link_entry_into_dir_def Let_def add_entry_absent)

lemma link_entries_fs:
  "fs st q = Some n \<Longrightarrow> fs (fold (\<lambda>(e, dir). link_entry_into_dir e dir slsa) later st) q = Some n"
  by (induction later arbitrary: st) (auto simp: link_entry_fs)

lemma link_entries_report:
  "map_of (tree_report st) q = Some e0 \<Longrightarrow>
   map_of (tree_report (fold (\<lambda>(e, dir). link_entry_into_dir e dir slsa) later st)) q = Some e0"
  by (induction later arbitrary: st) (auto simp: link_entry_report)

subsection \<open>First writer wins\<close>

text \<open>
  C3: the provenance manifest obeys first-writer-wins. Registering a package for a path
  that the manifest already has changes nothing, and for a path it does not have records
  that package. \<^verbatim>\<open>link_entry_into_dir\<close> is a no-op when the output path exists; when the path
  neither exists nor is in the manifest, it creates the path and records the package.
  Afterwards no later link attempt, whatever the package and the directory, changes the
  file system entry of a path that exists or the manifest entry of a path that is
  recorded.
\<close>

theorem first_writer_wins:
  "(map_of (tree_report st) p = Some e0 \<longrightarrow> add_entry_to_report e p st = st)
   \<and> (map_of (tree_report st) p = None \<longrightarrow>
        map_of (tree_report (add_entry_to_report e p st)) p = Some e)
   \<and> (exists st (outname_of e dir) \<longrightarrow> link_entry_into_dir e dir slsa st = st)
   \<and> (\<not> exists st (outname_of e dir) \<and> map_of (tree_report st) (outname_of e dir) = None \<longrightarrow>
        map_of (tree_report (link_entry_into_dir e dir slsa st)) (outname_of e dir) = Some e
        \<and> exists (link_entry_into_dir e dir slsa st) (outname_of e dir))
   \<and> (fs st q = Some n \<longrightarrow>
        fs (link_file_into_dir f d st) q = Some n
        \<and> fs (fold (\<lambda>(e, dir). link_entry_into_dir e dir slsa) later st) q = Some n)
   \<and> (map_of (tree_report st) q = Some e0 \<longrightarrow>
        map_of (tree_report (fold (\<lambda>(e, dir). link_entry_into_dir e dir slsa) later st)) q = Some e0)"
  by (simp add: add_entry_present add_entry_absent link_entry_noop link_entry_first link_entry_exists
      link_file_fs link_entries_fs link_entries_report)


text \<open>Two builds of \<^verbatim>\<open>foo\<close> whose files have the same name: the first is linked into an
  empty tree, the second finds the output path taken.\<close>

lemma outname_sample:
  "outname_of (plain_pkg n v ''x86_64'' (''repos/'' @ [c] @ ''/foo.rpm'')) ''out'' = ''out/x86_64/foo.rpm''"
  by (simp add: outname_of_def basename_def plain_pkg_def)

lemma link_sample:
  "link_entry_into_dir (plain_pkg ''foo'' ''1.0'' ''x86_64'' ''repos/a/foo.rpm'') ''out'' False empty_state
   = \<lparr>fs = [''out/x86_64'' \<mapsto> Dir, ''out/x86_64/foo.rpm'' \<mapsto> HardLink ''repos/a/foo.rpm''],
       tree_report = [(''out/x86_64/foo.rpm'', plain_pkg ''foo'' ''1.0'' ''x86_64'' ''repos/a/foo.rpm'')],
       supportstatus = Map.empty, supportstatus_override = Map.empty, warnings = [], unpacked = []\<rparr>"
  using outname_sample [of "''foo''" "''1.0''" "CHR ''a''"]
  by (simp add: link_entry_into_dir_def link_file_into_dir_def add_entry_to_report_def exists_def
      islink_def empty_state_def Let_def) (simp add: plain_pkg_def basename_def)

theorem first_writer_wins_witness:
  "\<not> exists empty_state (outname_of (plain_pkg ''foo'' ''1.0'' ''x86_64'' ''repos/a/foo.rpm'') ''out'')
   \<and> map_of (tree_report empty_state) (outname_of (plain_pkg ''foo'' ''1.0'' ''x86_64'' ''repos/a/foo.rpm'') ''out'') = None
   \<and> map_of (tree_report (link_entry_into_dir (plain_pkg ''foo'' ''1.0'' ''x86_64'' ''repos/a/foo.rpm'') ''out'' False empty_state))
         ''out/x86_64/foo.rpm'' = Some (plain_pkg ''foo'' ''1.0'' ''x86_64'' ''repos/a/foo.rpm'')
   \<and> fs (link_entry_into_dir (plain_pkg ''foo'' ''1.0'' ''x86_64'' ''repos/a/foo.rpm'') ''out'' False empty_state)
         ''out/x86_64/foo.rpm'' = Some (HardLink ''repos/a/foo.rpm'')
   \<and> exists (link_entry_into_dir (plain_pkg ''foo'' ''1.0'' ''x86_64'' ''repos/a/foo.rpm'') ''out'' False empty_state)
         (outname_of (plain_pkg ''foo'' ''1.1'' ''x86_64'' ''repos/b/foo.rpm'') ''out'')
   \<and> link_entry_into_dir (plain_pkg ''foo'' ''1.1'' ''x86_64'' ''repos/b/foo.rpm'') ''out'' False
         (link_entry_into_dir (plain_pkg ''foo'' ''1.0'' ''x86_64'' ''repos/a/foo.rpm'') ''out'' False empty_state)
       = link_entry_into_dir (plain_pkg ''foo'' ''1.0'' ''x86_64'' ''repos/a/foo.rpm'') ''out'' False empty_state
   \<and> add_entry_to_report (plain_pkg ''foo'' ''1.1'' ''x86_64'' ''repos/b/foo.rpm'') ''out/x86_64/foo.rpm''
         (link_entry_into_dir (plain_pkg ''foo'' ''1.0'' ''x86_64'' ''repos/a/foo.rpm'') ''out'' False empty_state)
       = link_entry_into_dir (plain_pkg ''foo'' ''1.0'' ''x86_64'' ''repos/a/foo.rpm'') ''out'' False empty_state
   \<and> map_of (tree_report (fold (\<lambda>(e, dir). link_entry_into_dir e dir False)
           [(plain_pkg ''foo'' ''1.1'' ''x86_64'' ''repos/b/foo.rpm'', ''out'')]
           (link_entry_into_dir (plain_pkg ''foo'' ''1.0'' ''x86_64'' ''repos/a/foo.rpm'') ''out'' False empty_state)))
         ''out/x86_64/foo.rpm'' = Some (plain_pkg ''foo'' ''1.0'' ''x86_64'' ''repos/a/foo.rpm'')
   \<and> fs (fold (\<lambda>(e, dir). link_entry_into_dir e dir False)
           [(plain_pkg ''foo'' ''1.1'' ''x86_64'' ''repos/b/foo.rpm'', ''out'')]
           (link_entry_into_dir (plain_pkg ''foo'' ''1.0'' ''x86_64'' ''repos/a/foo.rpm'') ''out'' False empty_state))
         ''out/x86_64/foo.rpm'' = Some (HardLink ''repos/a/foo.rpm'')"
proof -
  let ?A = "plain_pkg ''foo'' ''1.0'' ''x86_64'' ''repos/a/foo.rpm''"
  let ?B = "plain_pkg ''foo'' ''1.1'' ''x86_64'' ''repos/b/foo.rpm''"
  let ?S = "link_entry_into_dir ?A ''out'' False empty_state"
  have oa: "outname_of ?A ''out'' = ''out/x86_64/foo.rpm''"
    using outname_sample [of "''foo''" "''1.0''" "CHR ''a''"] by simp
  have ob: "outname_of ?B ''out'' = ''out/x86_64/foo.rpm''"
    using outname_sample [of "''foo''" "''1.1''" "CHR ''b''"] by simp
  have h1: "\<not> exists empty_state (outname_of ?A ''out'')
      \<and> map_of (tree_report empty_state) (outname_of ?A ''out'') = None"
    by (simp add: exists_def empty_state_def)
  have h3: "fs ?S ''out/x86_64/foo.rpm'' = Some (HardLink ''repos/a/foo.rpm'')"
    by (simp add: link_sample)
  from h3 have h4: "exists ?S (outname_of ?B ''out'')" by (simp add: exists_def ob)
  note first = first_writer_wins [where st = empty_state and e = ?A and dir = "''out''" and slsa = False]
  note again = first_writer_wins [where st = ?S and e = ?B and ?e0.0 = ?A and dir = "''out''"
      and slsa = False and p = "''out/x86_64/foo.rpm''" and q = "''out/x86_64/foo.rpm''"
      and n = "HardLink ''repos/a/foo.rpm''" and later = "[(?B, ''out'')]"]
  from first h1 oa have h2: "map_of (tree_report ?S) ''out/x86_64/foo.rpm'' = Some ?A" by simp
  from again h2 h3 h4 have
    "link_entry_into_dir ?B ''out'' False ?S = ?S"
    "add_entry_to_report ?B ''out/x86_64/foo.rpm'' ?S = ?S"
    "map_of (tree_report (fold (\<lambda>(e, dir). link_entry_into_dir e dir False) [(?B, ''out'')] ?S))
         ''out/x86_64/foo.rpm'' = Some ?A"
    "fs (fold (\<lambda>(e, dir). link_entry_into_dir e dir False) [(?B, ''out'')] ?S)
         ''out/x86_64/foo.rpm'' = Some (HardLink ''repos/a/foo.rpm'')"
    by blast+
  with h1 h2 h3 h4 show ?thesis by blast
qed

section \<open>The resolution loop\<close>

subsection \<open>One package\<close>

lemma link_debug_frame [simp]:
  "supportstatus (link_debug slsa pl arch dd srcrpm rpm st) = supportstatus st"
  "supportstatus_override (link_debug slsa pl arch dd srcrpm rpm st) = supportstatus_override st"
  "warnings (link_debug slsa pl arch dd srcrpm rpm st) = warnings st"
  "unpacked (link_debug slsa pl arch dd srcrpm rpm st) = unpacked st"
  by (simp_all add: link_debug_def Let_def split: option.splits)

lemma link_debug_fs:
  "fs st q = Some n \<Longrightarrow> fs (link_debug slsa pl arch dd srcrpm rpm st) q = Some n"
  by (auto simp: link_debug_def Let_def link_entry_fs split: option.splits)

lemma link_debug_report:
  "map_of (tree_report st) q = Some e0 \<Longrightarrow>
   map_of (tree_report (link_debug slsa pl arch dd srcrpm rpm st)) q = Some e0"
  by (auto simp: link_debug_def Let_def link_entry_report split: option.splits)

lemma warn_frame [simp]:
  "fs (warn m st) = fs st"
  "tree_report (warn m st) = tree_report st"
  "supportstatus (warn m st) = supportstatus st"
  "supportstatus_override (warn m st) = supportstatus_override st"
  "warnings (warn m st) = warnings st @ [m]"
  "unpacked (warn m st) = unpacked st"
  by (simp_all add: warn_def)

lemma link_rpm_missing:
  "snd (link_rpm slsa pl arch rpmdir debugdir sourcedir sel rpm (st, missing))
   = (missing \<or> source_missing pl sourcedir rpm)"
  by (auto simp: link_rpm_def source_missing_def truthy_def Let_def split: option.splits prod.splits)

lemma link_rpm_warnings:
  "warnings (fst (link_rpm slsa pl arch rpmdir debugdir sourcedir sel rpm (st, missing)))
   = warnings st @
     (case pkg_src rpm of
        None \<Rightarrow> [Warn_no_source rpm]
      | Some srcrpm \<Rightarrow> if source_missing pl sourcedir rpm then [Warn_source_not_found srcrpm rpm] else [])"
  by (auto simp: link_rpm_def source_missing_def truthy_def Let_def split: option.splits prod.splits)

lemma link_rpm_supportstatus:
  "supportstatus (fst (link_rpm slsa pl arch rpmdir debugdir sourcedir sel rpm (st, missing)))
   = (supportstatus st)(pkg_name rpm \<mapsto>
        (case supportstatus_override st (pkg_name rpm) of
           Some s \<Rightarrow> Some s
         | None \<Rightarrow> sel_supportstatus sel))"
  by (auto simp: link_rpm_def Let_def split: option.splits prod.splits)

lemma link_rpm_override:
  "supportstatus_override (fst (link_rpm slsa pl arch rpmdir debugdir sourcedir sel rpm (st, missing)))
   = supportstatus_override st"
  by (auto simp: link_rpm_def Let_def split: option.splits prod.splits)

lemma link_rpm_fs:
  "fs st q = Some n \<Longrightarrow>
   fs (fst (link_rpm slsa pl arch rpmdir debugdir sourcedir sel rpm (st, missing))) q = Some n"
  by (auto simp: link_rpm_def Let_def link_entry_fs link_debug_fs split: option.splits prod.splits)

lemma link_rpm_report:
  "map_of (tree_report st) q = Some e0 \<Longrightarrow>
   map_of (tree_report (fst (link_rpm slsa pl arch rpmdir debugdir sourcedir sel rpm (st, missing)))) q = Some e0"
  by (auto simp: link_rpm_def Let_def link_entry_report link_debug_report split: option.splits prod.splits)

subsection \<open>The loops over the packages and the selectors\<close>

lemma link_rpm_pair:
  "link_rpm slsa pl arch rpmdir dd sd sel rpm (st, m)
   = (fst (link_rpm slsa pl arch rpmdir dd sd sel rpm (st, m)), m \<or> source_missing pl sd rpm)"
  by (simp add: prod_eq_iff link_rpm_missing)

lemma fold_link_rpm_missing:
  "snd (fold (link_rpm slsa pl arch rpmdir dd sd sel) rpms (st, m))
   = (m \<or> (\<exists>rpm\<in>set rpms. source_missing pl sd rpm))"
proof (induction rpms arbitrary: st m)
  case Nil
  then show ?case by simp
next
  case (Cons rpm rpms)
  have "fold (link_rpm slsa pl arch rpmdir dd sd sel) (rpm # rpms) (st, m)
      = fold (link_rpm slsa pl arch rpmdir dd sd sel) rpms
          (fst (link_rpm slsa pl arch rpmdir dd sd sel rpm (st, m)), m \<or> source_missing pl sd rpm)"
    using link_rpm_pair [of slsa pl arch rpmdir dd sd sel rpm st m] by simp
  with Cons.IH show ?case by auto
qed

lemma fold_link_rpm_pres:
  assumes pres: "\<And>rpm st m. P st \<Longrightarrow> P (fst (link_rpm slsa pl arch rpmdir dd sd sel rpm (st, m)))"
  shows "P st \<Longrightarrow> P (fst (fold (link_rpm slsa pl arch rpmdir dd sd sel) rpms (st, m)))"
proof (induction rpms arbitrary: st m)
  case Nil
  then show ?case by simp
next
  case (Cons rpm rpms)
  have "fold (link_rpm slsa pl arch rpmdir dd sd sel) (rpm # rpms) (st, m)
      = fold (link_rpm slsa pl arch rpmdir dd sd sel) rpms
          (fst (link_rpm slsa pl arch rpmdir dd sd sel rpm (st, m)), m \<or> source_missing pl sd rpm)"
    using link_rpm_pair [of slsa pl arch rpmdir dd sd sel rpm st m] by simp
  with Cons.IH [OF pres [OF Cons.prems]] show ?case by simp
qed

lemma fold_link_rpm_est:
  assumes pres: "\<And>rpm st m. P st \<Longrightarrow> P (fst (link_rpm slsa pl arch rpmdir dd sd sel rpm (st, m)))"
    and est: "\<And>st m. P (fst (link_rpm slsa pl arch rpmdir dd sd sel rpm0 (st, m)))"
  shows "rpm0 \<in> set rpms \<Longrightarrow> P (fst (fold (link_rpm slsa pl arch rpmdir dd sd sel) rpms (st, m)))"
proof (induction rpms arbitrary: st m)
  case Nil
  then show ?case by simp
next
  case (Cons rpm rpms)
  have step: "fold (link_rpm slsa pl arch rpmdir dd sd sel) (rpm # rpms) (st, m)
      = fold (link_rpm slsa pl arch rpmdir dd sd sel) rpms
          (fst (link_rpm slsa pl arch rpmdir dd sd sel rpm (st, m)), m \<or> source_missing pl sd rpm)"
    using link_rpm_pair [of slsa pl arch rpmdir dd sd sel rpm st m] by simp
  show ?case
  proof (cases "rpm0 = rpm")
    case True
    have "P (fst (link_rpm slsa pl arch rpmdir dd sd sel rpm (st, m)))"
      using est True by simp
    from fold_link_rpm_pres [of P slsa pl arch rpmdir dd sd sel, OF pres this] step
    show ?thesis by simp
  next
    case False
    with Cons.prems have "rpm0 \<in> set rpms" by simp
    from Cons.IH [OF this] step show ?thesis by simp
  qed
qed

lemma link_rpm_not_found:
  "filter is_not_found_for (warnings (fst (link_rpm slsa pl arch rpmdir dd sd sel rpm (st, m))))
   = filter is_not_found_for (warnings st)"
  by (simp add: link_rpm_warnings split: option.splits)

lemma fold_link_rpm_not_found:
  "filter is_not_found_for (warnings (fst (fold (link_rpm slsa pl arch rpmdir dd sd sel) rpms (st, m))))
   = filter is_not_found_for (warnings st)"
  using fold_link_rpm_pres [of "\<lambda>s. filter is_not_found_for (warnings s) = filter is_not_found_for (warnings st)"
      slsa pl arch rpmdir dd sd sel st rpms m]
  by (simp add: link_rpm_not_found)

lemma link_sel_pair:
  "link_sel sm slsa pl arch rpmdir dd sd sel (st, m)
   = (fst (link_sel sm slsa pl arch rpmdir dd sd sel (st, m)),
      m \<or> lookup_sel sm pl arch sel = [] \<or> (\<exists>rpm\<in>set (lookup_sel sm pl arch sel). source_missing pl sd rpm))"
proof -
  have "snd (link_sel sm slsa pl arch rpmdir dd sd sel (st, m))
      = (m \<or> lookup_sel sm pl arch sel = [] \<or> (\<exists>rpm\<in>set (lookup_sel sm pl arch sel). source_missing pl sd rpm))"
    by (auto simp: link_sel_def Let_def fold_link_rpm_missing)
  then show ?thesis by (simp add: prod_eq_iff)
qed

lemma link_sel_not_found:
  "filter is_not_found_for (warnings (fst (link_sel sm slsa pl arch rpmdir dd sd sel (st, m))))
   = filter is_not_found_for (warnings st)
     @ (if lookup_sel sm pl arch sel = [] then [Warn_not_found_for sel arch] else [])"
  by (simp add: link_sel_def Let_def fold_link_rpm_not_found)

lemma link_sel_pres:
  assumes pres: "\<And>sel rpm st m. P st \<Longrightarrow> P (fst (link_rpm slsa pl arch rpmdir dd sd sel rpm (st, m)))"
    and wpres: "\<And>w st. P st \<Longrightarrow> P (warn w st)"
  shows "P st \<Longrightarrow> P (fst (link_sel sm slsa pl arch rpmdir dd sd sel (st, m)))"
  using fold_link_rpm_pres [of P slsa pl arch rpmdir dd sd sel st "lookup_sel sm pl arch sel" m] pres wpres
  by (simp add: link_sel_def Let_def)

lemma link_sel_est:
  assumes pres: "\<And>sel rpm st m. P st \<Longrightarrow> P (fst (link_rpm slsa pl arch rpmdir dd sd sel rpm (st, m)))"
    and est: "\<And>st m. P (fst (link_rpm slsa pl arch rpmdir dd sd sel rpm0 (st, m)))"
    and rpm0: "rpm0 \<in> set (lookup_sel sm pl arch sel)"
  shows "P (fst (link_sel sm slsa pl arch rpmdir dd sd sel (st, m)))"
proof -
  from rpm0 have ne: "lookup_sel sm pl arch sel \<noteq> []" by auto
  from fold_link_rpm_est [of P slsa pl arch rpmdir dd sd sel rpm0 "lookup_sel sm pl arch sel" st m,
      OF pres est rpm0] ne
  show ?thesis by (simp add: link_sel_def Let_def)
qed

lemma fold_link_sel_step:
  "fold (link_sel sm slsa pl arch rpmdir dd sd) (sel # sels) (st, m)
   = fold (link_sel sm slsa pl arch rpmdir dd sd) sels
       (fst (link_sel sm slsa pl arch rpmdir dd sd sel (st, m)),
        m \<or> lookup_sel sm pl arch sel = [] \<or> (\<exists>rpm\<in>set (lookup_sel sm pl arch sel). source_missing pl sd rpm))"
  using link_sel_pair [of sm slsa pl arch rpmdir dd sd sel st m] by simp

lemma fold_link_sel_missing:
  "snd (fold (link_sel sm slsa pl arch rpmdir dd sd) sels (st, m))
   = (m \<or> (\<exists>sel\<in>set sels. lookup_sel sm pl arch sel = []
                \<or> (\<exists>rpm\<in>set (lookup_sel sm pl arch sel). source_missing pl sd rpm)))"
proof (induction sels arbitrary: st m)
  case Nil
  then show ?case by simp
next
  case (Cons sel sels)
  show ?case
    unfolding fold_link_sel_step Cons.IH by auto
qed

lemma fold_link_sel_not_found:
  "filter is_not_found_for (warnings (fst (fold (link_sel sm slsa pl arch rpmdir dd sd) sels (st, m))))
   = filter is_not_found_for (warnings st)
     @ map (\<lambda>sel. Warn_not_found_for sel arch) (filter (\<lambda>sel. lookup_sel sm pl arch sel = []) sels)"
proof (induction sels arbitrary: st m)
  case Nil
  then show ?case by simp
next
  case (Cons sel sels)
  show ?case
    unfolding fold_link_sel_step Cons.IH by (simp add: link_sel_not_found)
qed

lemma fold_link_sel_pres:
  assumes pres: "\<And>sel rpm st m. P st \<Longrightarrow> P (fst (link_rpm slsa pl arch rpmdir dd sd sel rpm (st, m)))"
    and wpres: "\<And>w st. P st \<Longrightarrow> P (warn w st)"
  shows "P st \<Longrightarrow> P (fst (fold (link_sel sm slsa pl arch rpmdir dd sd) sels (st, m)))"
proof (induction sels arbitrary: st m)
  case Nil
  then show ?case by simp
next
  case (Cons sel sels)
  from link_sel_pres [of P slsa pl arch rpmdir dd sd st sm sel m, OF pres wpres Cons.prems]
  have "P (fst (link_sel sm slsa pl arch rpmdir dd sd sel (st, m)))" .
  from Cons.IH [OF this] show ?case unfolding fold_link_sel_step .
qed

lemma fold_link_sel_est:
  assumes pres: "\<And>sel rpm st m. P st \<Longrightarrow> P (fst (link_rpm slsa pl arch rpmdir dd sd sel rpm (st, m)))"
    and wpres: "\<And>w st. P st \<Longrightarrow> P (warn w st)"
    and est: "\<And>st m. P (fst (link_rpm slsa pl arch rpmdir dd sd sel0 rpm0 (st, m)))"
    and rpm0: "rpm0 \<in> set (lookup_sel sm pl arch sel0)"
  shows "sel0 \<in> set sels \<Longrightarrow> P (fst (fold (link_sel sm slsa pl arch rpmdir dd sd) sels (st, m)))"
proof (induction sels arbitrary: st m)
  case Nil
  then show ?case by simp
next
  case (Cons sel sels)
  show ?case
  proof (cases "sel0 = sel")
    case True
    from link_sel_est [of P slsa pl arch rpmdir dd sd sel0 rpm0 sm st m, OF pres est rpm0] True
    have "P (fst (link_sel sm slsa pl arch rpmdir dd sd sel (st, m)))" by simp
    from fold_link_sel_pres [of P slsa pl arch rpmdir dd sd, OF pres wpres this]
    show ?thesis unfolding fold_link_sel_step .
  next
    case False
    with Cons.prems have "sel0 \<in> set sels" by simp
    from Cons.IH [OF this] show ?thesis unfolding fold_link_sel_step .
  qed
qed

subsection \<open>One call of the resolution\<close>

lemma link_rpm_exists:
  "exists (fst (link_rpm slsa pl arch rpmdir dd sd sel rpm (st, m))) (outname_of rpm rpmdir)"
proof -
  from link_entry_exists [of rpm rpmdir slsa st] obtain n where
    n: "fs (link_entry_into_dir rpm rpmdir slsa st) (outname_of rpm rpmdir) = Some n"
    by (auto simp: exists_def)
  have "fs (fst (link_rpm slsa pl arch rpmdir dd sd sel rpm (st, m))) (outname_of rpm rpmdir) = Some n"
    using n by (auto simp: link_rpm_def Let_def link_entry_fs link_debug_fs split: option.splits prod.splits)
  then show ?thesis by (simp add: exists_def)
qed

lemma link_debug_exists:
  "lookup_rpm pl arch (src_name srcrpm @ ''-debugsource'') (Some ''='') None
       (Some (src_version srcrpm)) (Some (src_release srcrpm)) = Some drpm
   \<or> lookup_rpm pl arch (pkg_name rpm @ ''-debuginfo'') (Some ''='') (pkg_epoch rpm)
       (Some (pkg_version rpm)) (Some (pkg_release rpm)) = Some drpm
   \<Longrightarrow> exists (link_debug slsa pl arch dd srcrpm rpm st) (outname_of drpm dd)"
proof (erule disjE)
  assume a: "lookup_rpm pl arch (src_name srcrpm @ ''-debugsource'') (Some ''='') None
       (Some (src_version srcrpm)) (Some (src_release srcrpm)) = Some drpm"
  from link_entry_exists [of drpm dd slsa st] obtain n where
    "fs (link_entry_into_dir drpm dd slsa st) (outname_of drpm dd) = Some n"
    by (auto simp: exists_def)
  with a have "fs (link_debug slsa pl arch dd srcrpm rpm st) (outname_of drpm dd) = Some n"
    by (auto simp: link_debug_def Let_def link_entry_fs split: option.splits)
  then show ?thesis by (simp add: exists_def)
next
  assume a: "lookup_rpm pl arch (pkg_name rpm @ ''-debuginfo'') (Some ''='') (pkg_epoch rpm)
       (Some (pkg_version rpm)) (Some (pkg_release rpm)) = Some drpm"
  then show ?thesis
    by (simp add: link_debug_def Let_def link_entry_exists)
qed

lemma link_rpm_debug_exists:
  assumes "pkg_src rpm = Some srcrpm" and "debugdir = Some dd" and "dd \<noteq> []"
    and "lookup_rpm pl arch (src_name srcrpm @ ''-debugsource'') (Some ''='') None
           (Some (src_version srcrpm)) (Some (src_release srcrpm)) = Some drpm
         \<or> lookup_rpm pl arch (pkg_name rpm @ ''-debuginfo'') (Some ''='') (pkg_epoch rpm)
           (Some (pkg_version rpm)) (Some (pkg_release rpm)) = Some drpm"
  shows "exists (fst (link_rpm slsa pl arch rpmdir debugdir sd sel rpm (st, m))) (outname_of drpm dd)"
  using assms(1-3) link_debug_exists [OF assms(4)]
  by (auto simp: link_rpm_def Let_def split: option.splits prod.splits)

lemma link_rpms_to_tree_state:
  "create_package_set y arch flavor ''main'' = Inr pkgset \<Longrightarrow>
   snd (link_rpms_to_tree rpmdir y pl arch flavor dd sd st)
   = fst (fold (link_sel (''take_all_available_versions'' \<notin> set (build_options y))
                  (''add_slsa_provenance'' \<in> set (build_options y)) pl arch rpmdir dd sd)
            (selectors pkgset) (st, False))"
  by (simp add: link_rpms_to_tree_def Let_def split: prod.splits)

lemma link_rpms_to_tree_error:
  "create_package_set y arch flavor ''main'' = Inr pkgset \<Longrightarrow>
   fst (link_rpms_to_tree rpmdir y pl arch flavor dd sd st)
   = (if (\<exists>sel\<in>set (selectors pkgset).
            lookup_sel (''take_all_available_versions'' \<notin> set (build_options y)) pl arch sel = []
            \<or> (\<exists>rpm\<in>set (lookup_sel (''take_all_available_versions'' \<notin> set (build_options y)) pl arch sel).
                  source_missing pl sd rpm))
         \<and> ''ignore_missing_packages'' \<notin> set (build_options y)
      then Some (Die ''Abort due to missing packages'') else None)"
proof -
  assume a: "create_package_set y arch flavor ''main'' = Inr pkgset"
  let ?sm = "''take_all_available_versions'' \<notin> set (build_options y)"
  let ?slsa = "''add_slsa_provenance'' \<in> set (build_options y)"
  let ?r = "fold (link_sel ?sm ?slsa pl arch rpmdir dd sd) (selectors pkgset) (st, False)"
  have m: "snd ?r = (\<exists>sel\<in>set (selectors pkgset). lookup_sel ?sm pl arch sel = []
            \<or> (\<exists>rpm\<in>set (lookup_sel ?sm pl arch sel). source_missing pl sd rpm))"
    by (simp add: fold_link_sel_missing)
  have "fst (link_rpms_to_tree rpmdir y pl arch flavor dd sd st)
      = (if snd ?r \<and> ''ignore_missing_packages'' \<notin> set (build_options y)
         then Some (Die ''Abort due to missing packages'') else None)"
    using a by (simp add: link_rpms_to_tree_def Let_def split: prod.splits)
  with m show ?thesis by simp
qed

lemma link_rpms_to_tree_no_set:
  "create_package_set y arch flavor ''main'' = Inl err \<Longrightarrow>
   link_rpms_to_tree rpmdir y pl arch flavor dd sd st = (Some err, st)"
  by (simp add: link_rpms_to_tree_def Let_def)

lemma link_rpm_source_exists:
  assumes "pkg_src rpm = Some srcrpm" and "sourcedir = Some sd" and "sd \<noteq> []"
    and "lookup_src pl srcrpm = Some srpm"
  shows "exists (fst (link_rpm slsa pl arch rpmdir debugdir sourcedir sel rpm (st, m))) (outname_of srpm sd)"
proof -
  define st2 where "st2 = (link_entry_into_dir rpm rpmdir slsa st)\<lparr>supportstatus :=
      (supportstatus (link_entry_into_dir rpm rpmdir slsa st))(pkg_name rpm \<mapsto>
         (case supportstatus_override (link_entry_into_dir rpm rpmdir slsa st) (pkg_name rpm) of
            Some s \<Rightarrow> Some s
          | None \<Rightarrow> sel_supportstatus sel))\<rparr>"
  from link_entry_exists [of srpm sd slsa st2] obtain n where
    n: "fs (link_entry_into_dir srpm sd slsa st2) (outname_of srpm sd) = Some n"
    by (auto simp: exists_def)
  have "fs (fst (link_rpm slsa pl arch rpmdir debugdir sourcedir sel rpm (st, m))) (outname_of srpm sd) = Some n"
    using assms n by (auto simp: link_rpm_def Let_def st2_def link_debug_fs split: option.splits)
  then show ?thesis by (simp add: exists_def)
qed

lemma link_rpms_to_tree_linked:
  assumes set: "create_package_set y arch flavor ''main'' = Inr pkgset"
    and sel: "sel \<in> set (selectors pkgset)"
    and rpm: "rpm \<in> set (lookup_sel (''take_all_available_versions'' \<notin> set (build_options y)) pl arch sel)"
  shows "exists (snd (link_rpms_to_tree rpmdir y pl arch flavor dd sd st)) (outname_of rpm rpmdir)"
proof -
  let ?sm = "''take_all_available_versions'' \<notin> set (build_options y)"
  let ?slsa = "''add_slsa_provenance'' \<in> set (build_options y)"
  let ?P = "\<lambda>t. exists t (outname_of rpm rpmdir)"
  have "?P (fst (fold (link_sel ?sm ?slsa pl arch rpmdir dd sd) (selectors pkgset) (st, False)))"
  proof (rule fold_link_sel_est [of ?P ?slsa pl arch rpmdir dd sd sel rpm ?sm])
    show "?P (fst (link_rpm ?slsa pl arch rpmdir dd sd sel' rpm' (t, m')))" if "?P t" for sel' rpm' t m'
      using that link_rpm_fs [of t "outname_of rpm rpmdir" _ ?slsa pl arch rpmdir dd sd sel' rpm' m']
      by (auto simp: exists_def)
    show "?P (warn w t)" if "?P t" for w t
      using that by (simp add: exists_def)
    show "?P (fst (link_rpm ?slsa pl arch rpmdir dd sd sel rpm (t, m')))" for t m'
      by (rule link_rpm_exists)
    show "rpm \<in> set (lookup_sel ?sm pl arch sel)" by (rule rpm)
    show "sel \<in> set (selectors pkgset)" by (rule sel)
  qed
  with set show ?thesis by (simp add: link_rpms_to_tree_state)
qed

lemma link_rpms_to_tree_not_found:
  assumes set: "create_package_set y arch flavor ''main'' = Inr pkgset"
  shows "filter is_not_found_for (warnings (snd (link_rpms_to_tree rpmdir y pl arch flavor dd sd st)))
   = filter is_not_found_for (warnings st)
     @ map (\<lambda>sel. Warn_not_found_for sel arch)
         (filter (\<lambda>sel. lookup_sel (''take_all_available_versions'' \<notin> set (build_options y)) pl arch sel = [])
            (selectors pkgset))"
  by (simp add: link_rpms_to_tree_state [OF set] fold_link_sel_not_found)

lemma lookup_src_single:
  "lookup_src (pl\<lparr>lookup_all_rpms := f\<rparr>) = lookup_src pl"
  by (rule ext) (simp add: lookup_src_def)

lemma link_debug_single:
  "link_debug slsa (pl\<lparr>lookup_all_rpms := f\<rparr>) = link_debug slsa pl"
  by (intro ext) (simp add: link_debug_def)

lemma link_rpm_single:
  "link_rpm slsa (pl\<lparr>lookup_all_rpms := f\<rparr>) = link_rpm slsa pl"
  by (intro ext) (simp only: link_rpm_def lookup_src_single link_debug_single)

lemma lookup_sel_single:
  "lookup_sel True (pl\<lparr>lookup_all_rpms := f\<rparr>) = lookup_sel True pl"
  by (intro ext) (simp add: lookup_sel_def)

lemma link_sel_single:
  "link_sel True slsa (pl\<lparr>lookup_all_rpms := f\<rparr>) = link_sel True slsa pl"
  by (intro ext) (simp only: link_sel_def lookup_sel_single link_rpm_single)

lemma link_rpms_to_tree_single:
  "''take_all_available_versions'' \<notin> set (build_options y) \<Longrightarrow>
   link_rpms_to_tree rpmdir y (pl\<lparr>lookup_all_rpms := f\<rparr>) arch flavor dd sd st
   = link_rpms_to_tree rpmdir y pl arch flavor dd sd st"
  by (simp only: link_rpms_to_tree_def link_sel_single Let_def simp_thms)

lemma link_rpm_no_source_fs:
  "pkg_src rpm = None \<Longrightarrow>
   fs (fst (link_rpm slsa pl arch rpmdir debugdir sourcedir sel rpm (st, m)))
   = fs (link_entry_into_dir rpm rpmdir slsa st)"
  by (simp add: link_rpm_def Let_def)

lemma link_sample_fs:
  "fs (link_entry_into_dir (plain_pkg ''foo'' ''1.1'' ''x86_64'' ''repos/foo.rpm'') ''out'' False empty_state)
   = [''out/x86_64'' \<mapsto> Dir, ''out/x86_64/foo.rpm'' \<mapsto> HardLink ''repos/foo.rpm'']"
  by (simp add: link_entry_into_dir_def link_file_into_dir_def add_entry_to_report_def exists_def
      islink_def empty_state_def outname_of_def basename_def plain_pkg_def Let_def)
section \<open>Support status\<close>

text \<open>
  C7: for every resolved package the support status recorded for the package name is the
  entry of the override table for that name if there is one, and the status of the
  selector (the status declared on its owning set) otherwise; the override table itself
  is not changed. When there is neither an override nor a status on the selector, the
  table holds \<^verbatim>\<open>None\<close> for the name, and the reader of the table finds no status for it.
  Over a whole call of \<^verbatim>\<open>link_rpms_to_tree\<close>: a package that some selector of the main set
  resolves to and that has an override ends with the status of the override, whatever
  the sets declare.
\<close>

theorem support_status_precedence:
  "supportstatus (fst (link_rpm slsa pl arch rpmdir dd sd sel rpm (st, m))) (pkg_name rpm)
     = Some (case supportstatus_override st (pkg_name rpm) of
               Some s \<Rightarrow> Some s
             | None \<Rightarrow> sel_supportstatus sel)
   \<and> supportstatus_override (fst (link_rpm slsa pl arch rpmdir dd sd sel rpm (st, m)))
     = supportstatus_override st
   \<and> (supportstatus_override st (pkg_name rpm) = None \<and> sel_supportstatus sel = None \<longrightarrow>
        support_keyword (fst (link_rpm slsa pl arch rpmdir dd sd sel rpm (st, m))) (pkg_name rpm) = None)
   \<and> (create_package_set y arch flavor ''main'' = Inr pkgset \<and> sel \<in> set (selectors pkgset)
        \<and> rpm \<in> set (lookup_sel (''take_all_available_versions'' \<notin> set (build_options y)) pl arch sel)
        \<and> supportstatus_override st (pkg_name rpm) = Some s' \<longrightarrow>
        supportstatus (snd (link_rpms_to_tree rpmdir y pl arch flavor dd sd st)) (pkg_name rpm)
          = Some (Some s'))"
proof (intro conjI impI)
  show "supportstatus (fst (link_rpm slsa pl arch rpmdir dd sd sel rpm (st, m))) (pkg_name rpm)
     = Some (case supportstatus_override st (pkg_name rpm) of
               Some s \<Rightarrow> Some s
             | None \<Rightarrow> sel_supportstatus sel)"
    by (simp add: link_rpm_supportstatus)
  show "supportstatus_override (fst (link_rpm slsa pl arch rpmdir dd sd sel rpm (st, m)))
     = supportstatus_override st"
    by (rule link_rpm_override)
  show "support_keyword (fst (link_rpm slsa pl arch rpmdir dd sd sel rpm (st, m))) (pkg_name rpm) = None"
    if "supportstatus_override st (pkg_name rpm) = None \<and> sel_supportstatus sel = None"
    using that by (simp add: support_keyword_def link_rpm_supportstatus)
next
  assume a: "create_package_set y arch flavor ''main'' = Inr pkgset \<and> sel \<in> set (selectors pkgset)
        \<and> rpm \<in> set (lookup_sel (''take_all_available_versions'' \<notin> set (build_options y)) pl arch sel)
        \<and> supportstatus_override st (pkg_name rpm) = Some s'"
  let ?sm = "''take_all_available_versions'' \<notin> set (build_options y)"
  let ?slsa = "''add_slsa_provenance'' \<in> set (build_options y)"
  let ?n = "pkg_name rpm"
  let ?P = "\<lambda>t. supportstatus_override t = supportstatus_override st"
  let ?Q = "\<lambda>t. supportstatus_override t = supportstatus_override st \<longrightarrow> supportstatus t ?n = Some (Some s')"
  let ?r = "fold (link_sel ?sm ?slsa pl arch rpmdir dd sd) (selectors pkgset) (st, False)"
  from a have ov: "supportstatus_override st ?n = Some s'" by simp
  have P: "?P (fst ?r)"
    by (rule fold_link_sel_pres [of ?P]) (simp_all add: link_rpm_override)
  have Q: "?Q (fst ?r)"
  proof (rule fold_link_sel_est [of ?Q ?slsa pl arch rpmdir dd sd sel rpm ?sm])
    show "?Q (fst (link_rpm ?slsa pl arch rpmdir dd sd sel' rpm' (t, m')))" if "?Q t" for sel' rpm' t m'
      using that ov by (auto simp: link_rpm_override link_rpm_supportstatus)
    show "?Q (warn w t)" if "?Q t" for w t
      using that by simp
    show "?Q (fst (link_rpm ?slsa pl arch rpmdir dd sd sel rpm (t, m')))" for t m'
      using ov by (simp add: link_rpm_override link_rpm_supportstatus)
    show "rpm \<in> set (lookup_sel ?sm pl arch sel)" using a by simp
    show "sel \<in> set (selectors pkgset)" using a by simp
  qed
  from P Q have "supportstatus (fst ?r) ?n = Some (Some s')" by simp
  with a show "supportstatus (snd (link_rpms_to_tree rpmdir y pl arch flavor dd sd st)) (pkg_name rpm)
          = Some (Some s')"
    by (simp add: link_rpms_to_tree_state)
qed

text \<open>The override file holds \<^verbatim>\<open>foo l3\<close>, the set \<^verbatim>\<open>main\<close> declares the status \<^verbatim>\<open>l2\<close>.\<close>

lemma parse_supportstatus_sample:
  "parse_supportstatus [''foo l3'' @ [CHR 0x0A]] empty_state
   = Inr (empty_state\<lparr>supportstatus_override := [''foo'' \<mapsto> ''l3'']\<rparr>)"
  by (simp add: strip_def split_blank_def isspace_def empty_state_def)

lemma main_set_sample:
  "create_package_set (plain_yml [(plain_entry None [''foo''])\<lparr>ent_supportstatus := Some ''l2''\<rparr>])
     ''x86_64'' None ''main''
   = Inr \<lparr>set_name = ''main'',
          elements = [(''foo'', (plain_sel ''foo'')\<lparr>sel_supportstatus := Some ''l2''\<rparr>)],
          set_supportstatus = Some ''l2''\<rparr>"
  by (simp add: eval_defs)

theorem support_status_precedence_witness:
  "(supportstatus_override empty_state ''foo'' = None \<and> sel_supportstatus (plain_sel ''foo'') = None)
   \<and> support_keyword
        (fst (link_rpm False (sample_pool []) ''x86_64'' ''out'' None None (plain_sel ''foo'')
               (plain_pkg ''foo'' ''1.1'' ''x86_64'' ''repos/foo.rpm'') (empty_state, False))) ''foo'' = None
   \<and> create_package_set (plain_yml [(plain_entry None [''foo''])\<lparr>ent_supportstatus := Some ''l2''\<rparr>])
        ''x86_64'' None ''main''
      = Inr \<lparr>set_name = ''main'',
          elements = [(''foo'', (plain_sel ''foo'')\<lparr>sel_supportstatus := Some ''l2''\<rparr>)],
          set_supportstatus = Some ''l2''\<rparr>
   \<and> supportstatus_override (empty_state\<lparr>supportstatus_override := [''foo'' \<mapsto> ''l3'']\<rparr>) ''foo'' = Some ''l3''
   \<and> supportstatus
        (snd (link_rpms_to_tree ''out'' (plain_yml [(plain_entry None [''foo''])\<lparr>ent_supportstatus := Some ''l2''\<rparr>])
               (sample_pool [plain_pkg ''foo'' ''1.1'' ''x86_64'' ''repos/foo.rpm'']) ''x86_64'' None None None
               (empty_state\<lparr>supportstatus_override := [''foo'' \<mapsto> ''l3'']\<rparr>))) ''foo''
      = Some (Some ''l3'')"
proof -
  let ?rpm = "plain_pkg ''foo'' ''1.1'' ''x86_64'' ''repos/foo.rpm''"
  let ?sel = "(plain_sel ''foo'')\<lparr>sel_supportstatus := Some ''l2''\<rparr>"
  let ?y = "plain_yml [(plain_entry None [''foo''])\<lparr>ent_supportstatus := Some ''l2''\<rparr>]"
  let ?set = "\<lparr>set_name = ''main'', elements = [(''foo'', ?sel)], set_supportstatus = Some ''l2''\<rparr>"
  have n: "pkg_name ?rpm = ''foo''" by (simp add: plain_pkg_def)
  have h0: "supportstatus_override empty_state (pkg_name ?rpm) = None \<and> sel_supportstatus (plain_sel ''foo'') = None"
    by (simp add: empty_state_def plain_sel_def)
  have h1: "?sel \<in> set (selectors ?set)" by (simp add: selectors_def)
  have h2: "?rpm \<in> set (lookup_sel (''take_all_available_versions'' \<notin> set (build_options ?y))
                          (sample_pool [?rpm]) ''x86_64'' ?sel)"
    by (simp add: pool_defs plain_yml_def plain_pkg_def plain_sel_def)
  have h3: "supportstatus_override (empty_state\<lparr>supportstatus_override := [''foo'' \<mapsto> ''l3'']\<rparr>) (pkg_name ?rpm)
             = Some ''l3''"
    by (simp add: n)
  from support_status_precedence [where st = empty_state and sel = "plain_sel ''foo''" and rpm = ?rpm
      and slsa = False and pl = "sample_pool []" and arch = "''x86_64''" and rpmdir = "''out''"
      and dd = None and sd = None and m = False] h0
  have c1: "support_keyword
        (fst (link_rpm False (sample_pool []) ''x86_64'' ''out'' None None (plain_sel ''foo'') ?rpm
               (empty_state, False))) (pkg_name ?rpm) = None"
    by blast
  from support_status_precedence [where y = ?y and arch = "''x86_64''" and flavor = None and pkgset = ?set
      and sel = ?sel and rpm = ?rpm and pl = "sample_pool [?rpm]"
      and st = "empty_state\<lparr>supportstatus_override := [''foo'' \<mapsto> ''l3'']\<rparr>" and s' = "''l3''"
      and rpmdir = "''out''" and dd = None and sd = None] main_set_sample h1 h2 h3
  have c2: "supportstatus
        (snd (link_rpms_to_tree ''out'' ?y (sample_pool [?rpm]) ''x86_64'' None None None
               (empty_state\<lparr>supportstatus_override := [''foo'' \<mapsto> ''l3'']\<rparr>))) (pkg_name ?rpm)
      = Some (Some ''l3'')"
    by blast
  from h0 c1 c2 h3 main_set_sample show ?thesis unfolding n by blast
qed

section \<open>Companion packages\<close>

text \<open>
  C4, as stated: for every resolved binary package, if a debug sub-tree is requested, the
  debuginfo package at the EVR of the binary package is resolved. The body of the package
  loop reads the source reference first, \<^verbatim>\<open>srcrpm = rpm.get_src_package()\<close>, and on
  \<^verbatim>\<open>if not srcrpm\<close> it prints a warning and goes on with the next package
  (\<^verbatim>\<open>continue\<close>): neither the source package nor the debugsource package nor the debuginfo
  package is looked up. Here the binary package \<^verbatim>\<open>foo\<close> has no source reference, the pool
  holds \<^verbatim>\<open>foo-debuginfo\<close> at the EVR of \<^verbatim>\<open>foo\<close>, a debug tree is requested, and the
  debuginfo package is not linked below it.
\<close>

theorem no_source_no_debuginfo_counterexample:
  "lookup_rpm (sample_pool [plain_pkg ''foo'' ''1.1'' ''x86_64'' ''repos/foo.rpm'',
                            plain_pkg ''foo-debuginfo'' ''1.1'' ''x86_64'' ''repos/foo-debuginfo.rpm''])
       ''x86_64'' (pkg_name (plain_pkg ''foo'' ''1.1'' ''x86_64'' ''repos/foo.rpm'') @ ''-debuginfo'') (Some ''='')
       (pkg_epoch (plain_pkg ''foo'' ''1.1'' ''x86_64'' ''repos/foo.rpm''))
       (Some (pkg_version (plain_pkg ''foo'' ''1.1'' ''x86_64'' ''repos/foo.rpm'')))
       (Some (pkg_release (plain_pkg ''foo'' ''1.1'' ''x86_64'' ''repos/foo.rpm'')))
     = Some (plain_pkg ''foo-debuginfo'' ''1.1'' ''x86_64'' ''repos/foo-debuginfo.rpm'')
   \<and> \<not> exists (fst (link_rpm False
                     (sample_pool [plain_pkg ''foo'' ''1.1'' ''x86_64'' ''repos/foo.rpm'',
                                   plain_pkg ''foo-debuginfo'' ''1.1'' ''x86_64'' ''repos/foo-debuginfo.rpm''])
                     ''x86_64'' ''out'' (Some ''out-Debug'') None (plain_sel ''foo'')
                     (plain_pkg ''foo'' ''1.1'' ''x86_64'' ''repos/foo.rpm'') (empty_state, False)))
            (outname_of (plain_pkg ''foo-debuginfo'' ''1.1'' ''x86_64'' ''repos/foo-debuginfo.rpm'') ''out-Debug'')"
proof -
  let ?rpm = "plain_pkg ''foo'' ''1.1'' ''x86_64'' ''repos/foo.rpm''"
  let ?drpm = "plain_pkg ''foo-debuginfo'' ''1.1'' ''x86_64'' ''repos/foo-debuginfo.rpm''"
  have l: "lookup_rpm (sample_pool [?rpm, ?drpm]) ''x86_64'' (pkg_name ?rpm @ ''-debuginfo'') (Some ''='')
       (pkg_epoch ?rpm) (Some (pkg_version ?rpm)) (Some (pkg_release ?rpm)) = Some ?drpm"
    by (simp add: pool_defs plain_pkg_def)
  have o: "outname_of ?drpm ''out-Debug'' = ''out-Debug/x86_64/foo-debuginfo.rpm''"
    by (simp add: outname_of_def basename_def plain_pkg_def)
  have n: "pkg_src ?rpm = None" by (simp add: plain_pkg_def)
  have "fs (fst (link_rpm False (sample_pool [?rpm, ?drpm]) ''x86_64'' ''out'' (Some ''out-Debug'') None
        (plain_sel ''foo'') ?rpm (empty_state, False))) ''out-Debug/x86_64/foo-debuginfo.rpm'' = None"
    by (simp add: link_rpm_no_source_fs [OF n] link_sample_fs)
  with l o show ?thesis by (simp add: exists_def)
qed

text \<open>
  C4, amended: for a resolved binary package that names its source package, the flag
  \<^verbatim>\<open>missing_package\<close> is set after the body of the package loop iff it was set before or
  the source package is missing: a source tree is requested and the exact-version lookup
  of the source package fails; then the warning about the source package is printed. A
  source package that is found is linked below the source tree. The debuginfo package
  (name and EVR of the binary package) and the debugsource package (name and version of
  the source reference) are linked below the debug tree when they are found; when they
  are not found, nothing is printed and the flag is untouched: with the source package
  not missing, the flag and the warnings other than the one about a package without
  source reference are as before. Whether a call of \<^verbatim>\<open>link_rpms_to_tree\<close> aborts does
  not depend on the debug tree being requested. For a resolved binary package without a
  source reference only the warning \<^verbatim>\<open>package ... does not have a source rpm\<close> is
  printed: the body does what it does with no source tree and no debug tree requested,
  whatever the pool holds, and the flag is untouched.
\<close>

theorem companion_packages:
  "snd (link_rpm slsa pl arch rpmdir debugdir sourcedir sel rpm (st, m))
     = (m \<or> source_missing pl sourcedir rpm)
   \<and> (pkg_src rpm = Some srcrpm \<and> truthy sourcedir \<and> lookup_src pl srcrpm = None \<longrightarrow>
        source_missing pl sourcedir rpm
        \<and> warnings (fst (link_rpm slsa pl arch rpmdir debugdir sourcedir sel rpm (st, m)))
            = warnings st @ [Warn_source_not_found srcrpm rpm])
   \<and> (pkg_src rpm = Some srcrpm \<and> sourcedir = Some sd \<and> sd \<noteq> [] \<and> lookup_src pl srcrpm = Some srpm \<longrightarrow>
        \<not> source_missing pl sourcedir rpm
        \<and> exists (fst (link_rpm slsa pl arch rpmdir debugdir sourcedir sel rpm (st, m))) (outname_of srpm sd))
   \<and> (\<not> source_missing pl sourcedir rpm \<longrightarrow>
        snd (link_rpm slsa pl arch rpmdir debugdir sourcedir sel rpm (st, m)) = m
        \<and> filter (\<lambda>w. w \<noteq> Warn_no_source rpm)
            (warnings (fst (link_rpm slsa pl arch rpmdir debugdir sourcedir sel rpm (st, m))))
          = filter (\<lambda>w. w \<noteq> Warn_no_source rpm) (warnings st))
   \<and> (pkg_src rpm = Some srcrpm \<and> debugdir = Some dd \<and> dd \<noteq> []
        \<and> (lookup_rpm pl arch (src_name srcrpm @ ''-debugsource'') (Some ''='') None
              (Some (src_version srcrpm)) (Some (src_release srcrpm)) = Some drpm
           \<or> lookup_rpm pl arch (pkg_name rpm @ ''-debuginfo'') (Some ''='') (pkg_epoch rpm)
              (Some (pkg_version rpm)) (Some (pkg_release rpm)) = Some drpm) \<longrightarrow>
        exists (fst (link_rpm slsa pl arch rpmdir debugdir sourcedir sel rpm (st, m))) (outname_of drpm dd))
   \<and> fst (link_rpms_to_tree rpmdir y pl arch flavor debugdir sourcedir st)
     = fst (link_rpms_to_tree rpmdir y pl arch flavor None sourcedir st)
   \<and> (pkg_src rpm = None \<longrightarrow>
        link_rpm slsa pl arch rpmdir debugdir sourcedir sel rpm (st, m)
          = link_rpm slsa plb arch rpmdir None None sel rpm (st, m)
        \<and> snd (link_rpm slsa pl arch rpmdir debugdir sourcedir sel rpm (st, m)) = m
        \<and> warnings (fst (link_rpm slsa pl arch rpmdir debugdir sourcedir sel rpm (st, m)))
            = warnings st @ [Warn_no_source rpm])"
proof (intro conjI impI)
  show "snd (link_rpm slsa pl arch rpmdir debugdir sourcedir sel rpm (st, m))
     = (m \<or> source_missing pl sourcedir rpm)"
    by (rule link_rpm_missing)
  show "source_missing pl sourcedir rpm"
    if "pkg_src rpm = Some srcrpm \<and> truthy sourcedir \<and> lookup_src pl srcrpm = None"
    using that by (simp add: source_missing_def)
  show "warnings (fst (link_rpm slsa pl arch rpmdir debugdir sourcedir sel rpm (st, m)))
            = warnings st @ [Warn_source_not_found srcrpm rpm]"
    if "pkg_src rpm = Some srcrpm \<and> truthy sourcedir \<and> lookup_src pl srcrpm = None"
    using that by (simp add: link_rpm_warnings source_missing_def)
  show "\<not> source_missing pl sourcedir rpm"
    if "pkg_src rpm = Some srcrpm \<and> sourcedir = Some sd \<and> sd \<noteq> [] \<and> lookup_src pl srcrpm = Some srpm"
    using that by (simp add: source_missing_def)
  show "exists (fst (link_rpm slsa pl arch rpmdir debugdir sourcedir sel rpm (st, m))) (outname_of srpm sd)"
    if "pkg_src rpm = Some srcrpm \<and> sourcedir = Some sd \<and> sd \<noteq> [] \<and> lookup_src pl srcrpm = Some srpm"
    using that link_rpm_source_exists [of rpm srcrpm sourcedir sd pl srpm slsa arch rpmdir debugdir sel st m]
    by blast
  show "snd (link_rpm slsa pl arch rpmdir debugdir sourcedir sel rpm (st, m)) = m"
    if "\<not> source_missing pl sourcedir rpm"
    using that by (simp add: link_rpm_missing)
  show "filter (\<lambda>w. w \<noteq> Warn_no_source rpm)
            (warnings (fst (link_rpm slsa pl arch rpmdir debugdir sourcedir sel rpm (st, m))))
          = filter (\<lambda>w. w \<noteq> Warn_no_source rpm) (warnings st)"
    if "\<not> source_missing pl sourcedir rpm"
    using that by (simp add: link_rpm_warnings split: option.splits)
  show "exists (fst (link_rpm slsa pl arch rpmdir debugdir sourcedir sel rpm (st, m))) (outname_of drpm dd)"
    if "pkg_src rpm = Some srcrpm \<and> debugdir = Some dd \<and> dd \<noteq> []
        \<and> (lookup_rpm pl arch (src_name srcrpm @ ''-debugsource'') (Some ''='') None
              (Some (src_version srcrpm)) (Some (src_release srcrpm)) = Some drpm
           \<or> lookup_rpm pl arch (pkg_name rpm @ ''-debuginfo'') (Some ''='') (pkg_epoch rpm)
              (Some (pkg_version rpm)) (Some (pkg_release rpm)) = Some drpm)"
    using that link_rpm_debug_exists [of rpm srcrpm debugdir dd pl arch drpm slsa rpmdir sourcedir sel st m]
    by blast
  show "fst (link_rpms_to_tree rpmdir y pl arch flavor debugdir sourcedir st)
     = fst (link_rpms_to_tree rpmdir y pl arch flavor None sourcedir st)"
  proof (cases "create_package_set y arch flavor ''main''")
    case (Inl err)
    then show ?thesis by (simp add: link_rpms_to_tree_no_set)
  next
    case (Inr pkgset)
    then show ?thesis by (simp only: link_rpms_to_tree_error [OF Inr])
  qed
next
  assume n: "pkg_src rpm = None"
  then show "link_rpm slsa pl arch rpmdir debugdir sourcedir sel rpm (st, m)
          = link_rpm slsa plb arch rpmdir None None sel rpm (st, m)"
    by (simp add: link_rpm_def Let_def)
  from n show "snd (link_rpm slsa pl arch rpmdir debugdir sourcedir sel rpm (st, m)) = m"
    by (simp add: link_rpm_missing source_missing_def)
  from n show "warnings (fst (link_rpm slsa pl arch rpmdir debugdir sourcedir sel rpm (st, m)))
            = warnings st @ [Warn_no_source rpm]"
    by (simp add: link_rpm_warnings)
qed

text \<open>A binary package \<^verbatim>\<open>foo\<close> with a source reference, in a pool without the source
  package and in a pool with the source package and the debuginfo package; and the
  package \<^verbatim>\<open>foo\<close> without a source reference, for which the pool and the two trees make no
  difference.\<close>

theorem companion_packages_witness:
  "(pkg_src (with_src (plain_pkg ''foo'' ''1.1'' ''x86_64'' ''repos/foo.rpm''))
      = Some \<lparr>src_name = ''foo'', src_arch = ''src'', src_version = ''1.1'', src_release = ''1''\<rparr>
    \<and> truthy (Some ''out-Source'')
    \<and> lookup_src (sample_pool [with_src (plain_pkg ''foo'' ''1.1'' ''x86_64'' ''repos/foo.rpm'')])
          \<lparr>src_name = ''foo'', src_arch = ''src'', src_version = ''1.1'', src_release = ''1''\<rparr> = None)
   \<and> snd (link_rpm False (sample_pool [with_src (plain_pkg ''foo'' ''1.1'' ''x86_64'' ''repos/foo.rpm'')])
            ''x86_64'' ''out'' (Some ''out-Debug'') (Some ''out-Source'') (plain_sel ''foo'')
            (with_src (plain_pkg ''foo'' ''1.1'' ''x86_64'' ''repos/foo.rpm'')) (empty_state, False))
   \<and> warnings (fst (link_rpm False (sample_pool [with_src (plain_pkg ''foo'' ''1.1'' ''x86_64'' ''repos/foo.rpm'')])
            ''x86_64'' ''out'' (Some ''out-Debug'') (Some ''out-Source'') (plain_sel ''foo'')
            (with_src (plain_pkg ''foo'' ''1.1'' ''x86_64'' ''repos/foo.rpm'')) (empty_state, False)))
       = [Warn_source_not_found \<lparr>src_name = ''foo'', src_arch = ''src'', src_version = ''1.1'', src_release = ''1''\<rparr>
            (with_src (plain_pkg ''foo'' ''1.1'' ''x86_64'' ''repos/foo.rpm''))]
   \<and> (lookup_src (sample_pool [with_src (plain_pkg ''foo'' ''1.1'' ''x86_64'' ''repos/foo.rpm''),
                                  plain_pkg ''foo'' ''1.1'' ''src'' ''repos/foo.src.rpm'',
                                  plain_pkg ''foo-debuginfo'' ''1.1'' ''x86_64'' ''repos/foo-debuginfo.rpm''])
          \<lparr>src_name = ''foo'', src_arch = ''src'', src_version = ''1.1'', src_release = ''1''\<rparr>
        = Some (plain_pkg ''foo'' ''1.1'' ''src'' ''repos/foo.src.rpm'')
      \<and> lookup_rpm (sample_pool [with_src (plain_pkg ''foo'' ''1.1'' ''x86_64'' ''repos/foo.rpm''),
                                  plain_pkg ''foo'' ''1.1'' ''src'' ''repos/foo.src.rpm'',
                                  plain_pkg ''foo-debuginfo'' ''1.1'' ''x86_64'' ''repos/foo-debuginfo.rpm''])
          ''x86_64'' ''foo-debuginfo'' (Some ''='') None (Some ''1.1'') (Some ''1'')
        = Some (plain_pkg ''foo-debuginfo'' ''1.1'' ''x86_64'' ''repos/foo-debuginfo.rpm''))
   \<and> \<not> snd (link_rpm False (sample_pool [with_src (plain_pkg ''foo'' ''1.1'' ''x86_64'' ''repos/foo.rpm''),
                                  plain_pkg ''foo'' ''1.1'' ''src'' ''repos/foo.src.rpm'',
                                  plain_pkg ''foo-debuginfo'' ''1.1'' ''x86_64'' ''repos/foo-debuginfo.rpm''])
            ''x86_64'' ''out'' (Some ''out-Debug'') (Some ''out-Source'') (plain_sel ''foo'')
            (with_src (plain_pkg ''foo'' ''1.1'' ''x86_64'' ''repos/foo.rpm'')) (empty_state, False))
   \<and> exists (fst (link_rpm False (sample_pool [with_src (plain_pkg ''foo'' ''1.1'' ''x86_64'' ''repos/foo.rpm''),
                                  plain_pkg ''foo'' ''1.1'' ''src'' ''repos/foo.src.rpm'',
                                  plain_pkg ''foo-debuginfo'' ''1.1'' ''x86_64'' ''repos/foo-debuginfo.rpm''])
            ''x86_64'' ''out'' (Some ''out-Debug'') (Some ''out-Source'') (plain_sel ''foo'')
            (with_src (plain_pkg ''foo'' ''1.1'' ''x86_64'' ''repos/foo.rpm'')) (empty_state, False)))
        ''out-Debug/x86_64/foo-debuginfo.rpm''
   \<and> exists (fst (link_rpm False (sample_pool [with_src (plain_pkg ''foo'' ''1.1'' ''x86_64'' ''repos/foo.rpm''),
                                  plain_pkg ''foo'' ''1.1'' ''src'' ''repos/foo.src.rpm'',
                                  plain_pkg ''foo-debuginfo'' ''1.1'' ''x86_64'' ''repos/foo-debuginfo.rpm''])
            ''x86_64'' ''out'' (Some ''out-Debug'') (Some ''out-Source'') (plain_sel ''foo'')
            (with_src (plain_pkg ''foo'' ''1.1'' ''x86_64'' ''repos/foo.rpm'')) (empty_state, False)))
        ''out-Source/src/foo.src.rpm''
   \<and> pkg_src (plain_pkg ''foo'' ''1.1'' ''x86_64'' ''repos/foo.rpm'') = None
   \<and> link_rpm False (sample_pool [with_src (plain_pkg ''foo'' ''1.1'' ''x86_64'' ''repos/foo.rpm''),
                                  plain_pkg ''foo'' ''1.1'' ''src'' ''repos/foo.src.rpm'',
                                  plain_pkg ''foo-debuginfo'' ''1.1'' ''x86_64'' ''repos/foo-debuginfo.rpm''])
        ''x86_64'' ''out'' (Some ''out-Debug'') (Some ''out-Source'') (plain_sel ''foo'')
        (plain_pkg ''foo'' ''1.1'' ''x86_64'' ''repos/foo.rpm'') (empty_state, False)
     = link_rpm False (sample_pool []) ''x86_64'' ''out'' None None (plain_sel ''foo'')
        (plain_pkg ''foo'' ''1.1'' ''x86_64'' ''repos/foo.rpm'') (empty_state, False)"
proof -
  let ?rpm = "with_src (plain_pkg ''foo'' ''1.1'' ''x86_64'' ''repos/foo.rpm'')"
  let ?src = "\<lparr>src_name = ''foo'', src_arch = ''src'', src_version = ''1.1'', src_release = ''1''\<rparr>"
  let ?srpm = "plain_pkg ''foo'' ''1.1'' ''src'' ''repos/foo.src.rpm''"
  let ?drpm = "plain_pkg ''foo-debuginfo'' ''1.1'' ''x86_64'' ''repos/foo-debuginfo.rpm''"
  let ?p1 = "sample_pool [?rpm]"
  let ?p2 = "sample_pool [?rpm, ?srpm, ?drpm]"
  have s: "pkg_src ?rpm = Some ?src" by (simp add: with_src_def plain_pkg_def)
  have t: "truthy (Some ''out-Source'')" by (simp add: truthy_def)
  have l1: "lookup_src ?p1 ?src = None" by (simp add: pool_defs plain_pkg_def)
  have l2: "lookup_src ?p2 ?src = Some ?srpm" by (simp add: pool_defs plain_pkg_def)
  have l3: "lookup_rpm ?p2 ''x86_64'' ''foo-debuginfo'' (Some ''='') None (Some ''1.1'') (Some ''1'') = Some ?drpm"
    by (simp add: pool_defs plain_pkg_def)
  have l3': "lookup_rpm ?p2 ''x86_64'' (pkg_name ?rpm @ ''-debuginfo'') (Some ''='') (pkg_epoch ?rpm)
      (Some (pkg_version ?rpm)) (Some (pkg_release ?rpm)) = Some ?drpm"
    using l3 by (simp add: with_src_def plain_pkg_def)
  have od: "outname_of ?drpm ''out-Debug'' = ''out-Debug/x86_64/foo-debuginfo.rpm''"
    by (simp add: outname_of_def basename_def plain_pkg_def)
  have os: "outname_of ?srpm ''out-Source'' = ''out-Source/src/foo.src.rpm''"
    by (simp add: outname_of_def basename_def plain_pkg_def)
  note a = companion_packages [where pl = ?p1 and rpm = ?rpm and srcrpm = ?src
      and sourcedir = "Some ''out-Source''" and debugdir = "Some ''out-Debug''" and slsa = False
      and arch = "''x86_64''" and rpmdir = "''out''" and sel = "plain_sel ''foo''" and st = empty_state
      and m = False]
  note b = companion_packages [where pl = ?p2 and rpm = ?rpm and srcrpm = ?src and srpm = ?srpm
      and sourcedir = "Some ''out-Source''" and sd = "''out-Source''" and debugdir = "Some ''out-Debug''"
      and dd = "''out-Debug''" and drpm = ?drpm and slsa = False
      and arch = "''x86_64''" and rpmdir = "''out''" and sel = "plain_sel ''foo''" and st = empty_state
      and m = False]
  from a s t l1 have a1: "snd (link_rpm False ?p1 ''x86_64'' ''out'' (Some ''out-Debug'') (Some ''out-Source'')
        (plain_sel ''foo'') ?rpm (empty_state, False))"
    and a2: "warnings (fst (link_rpm False ?p1 ''x86_64'' ''out'' (Some ''out-Debug'') (Some ''out-Source'')
        (plain_sel ''foo'') ?rpm (empty_state, False))) = warnings empty_state @ [Warn_source_not_found ?src ?rpm]"
    by simp_all
  from b s l2 have b1: "\<not> snd (link_rpm False ?p2 ''x86_64'' ''out'' (Some ''out-Debug'') (Some ''out-Source'')
        (plain_sel ''foo'') ?rpm (empty_state, False))"
    and b3: "exists (fst (link_rpm False ?p2 ''x86_64'' ''out'' (Some ''out-Debug'') (Some ''out-Source'')
        (plain_sel ''foo'') ?rpm (empty_state, False))) (outname_of ?srpm ''out-Source'')"
    by simp_all
  from b s l3' have b2: "exists (fst (link_rpm False ?p2 ''x86_64'' ''out'' (Some ''out-Debug'') (Some ''out-Source'')
        (plain_sel ''foo'') ?rpm (empty_state, False))) (outname_of ?drpm ''out-Debug'')"
    by simp
  have w: "warnings empty_state = []" by (simp add: empty_state_def)
  have n0: "pkg_src (plain_pkg ''foo'' ''1.1'' ''x86_64'' ''repos/foo.rpm'') = None"
    by (simp add: plain_pkg_def)
  from companion_packages [where pl = ?p2 and plb = "sample_pool []"
      and rpm = "plain_pkg ''foo'' ''1.1'' ''x86_64'' ''repos/foo.rpm''"
      and sourcedir = "Some ''out-Source''" and debugdir = "Some ''out-Debug''" and slsa = False
      and arch = "''x86_64''" and rpmdir = "''out''" and sel = "plain_sel ''foo''" and st = empty_state
      and m = False] n0
  have c0: "link_rpm False ?p2 ''x86_64'' ''out'' (Some ''out-Debug'') (Some ''out-Source'') (plain_sel ''foo'')
        (plain_pkg ''foo'' ''1.1'' ''x86_64'' ''repos/foo.rpm'') (empty_state, False)
     = link_rpm False (sample_pool []) ''x86_64'' ''out'' None None (plain_sel ''foo'')
        (plain_pkg ''foo'' ''1.1'' ''x86_64'' ''repos/foo.rpm'') (empty_state, False)"
    by blast
  from s t l1 a1 a2 l2 l3 b1 b2 b3 n0 c0 show ?thesis unfolding od os w by (intro conjI) simp_all
qed
section \<open>Resolution mode\<close>

text \<open>
  C2: the resolution mode is set by the build option \<^verbatim>\<open>take_all_available_versions\<close> alone.
  Without the option every selector of the main set resolves through the best-match
  lookup \<^verbatim>\<open>lookup_rpm\<close> to at most one package, and the all-matches lookup has no influence
  on the call. With the option every selector resolves through \<^verbatim>\<open>lookup_all_rpms\<close> to all
  the packages that lookup returns. In both modes every package a selector of the main
  set resolves to has its output path in the tree after the call.
\<close>

theorem resolution_mode:
  "(''take_all_available_versions'' \<notin> set (build_options y) \<longrightarrow>
      lookup_sel (''take_all_available_versions'' \<notin> set (build_options y)) pl arch sel
        = (case lookup_rpm pl arch (sel_name sel) (sel_op sel) (sel_epoch sel) (sel_version sel) (sel_release sel) of
             None \<Rightarrow> []
           | Some rpm \<Rightarrow> [rpm])
      \<and> length (lookup_sel (''take_all_available_versions'' \<notin> set (build_options y)) pl arch sel) \<le> 1
      \<and> link_rpms_to_tree rpmdir y (pl\<lparr>lookup_all_rpms := f\<rparr>) arch flavor dd sd st
        = link_rpms_to_tree rpmdir y pl arch flavor dd sd st)
   \<and> (''take_all_available_versions'' \<in> set (build_options y) \<longrightarrow>
      lookup_sel (''take_all_available_versions'' \<notin> set (build_options y)) pl arch sel
        = lookup_all_rpms pl arch (sel_name sel) (sel_op sel) (sel_epoch sel) (sel_version sel) (sel_release sel))
   \<and> (create_package_set y arch flavor ''main'' = Inr pkgset \<and> sel \<in> set (selectors pkgset)
        \<and> rpm \<in> set (lookup_sel (''take_all_available_versions'' \<notin> set (build_options y)) pl arch sel) \<longrightarrow>
      exists (snd (link_rpms_to_tree rpmdir y pl arch flavor dd sd st)) (outname_of rpm rpmdir))"
proof (intro conjI impI)
  assume a: "''take_all_available_versions'' \<notin> set (build_options y)"
  then show "lookup_sel (''take_all_available_versions'' \<notin> set (build_options y)) pl arch sel
        = (case lookup_rpm pl arch (sel_name sel) (sel_op sel) (sel_epoch sel) (sel_version sel) (sel_release sel) of
             None \<Rightarrow> []
           | Some rpm \<Rightarrow> [rpm])"
    by (simp add: lookup_sel_def)
  from a show "length (lookup_sel (''take_all_available_versions'' \<notin> set (build_options y)) pl arch sel) \<le> 1"
    by (simp add: lookup_sel_def split: option.splits)
  from a show "link_rpms_to_tree rpmdir y (pl\<lparr>lookup_all_rpms := f\<rparr>) arch flavor dd sd st
        = link_rpms_to_tree rpmdir y pl arch flavor dd sd st"
    by (rule link_rpms_to_tree_single)
next
  assume "''take_all_available_versions'' \<in> set (build_options y)"
  then show "lookup_sel (''take_all_available_versions'' \<notin> set (build_options y)) pl arch sel
        = lookup_all_rpms pl arch (sel_name sel) (sel_op sel) (sel_epoch sel) (sel_version sel) (sel_release sel)"
    by (simp add: lookup_sel_def)
next
  assume "create_package_set y arch flavor ''main'' = Inr pkgset \<and> sel \<in> set (selectors pkgset)
        \<and> rpm \<in> set (lookup_sel (''take_all_available_versions'' \<notin> set (build_options y)) pl arch sel)"
  then show "exists (snd (link_rpms_to_tree rpmdir y pl arch flavor dd sd st)) (outname_of rpm rpmdir)"
    using link_rpms_to_tree_linked by blast
qed

text \<open>The pool holds \<^verbatim>\<open>foo\<close> in the versions 1.1 and 1.0 for x86_64, and the main set is the
  selector \<^verbatim>\<open>foo\<close>: single mode resolves it to 1.1, multi mode to 1.1 and 1.0, and 1.0 is
  linked as well.\<close>

lemma foo_set_sample:
  "create_package_set ((plain_yml [plain_entry None [''foo'']])\<lparr>build_options := opts\<rparr>) ''x86_64'' None ''main''
   = Inr \<lparr>set_name = ''main'', elements = [(''foo'', plain_sel ''foo'')], set_supportstatus = None\<rparr>"
  by (simp add: eval_defs)

theorem resolution_mode_witness:
  "''take_all_available_versions'' \<notin> set (build_options (plain_yml [plain_entry None [''foo'']]))
   \<and> lookup_sel (''take_all_available_versions'' \<notin> set (build_options (plain_yml [plain_entry None [''foo'']])))
        (sample_pool [plain_pkg ''foo'' ''1.1'' ''x86_64'' ''repos/foo-1.1.rpm'',
                      plain_pkg ''foo'' ''1.0'' ''x86_64'' ''repos/foo-1.0.rpm'']) ''x86_64'' (plain_sel ''foo'')
      = [plain_pkg ''foo'' ''1.1'' ''x86_64'' ''repos/foo-1.1.rpm'']
   \<and> ''take_all_available_versions''
        \<in> set (build_options ((plain_yml [plain_entry None [''foo'']])\<lparr>build_options := [''take_all_available_versions'']\<rparr>))
   \<and> lookup_sel (''take_all_available_versions''
          \<notin> set (build_options ((plain_yml [plain_entry None [''foo'']])\<lparr>build_options := [''take_all_available_versions'']\<rparr>)))
        (sample_pool [plain_pkg ''foo'' ''1.1'' ''x86_64'' ''repos/foo-1.1.rpm'',
                      plain_pkg ''foo'' ''1.0'' ''x86_64'' ''repos/foo-1.0.rpm'']) ''x86_64'' (plain_sel ''foo'')
      = [plain_pkg ''foo'' ''1.1'' ''x86_64'' ''repos/foo-1.1.rpm'',
         plain_pkg ''foo'' ''1.0'' ''x86_64'' ''repos/foo-1.0.rpm'']
   \<and> exists (snd (link_rpms_to_tree ''out''
          ((plain_yml [plain_entry None [''foo'']])\<lparr>build_options := [''take_all_available_versions'']\<rparr>)
          (sample_pool [plain_pkg ''foo'' ''1.1'' ''x86_64'' ''repos/foo-1.1.rpm'',
                        plain_pkg ''foo'' ''1.0'' ''x86_64'' ''repos/foo-1.0.rpm''])
          ''x86_64'' None None None empty_state))
        ''out/x86_64/foo-1.0.rpm''"
proof -
  let ?y1 = "plain_yml [plain_entry None [''foo'']]"
  let ?y2 = "(plain_yml [plain_entry None [''foo'']])\<lparr>build_options := [''take_all_available_versions'']\<rparr>"
  let ?a = "plain_pkg ''foo'' ''1.1'' ''x86_64'' ''repos/foo-1.1.rpm''"
  let ?b = "plain_pkg ''foo'' ''1.0'' ''x86_64'' ''repos/foo-1.0.rpm''"
  let ?pl = "sample_pool [?a, ?b]"
  let ?set = "\<lparr>set_name = ''main'', elements = [(''foo'', plain_sel ''foo'')], set_supportstatus = None\<rparr>"
  have o1: "''take_all_available_versions'' \<notin> set (build_options ?y1)" by (simp add: plain_yml_def)
  have o2: "''take_all_available_versions'' \<in> set (build_options ?y2)" by simp
  have best: "lookup_rpm ?pl ''x86_64'' (sel_name (plain_sel ''foo'')) (sel_op (plain_sel ''foo''))
        (sel_epoch (plain_sel ''foo'')) (sel_version (plain_sel ''foo'')) (sel_release (plain_sel ''foo'')) = Some ?a"
    by (simp add: pool_defs plain_pkg_def plain_sel_def)
  have all: "lookup_all_rpms ?pl ''x86_64'' (sel_name (plain_sel ''foo'')) (sel_op (plain_sel ''foo''))
        (sel_epoch (plain_sel ''foo'')) (sel_version (plain_sel ''foo'')) (sel_release (plain_sel ''foo'')) = [?a, ?b]"
    by (simp add: pool_defs plain_pkg_def plain_sel_def)
  have ob: "outname_of ?b ''out'' = ''out/x86_64/foo-1.0.rpm''"
    by (simp add: outname_of_def basename_def plain_pkg_def)
  have sel: "plain_sel ''foo'' \<in> set (selectors ?set)" by (simp add: selectors_def)
  from resolution_mode [where y = ?y1 and pl = ?pl and arch = "''x86_64''" and sel = "plain_sel ''foo''"] o1 best
  have c1: "lookup_sel (''take_all_available_versions'' \<notin> set (build_options ?y1)) ?pl ''x86_64'' (plain_sel ''foo'') = [?a]"
    by simp
  note multi = resolution_mode [where y = ?y2 and pl = ?pl and arch = "''x86_64''" and sel = "plain_sel ''foo''"
      and flavor = None and pkgset = ?set and rpm = ?b and rpmdir = "''out''" and dd = None and sd = None
      and st = empty_state]
  from multi o2 all
  have c2: "lookup_sel (''take_all_available_versions'' \<notin> set (build_options ?y2)) ?pl ''x86_64'' (plain_sel ''foo'') = [?a, ?b]"
    by simp
  from multi c2 sel foo_set_sample [of "[''take_all_available_versions'']"]
  have c3: "exists (snd (link_rpms_to_tree ''out'' ?y2 ?pl ''x86_64'' None None None empty_state)) (outname_of ?b ''out'')"
    by simp
  from o1 c1 o2 c2 c3 show ?thesis unfolding ob by blast
qed

section \<open>Missing packages\<close>

text \<open>
  C1: for every architecture, when the main package set is built without configuration
  error, \<^verbatim>\<open>link_rpms_to_tree\<close> goes through all its selectors. The warnings
  \<^verbatim>\<open>package SEL not found for ARCH\<close> that the call adds are, in the order of the selectors,
  one for each selector without a package, naming the selector and the architecture.
  The call aborts, after the loop, iff some selector has no package or some resolved
  package misses its required source package, and \<^verbatim>\<open>ignore_missing_packages\<close> is not among
  the build options; otherwise it returns normally. In either case every package of
  every resolved selector is linked, whatever is missing elsewhere.
\<close>

theorem missing_packages_aggregated:
  assumes "create_package_set y arch flavor ''main'' = Inr pkgset"
  shows "filter is_not_found_for (warnings (snd (link_rpms_to_tree rpmdir y pl arch flavor dd sd st)))
     = filter is_not_found_for (warnings st)
       @ map (\<lambda>sel. Warn_not_found_for sel arch)
           (filter (\<lambda>sel. lookup_sel (''take_all_available_versions'' \<notin> set (build_options y)) pl arch sel = [])
              (selectors pkgset))
   \<and> fst (link_rpms_to_tree rpmdir y pl arch flavor dd sd st)
     = (if (\<exists>sel\<in>set (selectors pkgset).
              lookup_sel (''take_all_available_versions'' \<notin> set (build_options y)) pl arch sel = []
              \<or> (\<exists>rpm\<in>set (lookup_sel (''take_all_available_versions'' \<notin> set (build_options y)) pl arch sel).
                    source_missing pl sd rpm))
           \<and> ''ignore_missing_packages'' \<notin> set (build_options y)
        then Some (Die ''Abort due to missing packages'') else None)
   \<and> (\<forall>sel\<in>set (selectors pkgset).
        \<forall>rpm\<in>set (lookup_sel (''take_all_available_versions'' \<notin> set (build_options y)) pl arch sel).
          exists (snd (link_rpms_to_tree rpmdir y pl arch flavor dd sd st)) (outname_of rpm rpmdir))"
  using link_rpms_to_tree_not_found [OF assms] link_rpms_to_tree_error [OF assms]
    link_rpms_to_tree_linked [OF assms]
  by blast

text \<open>The main set has the selectors \<^verbatim>\<open>a\<close>, \<^verbatim>\<open>b\<close> and \<^verbatim>\<open>c\<close>, the pool holds \<^verbatim>\<open>a\<close> only: both
  \<^verbatim>\<open>b\<close> and \<^verbatim>\<open>c\<close> are reported, \<^verbatim>\<open>a\<close> is linked, and the call aborts.\<close>

lemma abc_set_sample:
  "create_package_set (plain_yml [plain_entry None [''b'', ''a'', ''c'']]) ''x86_64'' None ''main''
   = Inr \<lparr>set_name = ''main'',
          elements = [(''b'', plain_sel ''b''), (''a'', plain_sel ''a''), (''c'', plain_sel ''c'')],
          set_supportstatus = None\<rparr>"
  by (simp add: eval_defs)

lemma abc_selectors_sample:
  "selectors \<lparr>set_name = ''main'',
          elements = [(''b'', plain_sel ''b''), (''a'', plain_sel ''a''), (''c'', plain_sel ''c'')],
          set_supportstatus = None\<rparr>
   = [plain_sel ''a'', plain_sel ''b'', plain_sel ''c'']"
  by (simp add: selectors_def less_eq_char_def less_char_def)

theorem missing_packages_aggregated_witness:
  "create_package_set (plain_yml [plain_entry None [''b'', ''a'', ''c'']]) ''x86_64'' None ''main''
   = Inr \<lparr>set_name = ''main'',
          elements = [(''b'', plain_sel ''b''), (''a'', plain_sel ''a''), (''c'', plain_sel ''c'')],
          set_supportstatus = None\<rparr>
   \<and> filter is_not_found_for (warnings (snd (link_rpms_to_tree ''out''
          (plain_yml [plain_entry None [''b'', ''a'', ''c'']])
          (sample_pool [plain_pkg ''a'' ''1.0'' ''x86_64'' ''repos/a.rpm'']) ''x86_64'' None None None empty_state)))
      = [Warn_not_found_for (plain_sel ''b'') ''x86_64'', Warn_not_found_for (plain_sel ''c'') ''x86_64'']
   \<and> fst (link_rpms_to_tree ''out'' (plain_yml [plain_entry None [''b'', ''a'', ''c'']])
          (sample_pool [plain_pkg ''a'' ''1.0'' ''x86_64'' ''repos/a.rpm'']) ''x86_64'' None None None empty_state)
      = Some (Die ''Abort due to missing packages'')
   \<and> exists (snd (link_rpms_to_tree ''out'' (plain_yml [plain_entry None [''b'', ''a'', ''c'']])
          (sample_pool [plain_pkg ''a'' ''1.0'' ''x86_64'' ''repos/a.rpm'']) ''x86_64'' None None None empty_state))
        ''out/x86_64/a.rpm''"
proof -
  let ?y = "plain_yml [plain_entry None [''b'', ''a'', ''c'']]"
  let ?a = "plain_pkg ''a'' ''1.0'' ''x86_64'' ''repos/a.rpm''"
  let ?pl = "sample_pool [?a]"
  let ?sm = "''take_all_available_versions'' \<notin> set (build_options ?y)"
  have la: "lookup_sel ?sm ?pl ''x86_64'' (plain_sel ''a'') = [?a]"
    and lb: "lookup_sel ?sm ?pl ''x86_64'' (plain_sel ''b'') = []"
    and lc: "lookup_sel ?sm ?pl ''x86_64'' (plain_sel ''c'') = []"
    by (simp_all add: pool_defs plain_pkg_def plain_sel_def plain_yml_def)
  have oa: "outname_of ?a ''out'' = ''out/x86_64/a.rpm''"
    by (simp add: outname_of_def basename_def plain_pkg_def)
  have ig: "''ignore_missing_packages'' \<notin> set (build_options ?y)" by (simp add: plain_yml_def)
  have w: "warnings empty_state = []" by (simp add: empty_state_def)
  note m = missing_packages_aggregated [OF abc_set_sample, where rpmdir = "''out''" and pl = ?pl
      and dd = None and sd = None and st = empty_state]
  from m have "filter is_not_found_for (warnings (snd (link_rpms_to_tree ''out'' ?y ?pl ''x86_64'' None None None empty_state)))
      = [Warn_not_found_for (plain_sel ''b'') ''x86_64'', Warn_not_found_for (plain_sel ''c'') ''x86_64'']"
    unfolding abc_selectors_sample by (simp add: la lb lc w)
  moreover from m have "fst (link_rpms_to_tree ''out'' ?y ?pl ''x86_64'' None None None empty_state)
      = Some (Die ''Abort due to missing packages'')"
    unfolding abc_selectors_sample using ig by (simp add: la lb lc)
  moreover from m have "exists (snd (link_rpms_to_tree ''out'' ?y ?pl ''x86_64'' None None None empty_state))
        (outname_of ?a ''out'')"
    unfolding abc_selectors_sample by (simp add: la)
  ultimately show ?thesis using abc_set_sample unfolding oa by blast
qed

section \<open>Properties of the report file\<close>

lemma add_entry_distinct:
  "distinct (map fst (tree_report st)) \<Longrightarrow> distinct (map fst (tree_report (add_entry_to_report e p st)))"
  by (simp add: add_entry_to_report_def)

lemma binary_attrs:
  "bin_attrs (binary_of entry)
   = (if pkg_name entry = [] then [] else [(''name'', pkg_name entry)])
     @ (case pkg_epoch entry of None \<Rightarrow> [] | Some i \<Rightarrow> if i = 0 then [] else [(''epoch'', str (PyInt i))])
     @ (if pkg_version entry = [] then [] else [(''version'', pkg_version entry)])
     @ (if pkg_release entry = [] then [] else [(''release'', pkg_release entry)])
     @ (if pkg_arch entry = [] then [] else [(''binaryarch'', pkg_arch entry)])
     @ (case pkg_buildtime entry of None \<Rightarrow> [] | Some i \<Rightarrow> [(''buildtime'', str (PyInt i))])
     @ (case pkg_disturl entry of None \<Rightarrow> [] | Some s \<Rightarrow> if s = [] then [] else [(''disturl'', s)])
     @ (case pkg_license entry of None \<Rightarrow> [] | Some s \<Rightarrow> if s = [] then [] else [(''license'', s)])
     @ (if endswith (pkg_name entry) ''-release''
        then (case pkg_product_cpeid entry of
                None \<Rightarrow> []
              | Some cpeid \<Rightarrow> if cpeid = [] then [] else [(''cpeid'', cpeid)])
        else [])"
  by (simp add: binary_of_def binary_attr_def getattr_def str_def Let_def split: option.splits)

text \<open>
  C9: the report written for a directory has one \<^verbatim>\<open>binary\<close> element for each entry of the
  provenance manifest whose output path starts with the directory followed by a slash,
  and for no other entry; the elements come in ascending order of the output paths. The
  text of an element is \<^verbatim>\<open>obs://\<close> followed by the origin of the package, and its
  attributes are the name, epoch (unless 0), version, release, architecture (as
  \<^verbatim>\<open>binaryarch\<close>), build time, disturl and license of the package, each when it is set
  and not empty, and the product cpeid for a \<^verbatim>\<open>-release\<close> package.
\<close>

theorem report_of_subtree:
  "write_report_file directory st = map (\<lambda>(fn, entry). binary_of entry) (report_items directory st)
   \<and> report_items directory st
     = sort_key fst (filter (\<lambda>(fn, entry). startswith fn (if endswith directory ''/'' then directory
                                                          else directory @ ''/''))
                       (tree_report st))
   \<and> set (report_items directory st)
     = {(fn, entry). (fn, entry) \<in> set (tree_report st)
          \<and> startswith fn (if endswith directory ''/'' then directory else directory @ ''/'')}
   \<and> sorted (map fst (report_items directory st))
   \<and> (distinct (map fst (tree_report st)) \<longrightarrow> distinct (map fst (report_items directory st)))
   \<and> length (write_report_file directory st)
     = length (filter (\<lambda>(fn, entry). startswith fn (if endswith directory ''/'' then directory
                                                       else directory @ ''/''))
                 (tree_report st))
   \<and> bin_text (binary_of entry) = ''obs://'' @ pkg_origin entry
   \<and> bin_attrs (binary_of entry)
     = (if pkg_name entry = [] then [] else [(''name'', pkg_name entry)])
       @ (case pkg_epoch entry of None \<Rightarrow> [] | Some i \<Rightarrow> if i = 0 then [] else [(''epoch'', str (PyInt i))])
       @ (if pkg_version entry = [] then [] else [(''version'', pkg_version entry)])
       @ (if pkg_release entry = [] then [] else [(''release'', pkg_release entry)])
       @ (if pkg_arch entry = [] then [] else [(''binaryarch'', pkg_arch entry)])
       @ (case pkg_buildtime entry of None \<Rightarrow> [] | Some i \<Rightarrow> [(''buildtime'', str (PyInt i))])
       @ (case pkg_disturl entry of None \<Rightarrow> [] | Some s \<Rightarrow> if s = [] then [] else [(''disturl'', s)])
       @ (case pkg_license entry of None \<Rightarrow> [] | Some s \<Rightarrow> if s = [] then [] else [(''license'', s)])
       @ (if endswith (pkg_name entry) ''-release''
          then (case pkg_product_cpeid entry of
                  None \<Rightarrow> []
                | Some cpeid \<Rightarrow> if cpeid = [] then [] else [(''cpeid'', cpeid)])
          else [])"
proof -
  let ?d = "if endswith directory ''/'' then directory else directory @ ''/''"
  let ?P = "\<lambda>(fn, entry). startswith fn ?d"
  have items: "report_items directory st = sort_key fst (filter ?P (tree_report st))"
    by (simp add: report_items_def Let_def filter_sort split: if_splits)
  have set: "set (report_items directory st) = {(fn, entry). (fn, entry) \<in> set (tree_report st) \<and> startswith fn ?d}"
    unfolding items by auto
  have sorted: "sorted (map fst (report_items directory st))"
    unfolding items by simp
  have dist: "distinct (map fst (report_items directory st))" if "distinct (map fst (tree_report st))"
  proof -
    from that have "distinct (map fst (filter ?P (tree_report st)))" by (rule distinct_map_filter)
    then show ?thesis unfolding items by (simp add: distinct_map)
  qed
  have len: "length (write_report_file directory st) = length (filter ?P (tree_report st))"
    unfolding write_report_file_def items by simp
  show ?thesis
    using items set sorted dist len binary_attrs [of entry]
    by (simp add: write_report_file_def binary_of_def)
qed

text \<open>A manifest with two packages of the main tree \<^verbatim>\<open>out/p\<close>, registered in the order \<^verbatim>\<open>b\<close>,
  \<^verbatim>\<open>a\<close>, and a source package of the tree \<^verbatim>\<open>out/p-Source\<close>: the report of \<^verbatim>\<open>out/p\<close> has \<^verbatim>\<open>a\<close>,
  then \<^verbatim>\<open>b\<close>.\<close>

theorem report_of_subtree_witness:
  "distinct (map fst (tree_report (empty_state\<lparr>tree_report :=
        [(''out/p/x86_64/b.rpm'', plain_pkg ''b'' ''2.0'' ''x86_64'' ''repos/b.rpm''),
         (''out/p-Source/src/a.src.rpm'', plain_pkg ''a'' ''1.0'' ''src'' ''repos/a.src.rpm''),
         (''out/p/x86_64/a.rpm'', plain_pkg ''a'' ''1.0'' ''x86_64'' ''repos/a.rpm'')]\<rparr>)))
   \<and> distinct (map fst (report_items ''out/p'' (empty_state\<lparr>tree_report :=
        [(''out/p/x86_64/b.rpm'', plain_pkg ''b'' ''2.0'' ''x86_64'' ''repos/b.rpm''),
         (''out/p-Source/src/a.src.rpm'', plain_pkg ''a'' ''1.0'' ''src'' ''repos/a.src.rpm''),
         (''out/p/x86_64/a.rpm'', plain_pkg ''a'' ''1.0'' ''x86_64'' ''repos/a.rpm'')]\<rparr>)))
   \<and> write_report_file ''out/p'' (empty_state\<lparr>tree_report :=
        [(''out/p/x86_64/b.rpm'', plain_pkg ''b'' ''2.0'' ''x86_64'' ''repos/b.rpm''),
         (''out/p-Source/src/a.src.rpm'', plain_pkg ''a'' ''1.0'' ''src'' ''repos/a.src.rpm''),
         (''out/p/x86_64/a.rpm'', plain_pkg ''a'' ''1.0'' ''x86_64'' ''repos/a.rpm'')]\<rparr>)
     = [binary_of (plain_pkg ''a'' ''1.0'' ''x86_64'' ''repos/a.rpm''),
        binary_of (plain_pkg ''b'' ''2.0'' ''x86_64'' ''repos/b.rpm'')]
   \<and> bin_text (binary_of (plain_pkg ''a'' ''1.0'' ''x86_64'' ''repos/a.rpm'')) = ''obs://prj/repo/x86_64/a''
   \<and> bin_attrs (binary_of (plain_pkg ''a'' ''1.0'' ''x86_64'' ''repos/a.rpm''))
     = [(''name'', ''a''), (''version'', ''1.0''), (''release'', ''1''), (''binaryarch'', ''x86_64'')]"
proof -
  let ?a = "plain_pkg ''a'' ''1.0'' ''x86_64'' ''repos/a.rpm''"
  let ?b = "plain_pkg ''b'' ''2.0'' ''x86_64'' ''repos/b.rpm''"
  let ?s = "plain_pkg ''a'' ''1.0'' ''src'' ''repos/a.src.rpm''"
  let ?st = "empty_state\<lparr>tree_report := [(''out/p/x86_64/b.rpm'', ?b), (''out/p-Source/src/a.src.rpm'', ?s),
      (''out/p/x86_64/a.rpm'', ?a)]\<rparr>"
  have d: "distinct (map fst (tree_report ?st))" by simp
  have e: "\<not> endswith ''out/p'' ''/''" by (simp add: endswith_def)
  have f: "filter (\<lambda>(fn, entry). startswith fn ''out/p/'') (tree_report ?st)
      = [(''out/p/x86_64/b.rpm'', ?b), (''out/p/x86_64/a.rpm'', ?a)]"
    by (simp add: startswith_def)
  have o: "sort_key fst [(''out/p/x86_64/b.rpm'', ?b), (''out/p/x86_64/a.rpm'', ?a)]
      = [(''out/p/x86_64/a.rpm'', ?a), (''out/p/x86_64/b.rpm'', ?b)]"
    by (simp add: less_eq_char_def less_char_def)
  note r = report_of_subtree [where directory = "''out/p''" and st = ?st and entry = ?a]
  from r e f o have items: "report_items ''out/p'' ?st = [(''out/p/x86_64/a.rpm'', ?a), (''out/p/x86_64/b.rpm'', ?b)]"
    by simp
  from r d have c1: "distinct (map fst (report_items ''out/p'' ?st))" by blast
  from r items have c2: "write_report_file ''out/p'' ?st = [binary_of ?a, binary_of ?b]" by simp
  from r have c3: "bin_text (binary_of ?a) = ''obs://prj/repo/x86_64/a''" by (simp add: plain_pkg_def)
  from r have "bin_attrs (binary_of ?a)
     = (if pkg_name ?a = [] then [] else [(''name'', pkg_name ?a)])
       @ (case pkg_epoch ?a of None \<Rightarrow> [] | Some i \<Rightarrow> if i = 0 then [] else [(''epoch'', str (PyInt i))])
       @ (if pkg_version ?a = [] then [] else [(''version'', pkg_version ?a)])
       @ (if pkg_release ?a = [] then [] else [(''release'', pkg_release ?a)])
       @ (if pkg_arch ?a = [] then [] else [(''binaryarch'', pkg_arch ?a)])
       @ (case pkg_buildtime ?a of None \<Rightarrow> [] | Some i \<Rightarrow> [(''buildtime'', str (PyInt i))])
       @ (case pkg_disturl ?a of None \<Rightarrow> [] | Some s \<Rightarrow> if s = [] then [] else [(''disturl'', s)])
       @ (case pkg_license ?a of None \<Rightarrow> [] | Some s \<Rightarrow> if s = [] then [] else [(''license'', s)])
       @ (if endswith (pkg_name ?a) ''-release''
          then (case pkg_product_cpeid ?a of
                  None \<Rightarrow> []
                | Some cpeid \<Rightarrow> if cpeid = [] then [] else [(''cpeid'', cpeid)])
          else [])"
    by blast
  then have c4: "bin_attrs (binary_of ?a)
     = [(''name'', ''a''), (''version'', ''1.0''), (''release'', ''1''), (''binaryarch'', ''x86_64'')]"
    by (simp add: plain_pkg_def endswith_def)
  from d c1 c2 c3 c4 show ?thesis by blast
qed

section \<open>The product directory\<close>








end
